(* ===== verification/Prelude.thy ===== *)
theory Prelude
  imports
    Complex_Main
    "HOL-Library.Word"
    "HOL-Library.Signed_Division"
    "HOL-Library.Code_Target_Nat"
begin

text \<open>
  Shared vocabulary of the development: Rust results as sums, the checked machine
  arithmetic of the standard library, byte strings with their UTF-8 views, decimal digit
  strings, and the scans over slices that the constructors of the domain crate repeat.
  Nothing here models a component; every component theory builds on it.
\<close>

section \<open>Collections of facts\<close>

named_theorems result_simps \<open>inversion of computations over results\<close>
named_theorems checked_simps \<open>checked machine arithmetic unfolded to bounds\<close>

section \<open>Results\<close>

text \<open>
  \<open>Result<T, E>\<close> is \<open>'e + 'a\<close> with \<open>Inl\<close> the error. \<open>bindE\<close> is the question-mark
  operator, \<open>map_err\<close> and \<open>map_ok\<close> are \<open>Result::map_err\<close> and \<open>Result::map\<close>, \<open>ok_or\<close> is
  \<open>Option::ok_or\<close>, \<open>try_fold\<close> is \<open>Iterator::try_fold\<close> and at the same time the shape of a
  \<open>for\<close> loop whose body uses the question mark; \<open>try_all\<close> is such a loop without state.
\<close>

fun bindE :: "'e + 'a \<Rightarrow> ('a \<Rightarrow> 'e + 'b) \<Rightarrow> 'e + 'b" where
  "bindE (Inl e) f = Inl e"
| "bindE (Inr x) f = f x"

fun map_err :: "('e \<Rightarrow> 'f) \<Rightarrow> 'e + 'a \<Rightarrow> 'f + 'a" where
  "map_err g (Inl e) = Inl (g e)"
| "map_err g (Inr x) = Inr x"

fun map_ok :: "('a \<Rightarrow> 'b) \<Rightarrow> 'e + 'a \<Rightarrow> 'e + 'b" where
  "map_ok g (Inl e) = Inl e"
| "map_ok g (Inr x) = Inr (g x)"

fun ok_or :: "'e \<Rightarrow> 'a option \<Rightarrow> 'e + 'a" where
  "ok_or e None = Inl e"
| "ok_or e (Some x) = Inr x"

fun try_fold :: "('s \<Rightarrow> 'a \<Rightarrow> 'e + 's) \<Rightarrow> 's \<Rightarrow> 'a list \<Rightarrow> 'e + 's" where
  "try_fold f s [] = Inr s"
| "try_fold f s (x # xs) = bindE (f s x) (\<lambda>s'. try_fold f s' xs)"

fun try_all :: "('a \<Rightarrow> 'e + unit) \<Rightarrow> 'a list \<Rightarrow> 'e + unit" where
  "try_all f [] = Inr ()"
| "try_all f (x # xs) = bindE (f x) (\<lambda>_. try_all f xs)"

lemma bindE_eq_Inr [result_simps]:
  "bindE r f = Inr y \<longleftrightarrow> (\<exists>x. r = Inr x \<and> f x = Inr y)"
  by (cases r) auto

lemma bindE_eq_Inl [result_simps]:
  "bindE r f = Inl e \<longleftrightarrow> r = Inl e \<or> (\<exists>x. r = Inr x \<and> f x = Inl e)"
  by (cases r) auto

lemma map_err_eq_Inr [result_simps]: "map_err g r = Inr y \<longleftrightarrow> r = Inr y"
  by (cases r) auto

lemma map_err_eq_Inl [result_simps]: "map_err g r = Inl e \<longleftrightarrow> (\<exists>d. r = Inl d \<and> e = g d)"
  by (cases r) auto

lemma map_ok_eq_Inr [result_simps]: "map_ok g r = Inr y \<longleftrightarrow> (\<exists>x. r = Inr x \<and> y = g x)"
  by (cases r) auto

lemma map_ok_eq_Inl [result_simps]: "map_ok g r = Inl e \<longleftrightarrow> r = Inl e"
  by (cases r) auto

lemma ok_or_eq_Inr [result_simps]: "ok_or e r = Inr y \<longleftrightarrow> r = Some y"
  by (cases r) auto

lemma ok_or_eq_Inl [result_simps]: "ok_or e r = Inl d \<longleftrightarrow> r = None \<and> d = e"
  by (cases r) auto

lemma guard_eq_Inr [result_simps]:
  "(if b then Inl e else r) = Inr y \<longleftrightarrow> \<not> b \<and> r = Inr y"
  by simp

lemma guard_eq_Inl [result_simps]:
  "(if b then Inl e else r) = Inl d \<longleftrightarrow> (b \<and> e = d) \<or> (\<not> b \<and> r = Inl d)"
  by auto

lemma guard_positive_eq_Inr [result_simps]:
  "(if b then r else Inl e) = Inr y \<longleftrightarrow> b \<and> r = Inr y"
  by simp

lemma bindE_assoc: "bindE (bindE r f) g = bindE r (\<lambda>x. bindE (f x) g)"
  by (cases r) auto

lemma not_isl_iff: "\<not> isl r \<longleftrightarrow> (\<exists>x. r = Inr x)"
  by (cases r) auto

lemma isl_iff: "isl r \<longleftrightarrow> (\<exists>e. r = Inl e)"
  by (cases r) auto

lemma try_all_eq_Inr [result_simps]:
  "try_all f xs = Inr u \<longleftrightarrow> (\<forall>x\<in>set xs. f x = Inr ())"
  by (induction xs) (auto simp: bindE_eq_Inr)

lemma try_fold_append:
  "try_fold f s (xs @ ys) = bindE (try_fold f s xs) (\<lambda>t. try_fold f t ys)"
  by (induction xs arbitrary: s) (auto simp: bindE_assoc)

lemma try_fold_invariant:
  assumes "try_fold f s xs = Inr t" and "P s"
    and "\<And>s x s'. x \<in> set xs \<Longrightarrow> P s \<Longrightarrow> f s x = Inr s' \<Longrightarrow> P s'"
  shows "P t"
  using assms
proof (induction xs arbitrary: s)
  case Nil
  then show ?case by simp
next
  case (Cons x xs)
  from Cons.prems(1) obtain s' where "f s x = Inr s'" and "try_fold f s' xs = Inr t"
    by (auto simp: result_simps)
  with Cons show ?case by (meson list.set_intros)
qed

section \<open>Machine integers\<close>

text \<open>
  Unsigned machine integers are natural numbers and signed ones integers; the width is
  written out in each operation. The \<open>checked\<close> operations return \<open>None\<close> exactly where the
  standard library does. The unchecked \<open>add_u\<close>, \<open>mul_u\<close>, \<open>sub_u\<close> and \<open>pow_u\<close> wrap at the
  width, as a release build does; a proof that a caller never wraps is a proof that a debug
  build never panics there.
\<close>

type_synonym u8 = nat
type_synonym u16 = nat
type_synonym u64 = nat
type_synonym u128 = nat
type_synonym i128 = int

definition fits_u :: "nat \<Rightarrow> nat \<Rightarrow> nat option" where
  "fits_u w n = (if n < 2 ^ w then Some n else None)"

definition checked_add_u :: "nat \<Rightarrow> nat \<Rightarrow> nat \<Rightarrow> nat option" where
  "checked_add_u w a b = fits_u w (a + b)"

definition checked_mul_u :: "nat \<Rightarrow> nat \<Rightarrow> nat \<Rightarrow> nat option" where
  "checked_mul_u w a b = fits_u w (a * b)"

definition checked_sub_u :: "nat \<Rightarrow> nat \<Rightarrow> nat option" where
  "checked_sub_u a b = (if b \<le> a then Some (a - b) else None)"

definition mul_u :: "nat \<Rightarrow> nat \<Rightarrow> nat \<Rightarrow> nat" where
  "mul_u w a b = (a * b) mod 2 ^ w"

definition sub_u :: "nat \<Rightarrow> nat \<Rightarrow> nat \<Rightarrow> nat" where
  "sub_u w a b = (if b \<le> a then a - b else (2 ^ w + a - b) mod 2 ^ w)"

definition pow_u :: "nat \<Rightarrow> nat \<Rightarrow> nat \<Rightarrow> nat" where
  "pow_u w a e = (a ^ e) mod 2 ^ w"

definition fits_i :: "nat \<Rightarrow> int \<Rightarrow> int option" where
  "fits_i w x = (if - (2 ^ (w - 1)) \<le> x \<and> x < 2 ^ (w - 1) then Some x else None)"

definition checked_add_i :: "nat \<Rightarrow> int \<Rightarrow> int \<Rightarrow> int option" where
  "checked_add_i w a b = fits_i w (a + b)"

definition checked_sub_i :: "nat \<Rightarrow> int \<Rightarrow> int \<Rightarrow> int option" where
  "checked_sub_i w a b = fits_i w (a - b)"

definition checked_mul_i :: "nat \<Rightarrow> int \<Rightarrow> int \<Rightarrow> int option" where
  "checked_mul_i w a b = fits_i w (a * b)"

definition checked_pow_i :: "nat \<Rightarrow> int \<Rightarrow> nat \<Rightarrow> int option" where
  "checked_pow_i w a e = fits_i w (a ^ e)"

definition checked_div_i :: "nat \<Rightarrow> int \<Rightarrow> int \<Rightarrow> int option" where
  "checked_div_i w a b = (if b = 0 then None else fits_i w (a sdiv b))"

definition checked_rem_i :: "nat \<Rightarrow> int \<Rightarrow> int \<Rightarrow> int option" where
  "checked_rem_i w a b =
     (if b = 0 \<or> (a = - (2 ^ (w - 1)) \<and> b = - 1) then None else Some (a smod b))"

definition u64_try_from :: "int \<Rightarrow> u64 option" where
  "u64_try_from x = (if 0 \<le> x \<and> x < 2 ^ 64 then Some (nat x) else None)"

lemma fits_u_eq_Some [checked_simps]: "fits_u w n = Some m \<longleftrightarrow> n < 2 ^ w \<and> m = n"
  by (auto simp: fits_u_def)

lemma fits_u_eq_None [checked_simps]: "fits_u w n = None \<longleftrightarrow> 2 ^ w \<le> n"
  by (auto simp: fits_u_def)

lemma fits_i_eq_Some [checked_simps]:
  "fits_i w x = Some y \<longleftrightarrow> - (2 ^ (w - 1)) \<le> x \<and> x < 2 ^ (w - 1) \<and> y = x"
  by (auto simp: fits_i_def)

lemma checked_sub_u_eq_Some [checked_simps]:
  "checked_sub_u a b = Some c \<longleftrightarrow> b \<le> a \<and> c = a - b"
  by (auto simp: checked_sub_u_def)

lemma checked_sub_u_eq_None [checked_simps]: "checked_sub_u a b = None \<longleftrightarrow> a < b"
  by (auto simp: checked_sub_u_def)

lemma u64_try_from_eq_Some [checked_simps]:
  "u64_try_from x = Some n \<longleftrightarrow> 0 \<le> x \<and> x < 2 ^ 64 \<and> n = nat x"
  by (auto simp: u64_try_from_def)

lemmas checked_defs =
  checked_add_u_def checked_mul_u_def checked_add_i_def checked_sub_i_def checked_mul_i_def
  checked_pow_i_def

declare checked_defs [checked_simps]

lemma sdiv_nonneg [simp]: "0 \<le> a \<Longrightarrow> 0 < b \<Longrightarrow> a sdiv b = (a :: int) div b"
  by (simp add: signed_divide_int_def sgn_if)

lemma smod_nonneg [simp]: "0 \<le> a \<Longrightarrow> 0 < b \<Longrightarrow> a smod b = (a :: int) mod b"
  by (cases "a = 0") (simp_all add: signed_modulo_int_def signed_divide_int_def sgn_if
      minus_div_mult_eq_mod)

lemma checked_div_i_nonneg:
  assumes "0 \<le> a" and "0 < b" and "a < 2 ^ (w - 1)"
  shows "checked_div_i w a b = Some (a div b)"
proof -
  from assms have "a div b \<le> a"
    using zdiv_mono2 [of a 1 b] by simp
  with assms have "a div b < 2 ^ (w - 1)" and "0 \<le> a div b"
    by (auto simp: pos_imp_zdiv_nonneg_iff)
  with assms show ?thesis
    by (auto simp: checked_div_i_def fits_i_def intro: order_trans [of _ 0])
qed

lemma checked_rem_i_nonneg:
  "0 \<le> a \<Longrightarrow> 0 < b \<Longrightarrow> checked_rem_i w a b = Some (a mod b)"
  by (simp add: checked_rem_i_def)

section \<open>Strings\<close>

text \<open>
  A \<open>&str\<close> is its UTF-8 byte sequence, one \<open>char\<close> per byte: \<open>length\<close> is \<open>str::len\<close>. In valid
  UTF-8 every scalar value has exactly one byte that is not a continuation byte (10xxxxxx),
  so \<open>chars_count\<close> is \<open>value.chars().count()\<close>. The control characters of \<open>char::is_control\<close>
  (Unicode Cc) are U+0000 to U+001F, U+007F, and U+0080 to U+009F, the last group encoded as
  C2 80 to C2 9F.
\<close>

definition byte_of :: "char \<Rightarrow> nat" where
  "byte_of c = of_char c"

definition is_continuation_byte :: "char \<Rightarrow> bool" where
  "is_continuation_byte c \<longleftrightarrow> 128 \<le> byte_of c \<and> byte_of c < 192"

definition chars_count :: "string \<Rightarrow> nat" where
  "chars_count s = length (filter (\<lambda>c. \<not> is_continuation_byte c) s)"

fun has_control :: "string \<Rightarrow> bool" where
  "has_control [] = False"
| "has_control (c # s) =
     (byte_of c < 32 \<or> byte_of c = 127
      \<or> (byte_of c = 194 \<and> (case s of [] \<Rightarrow> False | d # _ \<Rightarrow> 128 \<le> byte_of d \<and> byte_of d < 160))
      \<or> has_control s)"

definition is_ascii_digit :: "char \<Rightarrow> bool" where
  "is_ascii_digit c \<longleftrightarrow> 48 \<le> byte_of c \<and> byte_of c \<le> 57"

definition is_ascii_uppercase :: "char \<Rightarrow> bool" where
  "is_ascii_uppercase c \<longleftrightarrow> 65 \<le> byte_of c \<and> byte_of c \<le> 90"

definition starts_with :: "char \<Rightarrow> string \<Rightarrow> bool" where
  "starts_with c s \<longleftrightarrow> (case s of [] \<Rightarrow> False | d # _ \<Rightarrow> d = c)"

definition ends_with :: "char \<Rightarrow> string \<Rightarrow> bool" where
  "ends_with c s \<longleftrightarrow> s \<noteq> [] \<and> last s = c"

lemma chars_count_le: "chars_count s \<le> length s"
  by (simp add: chars_count_def)

section \<open>Decimal digit strings\<close>

text \<open>
  \<open>show_nat\<close> is the integer \<open>Display\<close>, \<open>digits_value\<close> the value of a string of ASCII digits
  and \<open>parse_digits\<close> the result of \<open>str::parse\<close> on such a string at a given width (the
  callers reject every other byte before they parse).
\<close>

definition digit_char :: "nat \<Rightarrow> char" where
  "digit_char d = char_of (48 + d)"

definition digit_value :: "char \<Rightarrow> nat" where
  "digit_value c = byte_of c - 48"

fun show_nat :: "nat \<Rightarrow> string" where
  "show_nat n = (if n < 10 then [digit_char n] else show_nat (n div 10) @ [digit_char (n mod 10)])"

declare show_nat.simps [simp del]

definition digits_value :: "string \<Rightarrow> nat" where
  "digits_value s = foldl (\<lambda>n c. 10 * n + digit_value c) 0 s"

definition parse_digits :: "nat \<Rightarrow> string \<Rightarrow> nat option" where
  "parse_digits w s = fits_u w (digits_value s)"

definition canonical_digits :: "string \<Rightarrow> bool" where
  "canonical_digits s \<longleftrightarrow>
     s \<noteq> [] \<and> (\<forall>c\<in>set s. is_ascii_digit c) \<and> \<not> (1 < length s \<and> starts_with (CHR ''0'') s)"

lemma byte_of_digit_char [simp]: "d < 10 \<Longrightarrow> byte_of (digit_char d) = 48 + d"
  by (simp add: byte_of_def digit_char_def)

lemma digit_value_digit_char [simp]: "d < 10 \<Longrightarrow> digit_value (digit_char d) = d"
  by (simp add: digit_value_def)

lemma is_ascii_digit_digit_char [simp]: "d < 10 \<Longrightarrow> is_ascii_digit (digit_char d)"
  by (simp add: is_ascii_digit_def)

lemma digit_char_digit_value [simp]: "is_ascii_digit c \<Longrightarrow> digit_char (digit_value c) = c"
  by (simp add: is_ascii_digit_def digit_value_def digit_char_def byte_of_def)

lemma digit_value_less [simp]: "is_ascii_digit c \<Longrightarrow> digit_value c < 10"
  unfolding is_ascii_digit_def digit_value_def by linarith

lemma digits_value_snoc [simp]: "digits_value (s @ [c]) = 10 * digits_value s + digit_value c"
  by (simp add: digits_value_def)

lemma digits_value_Nil [simp]: "digits_value [] = 0"
  by (simp add: digits_value_def)

lemma foldl_digits: "foldl (\<lambda>n c. 10 * n + digit_value c) a s = a * 10 ^ length s + digits_value s"
proof (induction s rule: rev_induct)
  case Nil
  then show ?case by simp
next
  case (snoc c s)
  then show ?case by (simp add: algebra_simps)
qed

lemma digits_value_append: "digits_value (s @ t) = digits_value s * 10 ^ length t + digits_value t"
proof -
  have "digits_value (s @ t) = foldl (\<lambda>n c. 10 * n + digit_value c) (digits_value s) t"
    by (simp add: digits_value_def)
  then show ?thesis by (simp only: foldl_digits)
qed

lemma digits_value_Cons: "digits_value (c # s) = digit_value c * 10 ^ length s + digits_value s"
  using digits_value_append [of "[c]" s] by (simp add: digits_value_def)

lemma digits_value_less: "\<forall>c\<in>set s. is_ascii_digit c \<Longrightarrow> digits_value s < 10 ^ length s"
proof (induction s rule: rev_induct)
  case Nil
  then show ?case by simp
next
  case (snoc c s)
  from snoc.prems have "digit_value c < 10" by simp
  moreover from snoc have "digits_value s < 10 ^ length s" by simp
  ultimately show ?case by simp
qed

lemma show_nat_not_Nil [simp]: "show_nat n \<noteq> []"
  by (subst show_nat.simps) simp

lemma digits_value_show_nat [simp]: "digits_value (show_nat n) = n"
proof (induction n rule: show_nat.induct)
  case (1 n)
  show ?case
  proof (cases "n < 10")
    case True
    then show ?thesis by (subst show_nat.simps) (simp add: digits_value_def)
  next
    case False
    with 1 show ?thesis by (subst show_nat.simps) simp
  qed
qed

lemma show_nat_digits: "c \<in> set (show_nat n) \<Longrightarrow> is_ascii_digit c"
proof (induction n rule: show_nat.induct)
  case (1 n)
  then show ?case
    by (cases "n < 10") (auto simp: show_nat.simps [of n])
qed

lemma hd_show_nat: "10 \<le> n \<Longrightarrow> hd (show_nat n) \<noteq> CHR ''0''"
proof (induction n rule: show_nat.induct)
  case (1 n)
  have zero: "digit_char d \<noteq> CHR ''0''" if "0 < d" "d < 10" for d
  proof
    assume "digit_char d = CHR ''0''"
    then have "digit_value (digit_char d) = digit_value (CHR ''0'')" by simp
    moreover have "digit_value (CHR ''0'') = 0" by (simp add: digit_value_def byte_of_def)
    ultimately show False using that by simp
  qed
  show ?case
  proof (cases "n div 10 < 10")
    case True
    with "1.prems" have "show_nat n = [digit_char (n div 10), digit_char (n mod 10)]"
      by (simp add: show_nat.simps [of n] show_nat.simps [of "n div 10"])
    with True "1.prems" show ?thesis by (simp add: zero div_greater_zero_iff)
  next
    case False
    with 1 show ?thesis by (simp add: show_nat.simps [of n])
  qed
qed

lemma length_show_nat_eq_1: "length (show_nat n) = 1 \<longleftrightarrow> n < 10"
  by (subst show_nat.simps) auto

lemma canonical_show_nat [simp]: "canonical_digits (show_nat n)"
proof -
  have "\<not> starts_with (CHR ''0'') (show_nat n)" if "1 < length (show_nat n)"
  proof -
    from that length_show_nat_eq_1 [of n] have "10 \<le> n" by linarith
    then have "hd (show_nat n) \<noteq> CHR ''0''" by (rule hd_show_nat)
    then show ?thesis
      by (cases "show_nat n") (auto simp: starts_with_def)
  qed
  then show ?thesis
    by (auto simp: canonical_digits_def dest: show_nat_digits)
qed

lemma show_nat_snoc:
  assumes "0 < n" and "d < 10"
  shows "show_nat (10 * n + d) = show_nat n @ [digit_char d]"
  using assms by (subst show_nat.simps) simp

lemma digits_value_pos:
  assumes "c \<noteq> CHR ''0''" and "is_ascii_digit c"
  shows "0 < digits_value (c # s)"
proof -
  have "digit_value c \<noteq> 0"
  proof
    assume "digit_value c = 0"
    with assms(2) have "c = digit_char 0" by (metis digit_char_digit_value)
    moreover have "digit_char 0 = CHR ''0''" by code_simp
    ultimately show False using assms(1) by simp
  qed
  then show ?thesis by (simp add: digits_value_Cons)
qed

lemma show_nat_digits_value:
  assumes "canonical_digits s"
  shows "show_nat (digits_value s) = s"
  using assms
proof (induction s rule: rev_induct)
  case Nil
  then show ?case by (simp add: canonical_digits_def)
next
  case (snoc c s)
  then have c: "is_ascii_digit c" by (simp add: canonical_digits_def)
  show ?case
  proof (cases s)
    case Nil
    with c show ?thesis
      by (subst show_nat.simps) (simp add: digits_value_def)
  next
    case (Cons b t)
    with snoc.prems have "canonical_digits s" and b: "b \<noteq> CHR ''0''" "is_ascii_digit b"
      by (auto simp: canonical_digits_def starts_with_def)
    with snoc.IH have "show_nat (digits_value s) = s" by simp
    moreover from b Cons have "0 < digits_value s" by (simp add: digits_value_pos)
    ultimately show ?thesis using c by (simp add: show_nat_snoc)
  qed
qed

lemma length_show_nat_le: "n < 10 ^ k \<Longrightarrow> 0 < k \<Longrightarrow> length (show_nat n) \<le> k"
proof (induction n arbitrary: k rule: show_nat.induct)
  case (1 n)
  show ?case
  proof (cases "n < 10")
    case True
    with 1 show ?thesis by (subst show_nat.simps) simp
  next
    case False
    with "1.prems" obtain j where k: "k = Suc j" and "0 < j"
      by (cases k; cases "k - 1") auto
    with False 1 have "length (show_nat (n div 10)) \<le> j"
      by (intro "1.IH") auto
    with False k show ?thesis by (subst show_nat.simps) simp
  qed
qed

section \<open>Scans over slices\<close>

text \<open>
  \<open>has_duplicate key xs\<close> is the loop \<open>for (index, x) in xs.iter().enumerate()\<close> that looks
  for an equal key in \<open>xs[..index]\<close>; the accumulator is that prefix.
\<close>

fun has_duplicate_from :: "('a \<Rightarrow> 'k) \<Rightarrow> 'a list \<Rightarrow> 'a list \<Rightarrow> bool" where
  "has_duplicate_from key seen [] = False"
| "has_duplicate_from key seen (x # xs) =
     ((\<exists>p\<in>set seen. key p = key x) \<or> has_duplicate_from key (seen @ [x]) xs)"

definition has_duplicate :: "('a \<Rightarrow> 'k) \<Rightarrow> 'a list \<Rightarrow> bool" where
  "has_duplicate key xs = has_duplicate_from key [] xs"

lemma has_duplicate_from_iff:
  "has_duplicate_from key seen xs \<longleftrightarrow>
     \<not> distinct (map key xs) \<or> key ` set seen \<inter> key ` set xs \<noteq> {}"
proof (induction xs arbitrary: seen)
  case Nil
  then show ?case by simp
next
  case (Cons x xs)
  then show ?case by (simp add: image_iff) (metis image_eqI)
qed

lemma has_duplicate_iff [simp]: "has_duplicate key xs \<longleftrightarrow> \<not> distinct (map key xs)"
  by (simp add: has_duplicate_def has_duplicate_from_iff)

end
