(* ===== verification/Interfaces.thy ===== *)
theory Interfaces
  imports Prelude
begin

text \<open>
  The contracts that several value types of the domain crate share, as locales: a
  codec that admits exactly one wire form per value, and bounded exact addition with its
  folds. The component theories interpret them on their own definitions.
\<close>

section \<open>Canonical codecs\<close>

text \<open>
  \<open>valid\<close> is the type invariant of the encoded value, \<open>render\<close> its \<open>Display\<close> or
  \<open>Serialize\<close> and \<open>parse\<close> its \<open>FromStr\<close> or \<open>Deserialize\<close>. The two laws say that rendering is parsed back and that whatever parses is the
  rendering of the parsed value, so no second spelling is admitted.
\<close>

locale canonical_codec =
  fixes valid :: "'a \<Rightarrow> bool"
    and render :: "'a \<Rightarrow> 'w"
    and parse :: "'w \<Rightarrow> 'e + 'a"
  assumes parse_render: "valid x \<Longrightarrow> parse (render x) = Inr x"
    and parse_sound: "parse s = Inr x \<Longrightarrow> valid x \<and> render x = s"
begin

lemma parse_iff: "parse s = Inr x \<longleftrightarrow> valid x \<and> render x = s"
  using parse_render parse_sound by blast

lemma parse_inject: "parse s = Inr x \<Longrightarrow> parse t = Inr x \<Longrightarrow> s = t"
  by (simp add: parse_iff)

lemma render_inject: "valid x \<Longrightarrow> valid y \<Longrightarrow> render x = render y \<Longrightarrow> x = y"
  by (metis parse_render Inr_inject)

lemma parse_rejects: "(\<And>x. valid x \<Longrightarrow> render x \<noteq> s) \<Longrightarrow> isl (parse s)"
  by (cases "parse s") (auto dest: parse_sound)

end

section \<open>Bounded exact addition\<close>

text \<open>
  \<open>val\<close> reads a value as a natural number, \<open>bound\<close> is the largest admitted one. Addition is
  exact below the bound and an error above it; there is no third outcome. The lemmas of the
  locale lift this to folds: a fold succeeds exactly when the whole sum is within the bound,
  so no intermediate sum fails first.
\<close>

locale checked_sum =
  fixes val :: "'a \<Rightarrow> nat"
    and bound :: nat
    and valid :: "'a \<Rightarrow> bool"
    and add :: "'a \<Rightarrow> 'a \<Rightarrow> 'e + 'a"
  assumes add_fits: "valid a \<Longrightarrow> valid b \<Longrightarrow> val a + val b \<le> bound \<Longrightarrow>
      \<exists>c. add a b = Inr c \<and> valid c \<and> val c = val a + val b"
    and add_overflows: "valid a \<Longrightarrow> valid b \<Longrightarrow> bound < val a + val b \<Longrightarrow> isl (add a b)"
begin

lemma add_Inr:
  assumes "add a b = Inr c" and "valid a" and "valid b"
  shows "valid c" and "val c = val a + val b" and "val a + val b \<le> bound"
proof -
  have le: "val a + val b \<le> bound"
    using assms add_overflows [of a b] by (cases "val a + val b \<le> bound") (auto simp: not_le)
  with assms add_fits [of a b] show "valid c" and "val c = val a + val b" by auto
  from le show "val a + val b \<le> bound" .
qed

lemma fold_Inr:
  assumes "try_fold add z xs = Inr c" and "valid z" and "\<forall>x\<in>set xs. valid x"
  shows "valid c \<and> val c = val z + sum_list (map val xs) \<and> (xs \<noteq> [] \<longrightarrow> val c \<le> bound)"
  using assms
proof (induction xs arbitrary: z)
  case Nil
  then show ?case by simp
next
  case (Cons x xs)
  then obtain y where y: "add z x = Inr y" and rest: "try_fold add y xs = Inr c"
    by (auto simp: result_simps)
  from Cons.prems have "valid x" by simp
  note step = add_Inr [OF y Cons.prems(2) this]
  with Cons.IH [OF rest step(1)] Cons.prems(3) show ?case by (cases xs) auto
qed

lemma fold_fits:
  assumes "valid z" and "\<forall>x\<in>set xs. valid x" and "val z + sum_list (map val xs) \<le> bound"
  shows "\<exists>c. try_fold add z xs = Inr c \<and> valid c \<and> val c = val z + sum_list (map val xs)"
  using assms
proof (induction xs arbitrary: z)
  case Nil
  then show ?case by simp
next
  case (Cons x xs)
  then have "val z + val x \<le> bound" and "valid x" by auto
  with Cons.prems obtain y where "add z x = Inr y" "valid y" "val y = val z + val x"
    using add_fits by blast
  with Cons.IH [of y] Cons.prems show ?case by (auto simp: add.assoc)
qed

lemma fold_iff:
  assumes "valid z" and "\<forall>x\<in>set xs. valid x" and "xs \<noteq> []"
  shows "(\<exists>c. try_fold add z xs = Inr c) \<longleftrightarrow> val z + sum_list (map val xs) \<le> bound"
  using fold_Inr [of z xs] fold_fits [of z xs] assms by metis

lemma fold_overflows:
  assumes "valid z" and "\<forall>x\<in>set xs. valid x" and "xs \<noteq> []"
    and "bound < val z + sum_list (map val xs)"
  shows "isl (try_fold add z xs)"
  using fold_iff [OF assms(1,2,3)] assms(4) by (cases "try_fold add z xs") auto

end

end
