(* ===== verification/Ordered_Map.thy ===== *)
theory Ordered_Map
  imports Interfaces
begin

text \<open>
  \<open>BTreeMap\<close> and \<open>BTreeSet\<close> of the standard library as sorted association lists and sorted
  lists: insertion, lookup and iteration in key order. The locale \<open>ordered_map\<close> states what
  the allocation planner and the causal analysis rely on; it is interpreted on the list
  model at the end of the theory, together with the keyed totals the planner builds.
\<close>

section \<open>Ordered maps\<close>

type_synonym ('k, 'v) btree_map = "('k \<times> 'v) list"

fun bt_insert :: "'k::linorder \<Rightarrow> 'v \<Rightarrow> ('k, 'v) btree_map \<Rightarrow> ('k, 'v) btree_map" where
  "bt_insert k v [] = [(k, v)]"
| "bt_insert k v ((l, w) # m) =
     (if k < l then (k, v) # (l, w) # m
      else if k = l then (k, v) # m
      else (l, w) # bt_insert k v m)"

abbreviation bt_get :: "('k, 'v) btree_map \<Rightarrow> 'k \<Rightarrow> 'v option" where
  "bt_get m k \<equiv> map_of m k"

abbreviation bt_keys :: "('k, 'v) btree_map \<Rightarrow> 'k list" where
  "bt_keys m \<equiv> map fst m"

definition bt_inv :: "('k::linorder, 'v) btree_map \<Rightarrow> bool" where
  "bt_inv m \<longleftrightarrow> sorted_wrt (<) (map fst m)"

definition bt_collect :: "('k::linorder \<times> 'v) list \<Rightarrow> ('k, 'v) btree_map" where
  "bt_collect kvs = fold (\<lambda>(k, v) m. bt_insert k v m) kvs []"

text \<open>\<open>BTreeSet\<close>: a sorted list without duplicates.\<close>

abbreviation bs_insert :: "'k::linorder \<Rightarrow> 'k list \<Rightarrow> 'k list" where
  "bs_insert x s \<equiv> List.insort_insert x s"

definition bs_collect :: "'k::linorder list \<Rightarrow> 'k list" where
  "bs_collect xs = fold bs_insert xs []"

section \<open>The interface\<close>

locale ordered_map =
  fixes empty :: "'m"
    and insert :: "'k::linorder \<Rightarrow> 'v \<Rightarrow> 'm \<Rightarrow> 'm"
    and get :: "'m \<Rightarrow> 'k \<Rightarrow> 'v option"
    and entries :: "'m \<Rightarrow> ('k \<times> 'v) list"
    and inv :: "'m \<Rightarrow> bool"
  assumes inv_empty: "inv empty"
    and get_empty: "get empty = Map.empty"
    and inv_insert: "inv m \<Longrightarrow> inv (insert k v m)"
    and get_insert: "inv m \<Longrightarrow> get (insert k v m) = (get m)(k \<mapsto> v)"
    and entries_sorted: "inv m \<Longrightarrow> sorted_wrt (<) (map fst (entries m))"
    and entries_get: "inv m \<Longrightarrow> map_of (entries m) = get m"
begin

lemma entries_distinct: "inv m \<Longrightarrow> distinct (map fst (entries m))"
  using entries_sorted strict_sorted_iff by blast

lemma entries_iff: "inv m \<Longrightarrow> (k, v) \<in> set (entries m) \<longleftrightarrow> get m k = Some v"
  by (metis entries_distinct entries_get map_of_eq_Some_iff)

text \<open>Two maps with the same lookups iterate identically: only contents matter, not history.\<close>

lemma entries_extensional:
  assumes "inv m" and "inv n" and "get m = get n"
  shows "entries m = entries n"
proof -
  have "set (entries m) = set (entries n)"
    using assms entries_iff by (metis (no_types, lifting) subrelI subset_antisym)
  moreover have "inj_on fst (set (entries m) \<union> set (entries n))"
    using assms entries_iff by (auto simp: inj_on_def)
  ultimately show ?thesis
    using assms entries_sorted strict_sorted_iff
    by (intro map_sorted_distinct_set_unique [where f = fst]) blast+
qed

lemma fold_insert:
  assumes "inv m"
  shows "inv (fold (\<lambda>(k, v). insert k v) kvs m)"
    and "get (fold (\<lambda>(k, v). insert k v) kvs m) = get m ++ map_of (rev kvs)"
  using assms
proof (induction kvs arbitrary: m)
  case Nil
  {
    case 1
    then show ?case by simp
  next
    case 2
    then show ?case by simp
  }
next
  case (Cons kv kvs)
  obtain k v where kv: "kv = (k, v)" by (cases kv)
  {
    case 1
    then show ?case using Cons.IH(1) inv_insert by (simp add: kv)
  next
    case 2
    then have "inv (insert k v m)" by (rule inv_insert)
    from Cons.IH(2) [OF this] 2 show ?case
      by (simp add: kv get_insert fun_upd_def map_add_def fun_eq_iff split: option.splits)
  }
qed

end

section \<open>The list model provides the interface\<close>

lemma set_keys_bt_insert: "set (map fst (bt_insert k v m)) = Set.insert k (set (map fst m))"
  by (induction k v m rule: bt_insert.induct) auto

lemma bt_inv_Nil [simp]: "bt_inv []"
  by (simp add: bt_inv_def)

lemma bt_inv_insert [simp]: "bt_inv m \<Longrightarrow> bt_inv (bt_insert k v m)"
  using set_keys_bt_insert [of k v]
  unfolding bt_inv_def by (induction k v m rule: bt_insert.induct) (auto simp del: set_map)

lemma bt_get_insert [simp]: "bt_inv m \<Longrightarrow> map_of (bt_insert k v m) = (map_of m)(k \<mapsto> v)"
  unfolding bt_inv_def by (induction k v m rule: bt_insert.induct) (auto simp: fun_eq_iff)

interpretation bt: ordered_map "[]" bt_insert map_of "\<lambda>m. m" bt_inv
  by unfold_locales (auto simp: bt_inv_def [symmetric] intro: bt_inv_def [THEN iffD1])

lemma bt_collect_inv [simp]: "bt_inv (bt_collect kvs)"
  unfolding bt_collect_def using bt.fold_insert(1) [of "[]" kvs] by simp

lemma bt_collect_get: "map_of (bt_collect kvs) = map_of (rev kvs)"
  unfolding bt_collect_def using bt.fold_insert(2) [of "[]" kvs] by simp

lemma set_keys_bt_collect: "fst ` set (bt_collect kvs) = fst ` set kvs"
  by (metis bt_collect_get dom_map_of_conv_image_fst set_rev)

lemma bt_collect_cong:
  assumes "set kvs = set kvs'" and "distinct (map fst kvs)" and "distinct (map fst kvs')"
  shows "bt_collect kvs = bt_collect kvs'"
proof (rule bt.entries_extensional)
  have "map_of (rev kvs) = map_of (rev kvs')"
    using assms by (intro map_of_inject_set [THEN iffD2]) (auto simp: rev_map [symmetric])
  then show "map_of (bt_collect kvs) = map_of (bt_collect kvs')" by (simp add: bt_collect_get)
qed simp_all

lemma bt_inv_distinct: "bt_inv m \<Longrightarrow> distinct (map fst m)"
  by (rule bt.entries_distinct)

lemma bs_collect_set: "set (bs_collect xs) = set xs"
proof -
  have "set (fold bs_insert xs s) = set xs \<union> set s" for s
    by (induction xs arbitrary: s) (auto simp: set_insort_insert)
  then show ?thesis by (simp add: bs_collect_def)
qed

lemma bs_collect_sorted: "sorted (bs_collect xs) \<and> distinct (bs_collect xs)"
proof -
  have "sorted s \<and> distinct s \<Longrightarrow> sorted (fold bs_insert xs s) \<and> distinct (fold bs_insert xs s)" for s
    by (induction xs arbitrary: s) (auto simp: sorted_insort_insert distinct_insort_insert)
  then show ?thesis by (simp add: bs_collect_def)
qed

lemma bs_collect_cong: "set xs = set ys \<Longrightarrow> bs_collect xs = bs_collect ys"
  using bs_collect_set bs_collect_sorted by (metis sorted_distinct_set_unique)

section \<open>Loops that insert fresh keys\<close>

text \<open>
  \<open>if guard(x) || map.insert(key(x), value(x)).is_some() { return Err(..) }\<close>, the loop by which
  the planners index their inputs. Such a loop succeeds exactly when every guard holds and no
  key repeats, and then the map holds exactly the inputs.
\<close>

locale fresh_inserts =
  fixes step :: "('k::linorder, 'v) btree_map \<Rightarrow> 'x \<Rightarrow> 'e + ('k, 'v) btree_map"
    and key :: "'x \<Rightarrow> 'k"
    and entry :: "'x \<Rightarrow> 'v"
    and admits :: "'x \<Rightarrow> bool"
  assumes step_Inr: "step m x = Inr n \<longleftrightarrow>
      admits x \<and> map_of m (key x) = None \<and> n = bt_insert (key x) (entry x) m"
begin

lemma inserts_from:
  assumes "try_fold step m xs = Inr m'" and "bt_inv m"
  shows "bt_inv m' \<and> distinct (map key xs) \<and> (\<forall>x\<in>set xs. admits x \<and> map_of m (key x) = None)
    \<and> map_of m' = map_of m ++ map_of (map (\<lambda>x. (key x, entry x)) xs)"
  using assms
proof (induction xs arbitrary: m)
  case Nil
  then show ?case by simp
next
  case (Cons x xs)
  then obtain n where rest: "try_fold step n xs = Inr m'" and step: "admits x" "map_of m (key x) = None"
    "n = bt_insert (key x) (entry x) m"
    by (auto simp: result_simps step_Inr)
  then have n: "map_of n = (map_of m)(key x \<mapsto> entry x)" "bt_inv n" using Cons.prems(2) by simp_all
  note IH = Cons.IH [OF rest n(2)]
  have fresh: "key x \<notin> key ` set xs" and old: "\<forall>y\<in>set xs. admits y \<and> map_of m (key y) = None"
    using IH unfolding n by (auto split: if_splits)
  have "map_of (map (\<lambda>x. (key x, entry x)) xs) (key x) = None"
    using fresh by (simp add: map_of_eq_None_iff image_image)
  then have "(map_of m)(key x \<mapsto> entry x) ++ map_of (map (\<lambda>x. (key x, entry x)) xs) =
      map_of m ++ map_of (map (\<lambda>x. (key x, entry x)) (x # xs))"
    by (auto simp: map_add_def fun_eq_iff split: option.splits)
  with IH have "map_of m' = map_of m ++ map_of (map (\<lambda>x. (key x, entry x)) (x # xs))"
    unfolding n by metis
  with IH step(1,2) fresh old show ?case by (simp del: map_of.simps)
qed

lemma inserts_ok:
  assumes "bt_inv m" and "distinct (map key xs)"
    and "\<forall>x\<in>set xs. admits x \<and> map_of m (key x) = None"
  shows "\<exists>m'. try_fold step m xs = Inr m'"
  using assms
proof (induction xs arbitrary: m)
  case Nil
  then show ?case by simp
next
  case (Cons x xs)
  let ?n = "bt_insert (key x) (entry x) m"
  have "step m x = Inr ?n" using Cons.prems(3) by (simp add: step_Inr)
  moreover have "\<forall>y\<in>set xs. admits y \<and> map_of ?n (key y) = None"
    using Cons.prems by (auto simp: image_iff)
  then have "\<exists>m'. try_fold step ?n xs = Inr m'"
    using Cons.prems by (intro Cons.IH) simp_all
  ultimately show ?case by simp
qed

lemma inserts_iff:
  "try_fold step [] xs = Inr m \<longleftrightarrow>
    distinct (map key xs) \<and> (\<forall>x\<in>set xs. admits x) \<and> m = bt_collect (map (\<lambda>x. (key x, entry x)) xs)"
proof -
  have unique: "m = bt_collect (map (\<lambda>x. (key x, entry x)) xs)" if m: "try_fold step [] xs = Inr m" for m
  proof -
    note all = inserts_from [OF m bt_inv_Nil]
    then have "distinct (map fst (map (\<lambda>x. (key x, entry x)) xs))" by (simp add: o_def)
    then have "map_of (bt_collect (map (\<lambda>x. (key x, entry x)) xs)) = map_of (map (\<lambda>x. (key x, entry x)) xs)"
      by (subst bt_collect_get) (auto intro!: map_of_inject_set [THEN iffD2] simp: rev_map [symmetric])
    with all show ?thesis by (intro bt.entries_extensional) simp_all
  qed
  show ?thesis
    using unique inserts_from [OF _ bt_inv_Nil, of xs] inserts_ok [OF bt_inv_Nil, of xs] by fastforce
qed

lemma inserts_get:
  assumes "try_fold step [] xs = Inr m"
  shows "map_of m k = Some v \<longleftrightarrow> (\<exists>x\<in>set xs. key x = k \<and> entry x = v)"
proof -
  note all = inserts_from [OF assms bt_inv_Nil]
  then have "distinct (map fst (map (\<lambda>x. (key x, entry x)) xs))" by (simp add: o_def)
  with all show ?thesis by (auto simp: map_of_eq_Some_iff)
qed

end

section \<open>Keyed totals\<close>

text \<open>
  \<open>let total = totals.entry(k).or_insert(ZERO); *total = total.checked_add(x)?\<close>, the step of
  every per-pool accumulation.
\<close>

definition accumulate ::
  "('a \<Rightarrow> 'a \<Rightarrow> 'e + 'a) \<Rightarrow> 'a \<Rightarrow> ('k::linorder, 'a) btree_map \<Rightarrow> 'k \<times> 'a
    \<Rightarrow> 'e + ('k, 'a) btree_map" where
  "accumulate add zero m kx =
     bindE (add (case bt_get m (fst kx) of None \<Rightarrow> zero | Some t \<Rightarrow> t) (snd kx))
       (\<lambda>t. Inr (bt_insert (fst kx) t m))"

text \<open>The sum of the values filed under one key, the specification of a total.\<close>

definition key_total :: "('a \<Rightarrow> nat) \<Rightarrow> ('k \<times> 'a) list \<Rightarrow> 'k \<Rightarrow> nat" where
  "key_total val kxs k = sum_list (map (\<lambda>kx. if fst kx = k then val (snd kx) else 0) kxs)"

lemma key_total_simps [simp]:
  "key_total val [] k = 0"
  "key_total val (kx # kxs) k = (if fst kx = k then val (snd kx) else 0) + key_total val kxs k"
  "key_total val (xs @ ys) k = key_total val xs k + key_total val ys k"
  by (simp_all add: key_total_def)

lemma key_total_absent: "k \<notin> fst ` set kxs \<Longrightarrow> key_total val kxs k = 0"
  by (induction kxs) auto

locale checked_totals = checked_sum val bound valid add
  for val :: "'a \<Rightarrow> nat" and bound and valid and add :: "'a \<Rightarrow> 'a \<Rightarrow> 'e + 'a" +
  fixes zero :: 'a
  assumes valid_zero: "valid zero"
    and val_zero: "val zero = 0"
begin

definition held :: "('k::linorder, 'a) btree_map \<Rightarrow> 'k \<Rightarrow> nat" where
  "held m k = (case map_of m k of None \<Rightarrow> 0 | Some t \<Rightarrow> val t)"

definition good :: "('k::linorder, 'a) btree_map \<Rightarrow> bool" where
  "good m \<longleftrightarrow> bt_inv m \<and> (\<forall>k t. map_of m k = Some t \<longrightarrow> valid t)"

lemma accumulate_Inr:
  assumes "accumulate add zero m kx = Inr m'" and "good m" and "valid (snd kx)"
  shows "good m'"
    and "dom (map_of m') = Set.insert (fst kx) (dom (map_of m))"
    and "held m' k = held m k + (if fst kx = k then val (snd kx) else 0)"
    and "held m (fst kx) + val (snd kx) \<le> bound"
proof -
  let ?old = "case map_of m (fst kx) of None \<Rightarrow> zero | Some t \<Rightarrow> t"
  obtain t where t: "add ?old (snd kx) = Inr t" and m': "m' = bt_insert (fst kx) t m"
    using assms(1) by (auto simp: accumulate_def result_simps)
  have old: "valid ?old" "val ?old = held m (fst kx)"
    using assms(2) valid_zero val_zero by (auto simp: good_def held_def split: option.splits)
  note sum = add_Inr [OF t old(1) assms(3)]
  show "good m'" using assms(2) sum by (auto simp: m' good_def)
  show "dom (map_of m') = Set.insert (fst kx) (dom (map_of m))"
    using assms(2) by (simp add: m' good_def)
  show "held m' k = held m k + (if fst kx = k then val (snd kx) else 0)"
    using assms(2) sum(2) old(2) by (auto simp: m' good_def held_def)
  show "held m (fst kx) + val (snd kx) \<le> bound" using sum(3) old(2) by simp
qed

lemma totals_from:
  assumes "try_fold (accumulate add zero) m kxs = Inr m'" and "good m"
    and "\<forall>kx\<in>set kxs. valid (snd kx)"
  shows "good m' \<and> dom (map_of m') = fst ` set kxs \<union> dom (map_of m)
    \<and> (\<forall>k. held m' k = held m k + key_total val kxs k)"
  using assms
proof (induction kxs arbitrary: m)
  case Nil
  then show ?case by simp
next
  case (Cons kx kxs)
  then obtain n where n: "accumulate add zero m kx = Inr n"
    and rest: "try_fold (accumulate add zero) n kxs = Inr m'"
    by (auto simp: result_simps)
  from Cons.prems have "valid (snd kx)" by simp
  note step = accumulate_Inr [OF n Cons.prems(2) this]
  from Cons.IH [OF rest step(1)] Cons.prems(3) step(2,3) show ?case by auto
qed

lemma totals:
  assumes "try_fold (accumulate add zero) [] kxs = Inr m" and "\<forall>kx\<in>set kxs. valid (snd kx)"
  shows "bt_inv m"
    and "dom (map_of m) = fst ` set kxs"
    and "map_of m k = Some t \<Longrightarrow> valid t \<and> val t = key_total val kxs k"
proof -
  have "good []" by (simp add: good_def)
  note all = totals_from [OF assms(1) this assms(2)]
  show "bt_inv m" using all by (simp add: good_def)
  show "dom (map_of m) = fst ` set kxs" using all by simp
  show "valid t \<and> val t = key_total val kxs k" if "map_of m k = Some t"
  proof -
    have "held m k = key_total val kxs k" using all by (simp add: held_def [of "[]"])
    with that all show ?thesis by (simp add: held_def good_def)
  qed
qed

lemma totals_fit:
  assumes "good m" and "\<forall>kx\<in>set kxs. valid (snd kx)"
    and "\<forall>k. held m k + key_total val kxs k \<le> bound"
  shows "\<exists>m'. try_fold (accumulate add zero) m kxs = Inr m'"
  using assms
proof (induction kxs arbitrary: m)
  case Nil
  then show ?case by simp
next
  case (Cons kx kxs)
  let ?old = "case map_of m (fst kx) of None \<Rightarrow> zero | Some t \<Rightarrow> t"
  have v: "valid (snd kx)" using Cons.prems(2) by simp
  have old: "valid ?old" "val ?old = held m (fst kx)"
    using Cons.prems(1) valid_zero val_zero by (auto simp: good_def held_def split: option.splits)
  have "held m (fst kx) + val (snd kx) \<le> bound"
    using Cons.prems(3) [rule_format, of "fst kx"] by simp
  then obtain t where "add ?old (snd kx) = Inr t" using add_fits [OF old(1) v] old(2) by auto
  then obtain n where n: "accumulate add zero m kx = Inr n" by (simp add: accumulate_def)
  note step = accumulate_Inr [OF n Cons.prems(1) v]
  have "\<forall>k. held n k + key_total val kxs k \<le> bound"
    using Cons.prems(3) by (auto simp: step(3) add.assoc)
  with Cons.IH [OF step(1)] Cons.prems(2) n show ?case by auto
qed

end

end
