(* ===== verification/Identifier.thy ===== *)
theory Identifier
  imports
    Ordered_Map
    "HOL-Library.List_Lexorder"
    "HOL-Library.Product_Lexorder"
    "HOL-Library.Option_ord"
begin

text \<open>
  The 256-bit identifiers of \<open>crates/domain/src/identifier.rs\<close>: one representation with a
  phantom tag per identifier type, the derived byte-lexicographic order, and the lowercase
  hexadecimal codec the macro generates for each of them.
\<close>

section \<open>Representation\<close>

datatype IdentifierError = InvalidLength | InvalidEncoding

text \<open>
  \<open>[u8; 32]\<close> is a list of octets; the fixed width is the invariant \<open>wf_id\<close>. The type
  parameter is the name given to the \<open>identifier!\<close> macro, so identifiers of different
  families cannot be confused, as in the source.
\<close>

datatype 'k id32 = Id32 (id_bytes: "8 word list")

definition from_bytes :: "8 word list \<Rightarrow> 'k id32" where
  "from_bytes bs = Id32 bs"

definition wf_id :: "'k id32 \<Rightarrow> bool" where
  "wf_id x \<longleftrightarrow> length (id_bytes x) = 32"

datatype OrderId_tag = OrderId_tag
datatype ListingOptionId_tag = ListingOptionId_tag
datatype AgreementLineId_tag = AgreementLineId_tag
datatype FulfillmentGroupId_tag = FulfillmentGroupId_tag
datatype TermsDigest_tag = TermsDigest_tag
datatype ThreadId_tag = ThreadId_tag
datatype WorkspaceId_tag = WorkspaceId_tag
datatype ExecutorId_tag = ExecutorId_tag
datatype PoolId_tag = PoolId_tag
datatype OperationId_tag = OperationId_tag
datatype TransactionId_tag = TransactionId_tag
datatype MessageId_tag = MessageId_tag
datatype RumorEventId_tag = RumorEventId_tag
datatype EnvelopeEventId_tag = EnvelopeEventId_tag
datatype GrantId_tag = GrantId_tag
datatype RecordId_tag = RecordId_tag
datatype SourceId_tag = SourceId_tag
datatype CommandDigest_tag = CommandDigest_tag
datatype RouteDigest_tag = RouteDigest_tag
datatype CheckpointDigest_tag = CheckpointDigest_tag
datatype ApprovalIntentDigest_tag = ApprovalIntentDigest_tag
datatype SigningAttemptId_tag = SigningAttemptId_tag

type_synonym OrderId = "OrderId_tag id32"
type_synonym ListingOptionId = "ListingOptionId_tag id32"
type_synonym AgreementLineId = "AgreementLineId_tag id32"
type_synonym FulfillmentGroupId = "FulfillmentGroupId_tag id32"
type_synonym TermsDigest = "TermsDigest_tag id32"
type_synonym ThreadId = "ThreadId_tag id32"
type_synonym WorkspaceId = "WorkspaceId_tag id32"
type_synonym ExecutorId = "ExecutorId_tag id32"
type_synonym PoolId = "PoolId_tag id32"
type_synonym OperationId = "OperationId_tag id32"
type_synonym TransactionId = "TransactionId_tag id32"
type_synonym MessageId = "MessageId_tag id32"
type_synonym RumorEventId = "RumorEventId_tag id32"
type_synonym EnvelopeEventId = "EnvelopeEventId_tag id32"
type_synonym GrantId = "GrantId_tag id32"
type_synonym RecordId = "RecordId_tag id32"
type_synonym SourceId = "SourceId_tag id32"
type_synonym CommandDigest = "CommandDigest_tag id32"
type_synonym RouteDigest = "RouteDigest_tag id32"
type_synonym CheckpointDigest = "CheckpointDigest_tag id32"
type_synonym ApprovalIntentDigest = "ApprovalIntentDigest_tag id32"
type_synonym SigningAttemptId = "SigningAttemptId_tag id32"

text \<open>The derived \<open>PartialOrd\<close> and \<open>Ord\<close>: lexicographic on the bytes.\<close>

instantiation id32 :: (type) linorder
begin

definition less_eq_id32 :: "'a id32 \<Rightarrow> 'a id32 \<Rightarrow> bool" where
  "less_eq_id32 x y \<longleftrightarrow> id_bytes x \<le> id_bytes y"

definition less_id32 :: "'a id32 \<Rightarrow> 'a id32 \<Rightarrow> bool" where
  "less_id32 x y \<longleftrightarrow> id_bytes x < id_bytes y"

instance
proof
  fix x y z :: "'a id32"
  show "x < y \<longleftrightarrow> x \<le> y \<and> \<not> y \<le> x" by (auto simp: less_eq_id32_def less_id32_def)
  show "x \<le> x" by (simp add: less_eq_id32_def)
  show "x \<le> y \<Longrightarrow> y \<le> z \<Longrightarrow> x \<le> z" by (auto simp: less_eq_id32_def)
  show "x \<le> y \<Longrightarrow> y \<le> x \<Longrightarrow> x = y" by (auto simp: less_eq_id32_def id32.expand)
  show "x \<le> y \<or> y \<le> x" by (auto simp: less_eq_id32_def)
qed

end

section \<open>The hexadecimal codec\<close>

definition nibble :: "char \<Rightarrow> IdentifierError + 8 word" where
  "nibble byte =
     (if 48 \<le> byte_of byte \<and> byte_of byte \<le> 57 then Inr (of_nat (byte_of byte - 48))
      else if 97 \<le> byte_of byte \<and> byte_of byte \<le> 102 then Inr (of_nat (byte_of byte - 97 + 10))
      else Inl InvalidEncoding)"

text \<open>The loop over the complete pairs; a trailing single byte is the unused remainder.\<close>

fun parse_pairs :: "string \<Rightarrow> IdentifierError + 8 word list" where
  "parse_pairs (high # low # rest) =
     bindE (nibble high) (\<lambda>h. bindE (nibble low) (\<lambda>l.
       map_ok (\<lambda>bs. or (push_bit 4 h) l # bs) (parse_pairs rest)))"
| "parse_pairs _ = Inr []"

definition parse_bytes :: "string \<Rightarrow> IdentifierError + 8 word list" where
  "parse_bytes input = (if length input \<noteq> 64 then Inl InvalidLength else parse_pairs input)"

definition id_from_str :: "string \<Rightarrow> IdentifierError + 'k id32" where
  "id_from_str input = map_ok Id32 (parse_bytes input)"

definition hex_digit :: "8 word \<Rightarrow> char" where
  "hex_digit n = (if n < 10 then char_of (48 + unat n) else char_of (87 + unat n))"

text \<open>\<open>write!(f, "{byte:02x}")\<close> for every byte.\<close>

definition hex_byte :: "8 word \<Rightarrow> string" where
  "hex_byte b = [hex_digit (drop_bit 4 b), hex_digit (and b 15)]"

definition id_to_string :: "'k id32 \<Rightarrow> string" where
  "id_to_string x = concat (map hex_byte (id_bytes x))"

section \<open>The codec is canonical\<close>

lemma byte_split: "or (push_bit 4 (drop_bit 4 b)) (and b 15) = (b :: 8 word)"
proof -
  have "and b 15 = take_bit 4 b" by (simp add: take_bit_eq_mask mask_eq_exp_minus_1)
  moreover have "or (push_bit 4 (drop_bit 4 b)) (take_bit 4 b) = b"
    by (rule bit_eqI) (auto simp: bit_simps)
  ultimately show ?thesis by simp
qed

lemma byte_join:
  assumes "h < (16 :: 8 word)" and "l < 16"
  shows "drop_bit 4 (or (push_bit 4 h) l) = h" and "and (or (push_bit 4 h) l) 15 = l"
proof -
  have *: "take_bit 4 x = x" if "x < 16" for x :: "8 word"
  proof -
    have "unat x < 2 ^ 4" using that by (simp add: word_less_nat_alt)
    then show ?thesis by (simp add: word_unat_eq_iff unsigned_take_bit_eq take_bit_nat_eq_self)
  qed
  have "drop_bit 4 (or (push_bit 4 (take_bit 4 h)) (take_bit 4 l)) = take_bit 4 h"
    by (rule bit_eqI) (auto simp: bit_simps)
  then show "drop_bit 4 (or (push_bit 4 h) l) = h" using assms by (simp add: *)
  have "take_bit 4 (or (push_bit 4 h) (take_bit 4 l)) = take_bit 4 l"
    by (rule bit_eqI) (auto simp: bit_simps)
  moreover have "and (or (push_bit 4 h) l) 15 = take_bit 4 (or (push_bit 4 h) l)"
    by (simp add: take_bit_eq_mask mask_eq_exp_minus_1)
  ultimately show "and (or (push_bit 4 h) l) 15 = l" using assms by (simp add: *)
qed

lemma nibble_Inr:
  assumes "nibble c = Inr n"
  shows "n < 16" and "hex_digit n = c"
proof -
  obtain m where m: "m < 16" "n = of_nat m"
    and c: "byte_of c = (if m < 10 then 48 + m else 87 + m)"
  proof (cases "byte_of c \<le> 57")
    case True
    with assms have "n = of_nat (byte_of c - 48)" and "48 \<le> byte_of c"
      by (auto simp: nibble_def split: if_splits)
    with True that [of "byte_of c - 48"] show ?thesis by simp
  next
    case False
    with assms have "n = of_nat (byte_of c - 87)" and "97 \<le> byte_of c" "byte_of c \<le> 102"
      by (auto simp: nibble_def split: if_splits)
    with that [of "byte_of c - 87"] show ?thesis by simp
  qed
  have u: "unat (of_nat m :: 8 word) = m"
    using m(1) by (simp add: unat_of_nat)
  show "n < 16" using m by (simp add: word_less_nat_alt u)
  have "hex_digit n = char_of (byte_of c)"
    using m by (simp add: hex_digit_def word_less_nat_alt u c)
  then show "hex_digit n = c" by (simp add: byte_of_def)
qed

lemma nibble_hex_digit:
  assumes "n < 16"
  shows "nibble (hex_digit n) = Inr n"
proof -
  have "unat n < 16" using assms by (simp add: word_less_nat_alt)
  then show ?thesis
    by (auto simp: hex_digit_def nibble_def byte_of_def word_less_nat_alt)
qed

lemma hex_nibbles: "drop_bit 4 b < (16 :: 8 word)" "and b 15 < (16 :: 8 word)"
proof -
  have "unat b < 256" using unsigned_less [of b, where ?'a = nat] by simp
  then show "drop_bit 4 b < 16"
    by (simp add: word_less_nat_alt drop_bit_eq_div unat_div)
  have "and b 15 = take_bit 4 b" by (simp add: take_bit_eq_mask mask_eq_exp_minus_1)
  moreover have "unat (take_bit 4 b) < 16"
    by (simp add: take_bit_eq_mod unat_mod)
  ultimately show "and b 15 < (16 :: 8 word)" by (simp add: word_less_nat_alt)
qed

lemma parse_pairs_render: "parse_pairs (concat (map hex_byte bs)) = Inr bs"
  by (induction bs) (simp_all add: hex_byte_def nibble_hex_digit hex_nibbles byte_split)

lemma render_parse_pairs:
  "parse_pairs s = Inr bs \<Longrightarrow> even (length s) \<Longrightarrow>
    concat (map hex_byte bs) = s \<and> length s = 2 * length bs"
proof (induction s arbitrary: bs rule: parse_pairs.induct)
  case (1 high low rest)
  then obtain h l cs where "nibble high = Inr h" and "nibble low = Inr l"
    and cs: "parse_pairs rest = Inr cs" and bs: "bs = or (push_bit 4 h) l # cs"
    by (auto simp: result_simps)
  moreover from this have "hex_byte (or (push_bit 4 h) l) = [high, low]"
    unfolding hex_byte_def by (simp only: byte_join nibble_Inr)
  ultimately show ?case using "1.IH" "1.prems"(2) by simp
qed auto

lemma length_render: "length (concat (map hex_byte bs)) = 2 * length bs"
  by (induction bs) (simp_all add: hex_byte_def)

lemma id_from_str_to_string: "wf_id x \<Longrightarrow> id_from_str (id_to_string x) = Inr x"
  by (cases x) (simp add: wf_id_def id_from_str_def id_to_string_def parse_bytes_def
      parse_pairs_render length_render)

lemma id_from_str_sound:
  assumes "id_from_str s = Inr x"
  shows "wf_id x \<and> id_to_string x = s"
proof -
  from assms have "length s = 64" and "parse_pairs s = Inr (id_bytes x)"
    by (auto simp: id_from_str_def parse_bytes_def result_simps)
  with render_parse_pairs [of s "id_bytes x"] show ?thesis
    by (simp add: wf_id_def id_to_string_def)
qed

interpretation id_codec: canonical_codec wf_id id_to_string id_from_str
  by unfold_locales (simp_all add: id_from_str_to_string id_from_str_sound)

section \<open>Properties\<close>

text \<open>A string parses to an identifier exactly when it is the 64-character lowercase
  hexadecimal rendering of that 32-byte identifier, so parsing and printing are inverse and
  no second spelling of an identifier is accepted.\<close>

theorem identifier_codec_canonical:
  "id_from_str s = Inr x \<longleftrightarrow> wf_id x \<and> id_to_string x = s"
  by (rule id_codec.parse_iff)

end
