(* ===== verification/Currency.thy ===== *)
theory Currency
  imports Identifier
begin

text \<open>
  The fixed currency registry of \<open>crates/domain/src/currency.rs\<close> with its data file
  \<open>crates/domain/data/currency_registry_v1.csv\<close>: the compile-time scan that guards the data,
  the registry iterator, and admission by code.
\<close>

section \<open>Definitions\<close>

record Currency =
  cur_code :: string
  cur_exponent :: u8

datatype CurrencyError = InvalidFormat | UnsupportedCode

definition newline :: char where
  "newline = CHR 0x0A"

definition registry_lines :: "string list" where
  "registry_lines =
  [''# SPDX-License-Identifier: Apache-2.0'',
   ''# Copyright 2023-2026 rust_iso4217 contributors'',
   ''# Derived from rust-iso/rust_iso4217 ce6b74546b3645ce11866acc93117128d2f7b1e0.'',
   ''# Modified by Radroots: retain current currency/fund code and exponent pairs'',
   ''# in range 0-4; sort by code; omit all names, countries, other data and code.'',
   ''# See currency_registry_v1.license and currency_registry_v1.notice.'',
   ''AED,2'', ''AFN,2'', ''ALL,2'', ''AMD,2'', ''AOA,2'', ''ARS,2'', ''AUD,2'', ''AWG,2'',
   ''AZN,2'', ''BAM,2'', ''BBD,2'', ''BDT,2'', ''BHD,3'', ''BIF,0'', ''BMD,2'', ''BND,2'',
   ''BOB,2'', ''BOV,2'', ''BRL,2'', ''BSD,2'', ''BTN,2'', ''BWP,2'', ''BYN,2'', ''BZD,2'',
   ''CAD,2'', ''CDF,2'', ''CHE,2'', ''CHF,2'', ''CHW,2'', ''CLF,4'', ''CLP,0'', ''CNY,2'',
   ''COP,2'', ''COU,2'', ''CRC,2'', ''CUP,2'', ''CVE,2'', ''CZK,2'', ''DJF,0'', ''DKK,2'',
   ''DOP,2'', ''DZD,2'', ''EGP,2'', ''ERN,2'', ''ETB,2'', ''EUR,2'', ''FJD,2'', ''FKP,2'',
   ''GBP,2'', ''GEL,2'', ''GHS,2'', ''GIP,2'', ''GMD,2'', ''GNF,0'', ''GTQ,2'', ''GYD,2'',
   ''HKD,2'', ''HNL,2'', ''HTG,2'', ''HUF,2'', ''IDR,2'', ''ILS,2'', ''INR,2'', ''IQD,3'',
   ''IRR,2'', ''ISK,0'', ''JMD,2'', ''JOD,3'', ''JPY,0'', ''KES,2'', ''KGS,2'', ''KHR,2'',
   ''KMF,0'', ''KPW,2'', ''KRW,0'', ''KWD,3'', ''KYD,2'', ''KZT,2'', ''LAK,2'', ''LBP,2'',
   ''LKR,2'', ''LRD,2'', ''LSL,2'', ''LYD,3'', ''MAD,2'', ''MDL,2'', ''MGA,2'', ''MKD,2'',
   ''MMK,2'', ''MNT,2'', ''MOP,2'', ''MRU,2'', ''MUR,2'', ''MVR,2'', ''MWK,2'', ''MXN,2'',
   ''MXV,2'', ''MYR,2'', ''MZN,2'', ''NAD,2'', ''NGN,2'', ''NIO,2'', ''NOK,2'', ''NPR,2'',
   ''NZD,2'', ''OMR,3'', ''PAB,2'', ''PEN,2'', ''PGK,2'', ''PHP,2'', ''PKR,2'', ''PLN,2'',
   ''PYG,0'', ''QAR,2'', ''RON,2'', ''RSD,2'', ''RUB,2'', ''RWF,0'', ''SAR,2'', ''SBD,2'',
   ''SCR,2'', ''SDG,2'', ''SEK,2'', ''SGD,2'', ''SHP,2'', ''SLE,2'', ''SOS,2'', ''SRD,2'',
   ''SSP,2'', ''STN,2'', ''SVC,2'', ''SYP,2'', ''SZL,2'', ''THB,2'', ''TJS,2'', ''TMT,2'',
   ''TND,3'', ''TOP,2'', ''TRY,2'', ''TTD,2'', ''TWD,2'', ''TZS,2'', ''UAH,2'', ''UGX,0'',
   ''USD,2'', ''USN,2'', ''UYI,0'', ''UYU,2'', ''UYW,4'', ''UZS,2'', ''VED,2'', ''VES,2'',
   ''VND,0'', ''VUV,0'', ''WST,2'', ''XAD,2'', ''XAF,0'', ''XCD,2'', ''XCG,2'', ''XOF,0'',
   ''XPF,0'', ''YER,2'', ''ZAR,2'', ''ZMW,2'', ''ZWG,2'']"

text \<open>The included file: every line ends with a newline.\<close>

definition DATA :: string where
  "DATA = concat (map (\<lambda>l. l @ [newline]) registry_lines)"

text \<open>The order on three-byte codes that the scan spells out.\<close>

definition code_less :: "string \<Rightarrow> string \<Rightarrow> bool" where
  "code_less p c \<longleftrightarrow>
     byte_of (p ! 0) < byte_of (c ! 0)
     \<or> (c ! 0 = p ! 0 \<and> byte_of (p ! 1) < byte_of (c ! 1))
     \<or> (c ! 0 = p ! 0 \<and> c ! 1 = p ! 1 \<and> byte_of (p ! 2) < byte_of (c ! 2))"

text \<open>
  The constant evaluation of \<open>SUPPORTED_CURRENCY_COUNT\<close> over the remaining bytes; a failed
  assertion, which stops the build, is \<open>None\<close>.
\<close>

function check_registry :: "string \<Rightarrow> nat \<Rightarrow> string \<Rightarrow> nat option" where
  "check_registry [] count previous = (if count = 165 then Some count else None)"
| "check_registry (b # bs) count previous =
     (if b = CHR ''#'' then
        case dropWhile (\<lambda>c. c \<noteq> newline) bs of
          [] \<Rightarrow> None
        | _ # rest \<Rightarrow> check_registry rest count previous
      else
        case bs of
          b1 # b2 # b3 # b4 # b5 # rest \<Rightarrow>
            if is_ascii_uppercase b \<and> is_ascii_uppercase b1 \<and> is_ascii_uppercase b2
              \<and> b3 = CHR '','' \<and> 48 \<le> byte_of b4 \<and> byte_of b4 \<le> 52 \<and> b5 = newline
              \<and> (count = 0 \<or> code_less previous [b, b1, b2])
            then check_registry rest (count + 1) [b, b1, b2] else None
        | _ \<Rightarrow> None)"
  by pat_completeness auto

text \<open>\<open>str::lines\<close>: a line feed ends a line and takes a preceding carriage return with it.\<close>

definition strip_cr :: "string \<Rightarrow> string" where
  "strip_cr l = (if ends_with (CHR 0x0D) l then butlast l else l)"

function str_lines :: "string \<Rightarrow> string list" where
  "str_lines s =
     (if s = [] then []
      else let l = takeWhile (\<lambda>c. c \<noteq> newline) s; rest = dropWhile (\<lambda>c. c \<noteq> newline) s in
        if rest = [] then [l] else strip_cr l # str_lines (tl rest))"
  by pat_completeness auto

lemma length_dropWhile_less: "dropWhile P xs = y # ys \<Longrightarrow> length ys < length xs"
  by (metis Suc_le_eq length_Cons length_dropWhile_le)

lemma length_tl_dropWhile: "xs \<noteq> [] \<Longrightarrow> length (tl (dropWhile P xs)) < length xs"
  using length_dropWhile_le [of P xs] by (cases xs) auto

termination check_registry
  by (relation "measure (\<lambda>(s, _, _). length s)") (auto dest!: length_dropWhile_less)

termination str_lines
  by (relation "measure length") (auto simp only: in_measure wf_measure intro: length_tl_dropWhile)

declare str_lines.simps [simp del]

definition currency_row :: "string \<Rightarrow> Currency" where
  "currency_row line = \<lparr>cur_code = take 3 line, cur_exponent = byte_of (line ! 4) - 48\<rparr>"

definition registry_rows :: "string \<Rightarrow> Currency list" where
  "registry_rows data = map currency_row (filter (\<lambda>l. \<not> starts_with (CHR ''#'') l) (str_lines data))"

definition Currency_supported :: "Currency list" where
  "Currency_supported = registry_rows DATA"

definition Currency_from_code :: "string \<Rightarrow> CurrencyError + Currency" where
  "Currency_from_code code =
     (if length code \<noteq> 3 \<or> \<not> (\<forall>b\<in>set code. is_ascii_uppercase b) then Inl InvalidFormat
      else ok_or UnsupportedCode (find (\<lambda>c. cur_code c = code) Currency_supported))"

text \<open>The values of the type are exactly the rows of the registry.\<close>

definition wf_Currency :: "Currency \<Rightarrow> bool" where
  "wf_Currency c \<longleftrightarrow> c \<in> set Currency_supported"

section \<open>What the scan guarantees\<close>

definition wf_row :: "Currency \<Rightarrow> bool" where
  "wf_row c \<longleftrightarrow> length (cur_code c) = 3 \<and> (\<forall>b\<in>set (cur_code c). is_ascii_uppercase b)
     \<and> cur_exponent c \<le> 4"

lemma code_less_trans: "code_less a b \<Longrightarrow> code_less b c \<Longrightarrow> code_less a c"
  unfolding code_less_def by auto

lemma code_less_irrefl: "\<not> code_less a a"
  by (simp add: code_less_def)

lemma str_lines_comment:
  assumes "dropWhile (\<lambda>c. c \<noteq> newline) bs = x # rest"
  shows "registry_rows (CHR ''#'' # bs) = registry_rows rest"
proof -
  have "CHR ''#'' \<noteq> newline" by (simp add: newline_def)
  then have "str_lines (CHR ''#'' # bs) =
      strip_cr (CHR ''#'' # takeWhile (\<lambda>c. c \<noteq> newline) bs) # str_lines rest"
    using assms by (subst str_lines.simps) simp
  moreover have "starts_with (CHR ''#'') (strip_cr (CHR ''#'' # l))" for l
    by (auto simp: strip_cr_def starts_with_def ends_with_def)
  ultimately show ?thesis by (simp add: registry_rows_def)
qed

lemma str_lines_row:
  assumes "is_ascii_uppercase b0" "is_ascii_uppercase b1" "is_ascii_uppercase b2"
    and "b3 = CHR '',''" and "48 \<le> byte_of b4" "byte_of b4 \<le> 52" and "b5 = newline"
  shows "registry_rows (b0 # b1 # b2 # b3 # b4 # b5 # rest) =
    \<lparr>cur_code = [b0, b1, b2], cur_exponent = byte_of b4 - 48\<rparr> # registry_rows rest"
proof -
  have ne: "b0 \<noteq> newline" "b1 \<noteq> newline" "b2 \<noteq> newline" "b3 \<noteq> newline" "b4 \<noteq> newline"
    "b4 \<noteq> CHR 0x0D" "b0 \<noteq> CHR ''#''"
    using assms by (auto simp: newline_def is_ascii_uppercase_def byte_of_def)
  then have "str_lines (b0 # b1 # b2 # b3 # b4 # b5 # rest) = [b0, b1, b2, b3, b4] # str_lines rest"
    using assms(7) by (subst str_lines.simps) (simp add: strip_cr_def ends_with_def)
  then show ?thesis using ne
    by (simp add: registry_rows_def starts_with_def currency_row_def)
qed

lemma check_registry_Some:
  "check_registry s count previous = Some n \<Longrightarrow>
    n = 165 \<and> n = count + length (registry_rows s)
    \<and> (\<forall>c\<in>set (registry_rows s). wf_row c \<and> (0 < count \<longrightarrow> code_less previous (cur_code c)))
    \<and> sorted_wrt code_less (map cur_code (registry_rows s))"
proof (induction s count previous rule: check_registry.induct)
  case (1 count previous)
  then show ?case by (auto simp: registry_rows_def str_lines.simps split: if_splits)
next
  case (2 b bs count previous)
  show ?case
  proof (cases "b = CHR ''#''")
    case True
    with "2.prems" obtain x rest where rest: "dropWhile (\<lambda>c. c \<noteq> newline) bs = x # rest"
      and "check_registry rest count previous = Some n"
      by (auto split: list.splits)
    with "2.IH"(1) [OF True rest] True show ?thesis by (simp add: str_lines_comment)
  next
    case False
    with "2.prems" obtain b1 b2 b3 b4 b5 rest where bs: "bs = b1 # b2 # b3 # b4 # b5 # rest"
      and ok: "is_ascii_uppercase b" "is_ascii_uppercase b1" "is_ascii_uppercase b2"
        "b3 = CHR '',''" "48 \<le> byte_of b4" "byte_of b4 \<le> 52" "b5 = newline"
      and order: "count = 0 \<or> code_less previous [b, b1, b2]"
      and step: "check_registry rest (count + 1) [b, b1, b2] = Some n"
      by (auto split: list.splits if_splits)
    have IH: "n = 165 \<and> n = count + 1 + length (registry_rows rest)
      \<and> (\<forall>c\<in>set (registry_rows rest). wf_row c \<and> code_less [b, b1, b2] (cur_code c))
      \<and> sorted_wrt code_less (map cur_code (registry_rows rest))"
      using "2.IH"(2) [OF False bs] ok order step by auto
    have "wf_row \<lparr>cur_code = [b, b1, b2], cur_exponent = byte_of b4 - 48\<rparr>"
      using ok by (simp add: wf_row_def)
    with IH order show ?thesis
      unfolding bs str_lines_row [OF ok] by (auto intro: code_less_trans)
  qed
qed

section \<open>The registry\<close>

lemma registry_checked: "check_registry DATA 0 [] = Some 165"
  by code_simp

lemma supported_rows:
  shows "length Currency_supported = 165"
    and "\<forall>c\<in>set Currency_supported. wf_row c"
    and "sorted_wrt code_less (map cur_code Currency_supported)"
  using check_registry_Some [OF registry_checked] by (auto simp: Currency_supported_def)

lemma supported_distinct: "distinct (map cur_code Currency_supported)"
  using supported_rows(3)
  by (auto simp: distinct_conv_nth sorted_wrt_iff_nth_less)
    (metis code_less_irrefl length_map linorder_neq_iff nth_map)

lemma wf_Currency_row: "wf_Currency c \<Longrightarrow> wf_row c"
  using supported_rows(2) by (simp add: wf_Currency_def)

lemma find_by_key:
  "distinct (map f xs) \<Longrightarrow> find (\<lambda>c. f c = k) xs = Some x \<longleftrightarrow> x \<in> set xs \<and> f x = k"
  by (induction xs) (auto simp: image_iff)

lemmas find_supported = find_by_key [OF supported_distinct]

lemma Currency_from_code_iff: "Currency_from_code k = Inr x \<longleftrightarrow> wf_Currency x \<and> cur_code x = k"
  using supported_rows(2)
  by (auto simp: Currency_from_code_def result_simps find_supported wf_Currency_def wf_row_def)

interpretation currency_codec: canonical_codec wf_Currency cur_code Currency_from_code
  by unfold_locales (simp_all add: Currency_from_code_iff)

text \<open>The rows read back from the file are the lines it was written from.\<close>

lemma str_lines_unlines:
  assumes "\<forall>l\<in>set ls. newline \<notin> set l \<and> \<not> ends_with (CHR 0x0D) l"
  shows "str_lines (concat (map (\<lambda>l. l @ [newline]) ls)) = ls"
  using assms
proof (induction ls)
  case Nil
  then show ?case by (simp add: str_lines.simps)
next
  case (Cons l ls)
  then have "\<And>d. d \<in> set l \<Longrightarrow> d \<noteq> newline" by auto
  then have "takeWhile (\<lambda>c. c \<noteq> newline) (l @ newline # r) = l"
    and "dropWhile (\<lambda>c. c \<noteq> newline) (l @ newline # r) = newline # r" for r
    by simp_all
  with Cons show ?case
    by (simp add: str_lines.simps [of "l @ newline # r" for r] strip_cr_def)
qed

lemma registry_lines_plain:
  "\<forall>l\<in>set registry_lines. newline \<notin> set l \<and> \<not> ends_with (CHR 0x0D) l"
  by code_simp

lemma supported_eq:
  "Currency_supported = map currency_row (filter (\<lambda>l. \<not> starts_with (CHR ''#'') l) registry_lines)"
  using str_lines_unlines [OF registry_lines_plain]
  by (simp add: Currency_supported_def registry_rows_def DATA_def)

lemma wf_Currency_row_of:
  "l \<in> set registry_lines \<Longrightarrow> \<not> starts_with (CHR ''#'') l \<Longrightarrow> wf_Currency (currency_row l)"
  by (simp add: wf_Currency_def supported_eq)

section \<open>Properties\<close>

text \<open>C40: the compiled registry passes its compile-time scan; it then has 165 currencies in
  strictly increasing code order, every one with a three-letter uppercase code and an exponent
  of at most 4, and a code is admitted exactly when it is one of theirs.\<close>

theorem currency_registry_sound:
  "check_registry DATA 0 [] = Some 165
    \<and> length Currency_supported = 165
    \<and> sorted_wrt code_less (map cur_code Currency_supported)
    \<and> list_all wf_row Currency_supported
    \<and> (Currency_from_code k = Inr c \<longleftrightarrow> c \<in> set Currency_supported \<and> cur_code c = k)"
  using registry_checked supported_rows Currency_from_code_iff [of k c]
  by (simp add: list_all_iff wf_Currency_def)

end
