(* ===== verification/Money.thy ===== *)
theory Money
  imports Currency
begin

text \<open>
  Exact money of \<open>crates/domain/src/money.rs\<close>: bounded minor amounts with their canonical
  integer strings, wire admission against the registry exponent, and addition and
  subtraction within one currency.
\<close>

section \<open>Definitions\<close>

datatype MinorAmount = MinorAmount (minor_get: u64)

record Money =
  money_currency :: Currency
  money_minor :: MinorAmount

datatype MoneyError =
    InvalidMinorFormat
  | NonCanonicalMinor
  | MinorOutOfRange
  | InvalidExponent
  | ExponentMismatch
  | CurrencyMismatch
  | NegativeResult
  | CurrencyFailure CurrencyError

definition MAX_MINOR :: nat where
  "MAX_MINOR = 999999999999999"

definition MinorAmount_ZERO :: MinorAmount where
  "MinorAmount_ZERO = MinorAmount 0"

definition MinorAmount_new :: "u64 \<Rightarrow> MoneyError + MinorAmount" where
  "MinorAmount_new v = (if MAX_MINOR < v then Inl MinorOutOfRange else Inr (MinorAmount v))"

definition push_minor_digit :: "u64 \<Rightarrow> char \<Rightarrow> MoneyError + u64" where
  "push_minor_digit n byte =
     ok_or MinorOutOfRange
       (Option.bind (checked_mul_u 64 n 10) (\<lambda>m. checked_add_u 64 m (digit_value byte)))"

definition MinorAmount_from_str :: "string \<Rightarrow> MoneyError + MinorAmount" where
  "MinorAmount_from_str v =
     (if v = [] then Inl InvalidMinorFormat
      else if 15 < length v then Inl MinorOutOfRange
      else if \<not> (\<forall>b\<in>set v. is_ascii_digit b) then Inl InvalidMinorFormat
      else if 1 < length v \<and> starts_with (CHR ''0'') v then Inl NonCanonicalMinor
      else bindE (try_fold push_minor_digit 0 v) MinorAmount_new)"

definition MinorAmount_to_string :: "MinorAmount \<Rightarrow> string" where
  "MinorAmount_to_string m = show_nat (minor_get m)"

definition Money_new :: "Currency \<Rightarrow> MinorAmount \<Rightarrow> Money" where
  "Money_new currency minor = \<lparr>money_currency = currency, money_minor = minor\<rparr>"

definition Money_exponent :: "Money \<Rightarrow> u8" where
  "Money_exponent m = cur_exponent (money_currency m)"

definition Money_from_wire :: "Currency \<Rightarrow> MinorAmount \<Rightarrow> u8 \<Rightarrow> MoneyError + Money" where
  "Money_from_wire currency minor exponent =
     (if 4 < exponent then Inl InvalidExponent
      else if exponent \<noteq> cur_exponent currency then Inl ExponentMismatch
      else Inr (Money_new currency minor))"

definition Money_from_parts :: "string \<Rightarrow> string \<Rightarrow> u8 \<Rightarrow> MoneyError + Money" where
  "Money_from_parts currency minor exponent =
     bindE (map_err CurrencyFailure (Currency_from_code currency)) (\<lambda>currency.
     bindE (MinorAmount_from_str minor) (\<lambda>minor.
       Money_from_wire currency minor exponent))"

definition Money_with_result :: "Money \<Rightarrow> i128 \<Rightarrow> MoneyError + Money" where
  "Money_with_result m v =
     bindE (ok_or MinorOutOfRange (u64_try_from v)) (\<lambda>v.
     bindE (MinorAmount_new v) (\<lambda>minor. Inr (Money_new (money_currency m) minor)))"

definition Money_checked_add :: "Money \<Rightarrow> Money \<Rightarrow> MoneyError + Money" where
  "Money_checked_add a b =
     (if money_currency a \<noteq> money_currency b then Inl CurrencyMismatch
      else bindE (ok_or MinorOutOfRange
                    (checked_add_i 128 (int (minor_get (money_minor a))) (int (minor_get (money_minor b)))))
        (Money_with_result a))"

definition Money_checked_sub :: "Money \<Rightarrow> Money \<Rightarrow> MoneyError + Money" where
  "Money_checked_sub a b =
     (if money_currency a \<noteq> money_currency b then Inl CurrencyMismatch
      else bindE (ok_or NegativeResult
                    (case checked_sub_i 128 (int (minor_get (money_minor a)))
                            (int (minor_get (money_minor b))) of
                       None \<Rightarrow> None
                     | Some result \<Rightarrow> if 0 \<le> result then Some result else None))
        (Money_with_result a))"

section \<open>Invariants\<close>

definition wf_MinorAmount :: "MinorAmount \<Rightarrow> bool" where
  "wf_MinorAmount m \<longleftrightarrow> minor_get m \<le> MAX_MINOR"

definition wf_Money :: "Money \<Rightarrow> bool" where
  "wf_Money m \<longleftrightarrow> wf_Currency (money_currency m) \<and> wf_MinorAmount (money_minor m)"

abbreviation money_value :: "Money \<Rightarrow> nat" where
  "money_value m \<equiv> minor_get (money_minor m)"

section \<open>Minor amounts\<close>

lemma MinorAmount_new_eq_Inr [result_simps]:
  "MinorAmount_new v = Inr m \<longleftrightarrow> v \<le> MAX_MINOR \<and> m = MinorAmount v"
  by (auto simp: MinorAmount_new_def)

lemma push_minor_digits:
  assumes "\<forall>d\<in>set s. is_ascii_digit d" and "(c + 1) * 10 ^ length s \<le> 10 ^ 15"
  shows "try_fold push_minor_digit c s = Inr (c * 10 ^ length s + digits_value s)"
  using assms
proof (induction s arbitrary: c)
  case Nil
  then show ?case by simp
next
  case (Cons d s)
  then have d: "digit_value d < 10" by simp
  let ?v = "10 * c + digit_value d"
  have "?v + 1 \<le> 10 * (c + 1)" using d by simp
  then have "(?v + 1) * 10 ^ length s \<le> 10 * (c + 1) * 10 ^ length s" by (rule mult_le_mono1)
  also have "\<dots> = (c + 1) * 10 ^ length (d # s)" by (simp add: algebra_simps)
  finally have fit: "(?v + 1) * 10 ^ length s \<le> 10 ^ 15" using Cons.prems(2) by simp
  have "(?v + 1) * 1 \<le> (?v + 1) * 10 ^ length s" by (intro mult_le_mono) auto
  with fit have "?v < 2 ^ 64" by simp
  then have "push_minor_digit c d = Inr ?v"
    by (simp add: push_minor_digit_def checked_defs fits_u_def mult.commute)
  with Cons.IH [OF _ fit] Cons.prems(1) show ?case
    by (simp add: digits_value_Cons algebra_simps)
qed

lemma MinorAmount_from_str_iff:
  "MinorAmount_from_str v = Inr m \<longleftrightarrow>
    canonical_digits v \<and> length v \<le> 15 \<and> m = MinorAmount (digits_value v)"
proof (cases "canonical_digits v \<and> length v \<le> 15")
  case True
  then have digits: "\<forall>d\<in>set v. is_ascii_digit d" by (simp add: canonical_digits_def)
  have "(10 :: nat) ^ length v \<le> 10 ^ 15" using True by (intro power_increasing) auto
  with push_minor_digits [OF digits, of 0] digits_value_less [OF digits]
  have "try_fold push_minor_digit 0 v = Inr (digits_value v)" and "digits_value v \<le> MAX_MINOR"
    by (simp_all add: MAX_MINOR_def)
  with True show ?thesis
    by (auto simp: MinorAmount_from_str_def canonical_digits_def MinorAmount_new_def)
next
  case False
  then show ?thesis
    by (auto simp: MinorAmount_from_str_def canonical_digits_def)
qed

interpretation minor_codec: canonical_codec wf_MinorAmount MinorAmount_to_string MinorAmount_from_str
proof
  fix m assume "wf_MinorAmount m"
  then have "minor_get m < 10 ^ 15" by (simp add: wf_MinorAmount_def MAX_MINOR_def)
  then show "MinorAmount_from_str (MinorAmount_to_string m) = Inr m"
    using length_show_nat_le [of "minor_get m" 15]
    by (simp add: MinorAmount_from_str_iff MinorAmount_to_string_def)
next
  fix v m assume *: "MinorAmount_from_str v = Inr m"
  then have v: "canonical_digits v" "length v \<le> 15" "m = MinorAmount (digits_value v)"
    by (simp_all add: MinorAmount_from_str_iff)
  then have "digits_value v < 10 ^ length v"
    by (intro digits_value_less) (simp add: canonical_digits_def)
  also have "\<dots> \<le> 10 ^ 15" using v(2) by (intro power_increasing) auto
  finally show "wf_MinorAmount m \<and> MinorAmount_to_string m = v"
    using v by (simp add: wf_MinorAmount_def MAX_MINOR_def MinorAmount_to_string_def
        show_nat_digits_value)
qed

section \<open>Arithmetic\<close>

lemma with_result_spec:
  "0 \<le> v \<Longrightarrow> v < 2 ^ 64 \<Longrightarrow> Money_with_result m v =
    (if nat v \<le> MAX_MINOR then Inr (Money_new (money_currency m) (MinorAmount (nat v)))
     else Inl MinorOutOfRange)"
  by (auto simp: Money_with_result_def u64_try_from_def MinorAmount_new_def)

lemma Money_checked_add_spec:
  assumes "wf_Money a" and "wf_Money b"
  shows "Money_checked_add a b =
    (if money_currency a \<noteq> money_currency b then Inl CurrencyMismatch
     else if money_value a + money_value b \<le> MAX_MINOR
       then Inr (Money_new (money_currency a) (MinorAmount (money_value a + money_value b)))
     else Inl MinorOutOfRange)"
proof -
  let ?v = "int (money_value a) + int (money_value b)"
  have "?v < 2 ^ 64" and "0 \<le> ?v"
    using assms by (auto simp: wf_Money_def wf_MinorAmount_def MAX_MINOR_def)
  moreover from this have "checked_add_i 128 (int (money_value a)) (int (money_value b)) = Some ?v"
    by (simp add: checked_simps)
  ultimately show ?thesis
    by (simp add: Money_checked_add_def with_result_spec nat_int_add)
qed

lemma Money_checked_sub_spec:
  assumes "wf_Money a" and "wf_Money b"
  shows "Money_checked_sub a b =
    (if money_currency a \<noteq> money_currency b then Inl CurrencyMismatch
     else if money_value a < money_value b then Inl NegativeResult
     else Inr (Money_new (money_currency a) (MinorAmount (money_value a - money_value b))))"
proof -
  let ?v = "int (money_value a) - int (money_value b)"
  have bounds: "?v < 2 ^ 64" "- (2 ^ 64) < ?v" "money_value a - money_value b \<le> MAX_MINOR"
    using assms by (auto simp: wf_Money_def wf_MinorAmount_def MAX_MINOR_def)
  moreover from this have "checked_sub_i 128 (int (money_value a)) (int (money_value b)) = Some ?v"
    by (simp add: checked_simps)
  ultimately show ?thesis
    by (cases "money_value a < money_value b")
      (simp_all add: Money_checked_sub_def with_result_spec nat_diff_distrib)
qed

text \<open>Amounts of one currency form a bounded exact sum.\<close>

interpretation money_sum:
  checked_sum "\<lambda>m. minor_get (money_minor m)" MAX_MINOR
    "\<lambda>m. wf_Money m \<and> money_currency m = c" Money_checked_add
  for c
  by unfold_locales
    (auto simp: Money_checked_add_spec Money_new_def wf_Money_def wf_MinorAmount_def)

lemma Money_from_wire_eq_Inr:
  assumes "wf_Currency c"
  shows "Money_from_wire c minor e = Inr m \<longleftrightarrow> e = cur_exponent c \<and> m = Money_new c minor"
  using wf_Currency_row [OF assms] by (auto simp: Money_from_wire_def wf_row_def)

lemma Money_from_parts_iff:
  "Money_from_parts code minor e = Inr m \<longleftrightarrow>
    wf_Money m \<and> code = cur_code (money_currency m)
    \<and> minor = MinorAmount_to_string (money_minor m) \<and> e = Money_exponent m"
  (is "?l \<longleftrightarrow> ?r")
proof
  assume ?l
  then show ?r
    by (auto simp: Money_from_parts_def result_simps currency_codec.parse_iff minor_codec.parse_iff
        Money_from_wire_eq_Inr wf_Money_def Money_new_def Money_exponent_def)
next
  assume ?r
  then have "Money_from_wire (money_currency m) (money_minor m) e = Inr m"
    by (simp add: Money_from_wire_eq_Inr wf_Money_def Money_new_def Money_exponent_def)
  with \<open>?r\<close> show ?l
    by (simp add: Money_from_parts_def wf_Money_def currency_codec.parse_render
        minor_codec.parse_render)
qed

section \<open>Properties\<close>

text \<open>C34: money adds and subtracts exactly within one currency. The only failures are a
  currency mismatch, a sum above the fifteen-digit bound and a negative difference, each
  reported as such.\<close>

theorem Money_arithmetic_exact:
  assumes "wf_Money a" and "wf_Money b"
  shows "Money_checked_add a b =
      (if money_currency a \<noteq> money_currency b then Inl CurrencyMismatch
       else if MAX_MINOR < money_value a + money_value b then Inl MinorOutOfRange
       else Inr \<lparr>money_currency = money_currency a,
                  money_minor = MinorAmount (money_value a + money_value b)\<rparr>)
    \<and> Money_checked_sub a b =
      (if money_currency a \<noteq> money_currency b then Inl CurrencyMismatch
       else if money_value a < money_value b then Inl NegativeResult
       else Inr \<lparr>money_currency = money_currency a,
                  money_minor = MinorAmount (money_value a - money_value b)\<rparr>)"
  by (simp add: Money_checked_add_spec [OF assms] Money_checked_sub_spec [OF assms] Money_new_def)

definition usd :: Currency where
  "usd = currency_row ''USD,2''"

lemma wf_usd: "wf_Currency usd"
  unfolding usd_def
  by (rule wf_Currency_row_of) (simp_all add: registry_lines_def starts_with_def)

theorem Money_arithmetic_exact_witness:
  "Money_checked_add (Money_new usd (MinorAmount 250)) (Money_new usd (MinorAmount 175)) =
    Inr (Money_new usd (MinorAmount 425))"
  using Money_arithmetic_exact [of "Money_new usd (MinorAmount 250)" "Money_new usd (MinorAmount 175)"]
  by (simp add: wf_Money_def wf_MinorAmount_def Money_new_def wf_usd MAX_MINOR_def)

text \<open>The wire form of money is canonical: code, minor string and exponent are admitted
  exactly when they are those of one well-formed amount, with the exponent of the registry.\<close>

theorem Money_wire_canonical:
  "Money_from_parts code minor e = Inr m \<longleftrightarrow>
    wf_Money m \<and> code = cur_code (money_currency m)
    \<and> minor = MinorAmount_to_string (money_minor m) \<and> e = Money_exponent m"
  by (rule Money_from_parts_iff)

end
