(* ===== verification/Amount.thy ===== *)
theory Amount
  imports Interfaces
begin

text \<open>
  Bounded canonical decimals of \<open>crates/domain/src/amount.rs\<close>: the representation and its
  invariant, normalisation, exact addition and subtraction, the order, and the decimal
  string codec. The abstraction \<open>micros\<close> reads a decimal as a whole number of millionths, the
  finest unit the scale bound admits; exactness is stated against it.
\<close>

section \<open>Definitions\<close>

datatype ordering = Less | Equal | Greater

definition cmp :: "'a::linorder \<Rightarrow> 'a \<Rightarrow> ordering" where
  "cmp a b = (if a < b then Less else if a = b then Equal else Greater)"

record Decimal =
  coefficient :: u64
  scale :: u8

datatype AmountError =
    InvalidFormat
  | NonCanonical
  | CoefficientOutOfRange
  | ScaleOutOfRange
  | MustBePositive
  | NegativeResult

definition MAX_COEFFICIENT :: nat where
  "MAX_COEFFICIENT = 999999999999"

definition MAX_SCALE :: nat where
  "MAX_SCALE = 6"

definition MAX_ENCODED_LEN :: nat where
  "MAX_ENCODED_LEN = 19"

definition Decimal_ZERO :: Decimal where
  "Decimal_ZERO = \<lparr>coefficient = 0, scale = 0\<rparr>"

definition Decimal_ONE :: Decimal where
  "Decimal_ONE = \<lparr>coefficient = 1, scale = 0\<rparr>"

definition Decimal_MAX :: Decimal where
  "Decimal_MAX = \<lparr>coefficient = MAX_COEFFICIENT, scale = 0\<rparr>"

text \<open>The \<open>while\<close> loop of \<open>normalized\<close>.\<close>

fun strip_zeros :: "u64 \<Rightarrow> u8 \<Rightarrow> Decimal" where
  "strip_zeros c 0 = \<lparr>coefficient = c, scale = 0\<rparr>"
| "strip_zeros c (Suc s) =
     (if c mod 10 = 0 then strip_zeros (c div 10) s else \<lparr>coefficient = c, scale = Suc s\<rparr>)"

definition Decimal_normalized :: "u64 \<Rightarrow> u8 \<Rightarrow> Decimal" where
  "Decimal_normalized c s = (if c = 0 then Decimal_ZERO else strip_zeros c s)"

definition Decimal_from_parts :: "u64 \<Rightarrow> u8 \<Rightarrow> AmountError + Decimal" where
  "Decimal_from_parts c s =
     (if MAX_SCALE < s then Inl ScaleOutOfRange
      else if MAX_COEFFICIENT < c then Inl CoefficientOutOfRange
      else Inr (Decimal_normalized c s))"

definition Decimal_is_zero :: "Decimal \<Rightarrow> bool" where
  "Decimal_is_zero d \<longleftrightarrow> coefficient d = 0"

text \<open>Unchecked \<open>*\<close>, \<open>pow\<close> and \<open>-\<close>, at the widths of the source.\<close>

definition Decimal_aligned :: "Decimal \<Rightarrow> u8 \<Rightarrow> u64" where
  "Decimal_aligned d s = mul_u 64 (coefficient d) (pow_u 64 10 (sub_u 8 s (scale d)))"

definition Decimal_from_result :: "u64 \<Rightarrow> u8 \<Rightarrow> AmountError + Decimal" where
  "Decimal_from_result c s =
     (let value = Decimal_normalized c s in Decimal_from_parts (coefficient value) (scale value))"

definition Decimal_checked_add :: "Decimal \<Rightarrow> Decimal \<Rightarrow> AmountError + Decimal" where
  "Decimal_checked_add a b =
     (let s = max (scale a) (scale b) in
      bindE (ok_or CoefficientOutOfRange
               (checked_add_u 64 (Decimal_aligned a s) (Decimal_aligned b s)))
        (\<lambda>c. Decimal_from_result c s))"

definition Decimal_checked_sub :: "Decimal \<Rightarrow> Decimal \<Rightarrow> AmountError + Decimal" where
  "Decimal_checked_sub a b =
     (let s = max (scale a) (scale b) in
      bindE (ok_or NegativeResult (checked_sub_u (Decimal_aligned a s) (Decimal_aligned b s)))
        (\<lambda>c. Decimal_from_result c s))"

definition Decimal_cmp :: "Decimal \<Rightarrow> Decimal \<Rightarrow> ordering" where
  "Decimal_cmp a b =
     (let s = max (scale a) (scale b) in cmp (Decimal_aligned a s) (Decimal_aligned b s))"

text \<open>The operators \<open><\<close> and \<open><=\<close> that \<open>PartialOrd\<close> derives from the comparison.\<close>

definition Decimal_lt :: "Decimal \<Rightarrow> Decimal \<Rightarrow> bool" where
  "Decimal_lt a b \<longleftrightarrow> Decimal_cmp a b = Less"

definition Decimal_le :: "Decimal \<Rightarrow> Decimal \<Rightarrow> bool" where
  "Decimal_le a b \<longleftrightarrow> Decimal_cmp a b \<noteq> Greater"

text \<open>\<open>str::split_once\<close> and the coefficient loop of \<open>from_str\<close>.\<close>

definition split_once :: "char \<Rightarrow> string \<Rightarrow> (string \<times> string) option" where
  "split_once c s =
     (if c \<in> set s then Some (takeWhile (\<lambda>d. d \<noteq> c) s, tl (dropWhile (\<lambda>d. d \<noteq> c) s)) else None)"

definition push_digit :: "u64 \<Rightarrow> char \<Rightarrow> AmountError + u64" where
  "push_digit c digit =
     ok_or CoefficientOutOfRange
       (case Option.bind (checked_mul_u 64 c 10) (\<lambda>v. checked_add_u 64 v (digit_value digit)) of
          None \<Rightarrow> None
        | Some v \<Rightarrow> if v \<le> MAX_COEFFICIENT then Some v else None)"

definition Decimal_from_str :: "string \<Rightarrow> AmountError + Decimal" where
  "Decimal_from_str input =
     (if input = [] \<or> MAX_ENCODED_LEN < length input then Inl InvalidFormat
      else bindE (case split_once (CHR ''.'') input of
                    Some (whole, fraction) \<Rightarrow>
                      if fraction \<noteq> [] then Inr (whole, fraction) else Inl InvalidFormat
                  | None \<Rightarrow> Inr (input, []))
       (\<lambda>(whole, fraction).
         if whole = [] \<or> \<not> (\<forall>b\<in>set (whole @ fraction). is_ascii_digit b) then Inl InvalidFormat
         else if 1 < length whole \<and> starts_with (CHR ''0'') whole \<or> ends_with (CHR ''0'') fraction
           then Inl NonCanonical
         else if MAX_SCALE < length fraction then Inl ScaleOutOfRange
         else bindE (try_fold push_digit 0 (whole @ fraction))
                (\<lambda>c. Decimal_from_parts c (length fraction))))"

text \<open>The format \<open>{:0width$}\<close>: the number padded with zeros on the left.\<close>

definition show_padded :: "nat \<Rightarrow> nat \<Rightarrow> string" where
  "show_padded width n = replicate (width - length (show_nat n)) (CHR ''0'') @ show_nat n"

definition Decimal_to_string :: "Decimal \<Rightarrow> string" where
  "Decimal_to_string d =
     (if scale d = 0 then show_nat (coefficient d)
      else let divisor = pow_u 64 10 (scale d) in
        show_nat (coefficient d div divisor) @ CHR ''.'' #
        show_padded (scale d) (coefficient d mod divisor))"

datatype PositiveDecimal = PositiveDecimal (pd_amount: Decimal)

definition PositiveDecimal_new :: "Decimal \<Rightarrow> AmountError + PositiveDecimal" where
  "PositiveDecimal_new d = (if Decimal_is_zero d then Inl MustBePositive else Inr (PositiveDecimal d))"

definition PositiveDecimal_from_str :: "string \<Rightarrow> AmountError + PositiveDecimal" where
  "PositiveDecimal_from_str input = bindE (Decimal_from_str input) PositiveDecimal_new"

section \<open>Invariant and abstraction\<close>

definition wf_Decimal :: "Decimal \<Rightarrow> bool" where
  "wf_Decimal d \<longleftrightarrow> coefficient d \<le> MAX_COEFFICIENT \<and> scale d \<le> MAX_SCALE
     \<and> (scale d = 0 \<or> coefficient d mod 10 \<noteq> 0)"

definition wf_PositiveDecimal :: "PositiveDecimal \<Rightarrow> bool" where
  "wf_PositiveDecimal p \<longleftrightarrow> wf_Decimal (pd_amount p) \<and> 0 < coefficient (pd_amount p)"

definition micros :: "Decimal \<Rightarrow> nat" where
  "micros d = coefficient d * 10 ^ (6 - scale d)"

text \<open>The decimal with a given number of millionths, and whether it is admitted.\<close>

definition of_micros :: "nat \<Rightarrow> Decimal" where
  "of_micros n = Decimal_normalized n 6"

definition representable :: "nat \<Rightarrow> bool" where
  "representable n \<longleftrightarrow> coefficient (of_micros n) \<le> MAX_COEFFICIENT"

section \<open>Normalisation\<close>

definition canonical_Decimal :: "Decimal \<Rightarrow> bool" where
  "canonical_Decimal d \<longleftrightarrow> scale d = 0 \<or> coefficient d mod 10 \<noteq> 0"

lemma strip_zeros_canonical: "canonical_Decimal (strip_zeros c s)"
  by (induction c s rule: strip_zeros.induct) (auto simp: canonical_Decimal_def)

lemma strip_zeros_scale: "scale (strip_zeros c s) \<le> s"
  by (induction c s rule: strip_zeros.induct) (auto simp: le_Suc_eq)

lemma strip_zeros_value: "coefficient (strip_zeros c s) * 10 ^ (s - scale (strip_zeros c s)) = c"
proof (induction c s rule: strip_zeros.induct)
  case (1 c)
  then show ?case by simp
next
  case (2 c s)
  show ?case
  proof (cases "c mod 10 = 0")
    case True
    with 2 strip_zeros_scale [of "c div 10" s] show ?thesis
      by (simp add: Suc_diff_le mult.left_commute [of _ 10]) presburger
  qed simp
qed

lemma strip_zeros_id: "c mod 10 \<noteq> 0 \<or> s = 0 \<Longrightarrow> strip_zeros c s = \<lparr>coefficient = c, scale = s\<rparr>"
  by (cases s) auto

lemma strip_zeros_shift: "strip_zeros (c * 10 ^ k) (s + k) = strip_zeros c s"
  by (induction k) simp_all

lemma normalized_shift: "Decimal_normalized (c * 10 ^ k) (s + k) = Decimal_normalized c s"
  by (simp add: Decimal_normalized_def strip_zeros_shift)

lemma normalized_canonical: "canonical_Decimal (Decimal_normalized c s)"
  by (simp add: Decimal_normalized_def strip_zeros_canonical)
    (simp add: canonical_Decimal_def Decimal_ZERO_def)

lemma normalized_scale: "scale (Decimal_normalized c s) \<le> s"
  by (simp add: Decimal_normalized_def strip_zeros_scale Decimal_ZERO_def)

lemma normalized_of_micros:
  assumes "s \<le> 6"
  shows "Decimal_normalized c s = of_micros (c * 10 ^ (6 - s))"
  using normalized_shift [of c "6 - s" s] assms by (simp add: of_micros_def)

lemma micros_normalized:
  assumes "s \<le> 6"
  shows "micros (Decimal_normalized c s) = c * 10 ^ (6 - s)"
proof (cases "c = 0")
  case True
  then show ?thesis by (simp add: micros_def Decimal_normalized_def Decimal_ZERO_def)
next
  case False
  let ?d = "strip_zeros c s"
  have "scale ?d \<le> s" by (rule strip_zeros_scale)
  with assms have "6 - scale ?d = (s - scale ?d) + (6 - s)" by simp
  then have "micros ?d = coefficient ?d * 10 ^ (s - scale ?d) * 10 ^ (6 - s)"
    by (simp add: micros_def power_add)
  with False show ?thesis
    by (simp only: strip_zeros_value) (simp add: Decimal_normalized_def)
qed

lemma micros_of_micros [simp]: "micros (of_micros n) = n"
  using micros_normalized [of 6 n] by (simp add: of_micros_def)

lemma canonical_normalized:
  assumes "canonical_Decimal d"
  shows "Decimal_normalized (coefficient d) (scale d) = d"
proof (cases "coefficient d = 0")
  case True
  with assms have "scale d = 0" by (auto simp: canonical_Decimal_def)
  with True show ?thesis by (simp add: Decimal_normalized_def Decimal_ZERO_def)
next
  case False
  with assms show ?thesis
    by (auto simp: Decimal_normalized_def strip_zeros_id canonical_Decimal_def)
qed

lemma of_micros_micros: "wf_Decimal d \<Longrightarrow> of_micros (micros d) = d"
  using canonical_normalized [of d] normalized_of_micros [of "scale d" "coefficient d"]
  by (simp add: wf_Decimal_def canonical_Decimal_def micros_def MAX_SCALE_def)

lemma micros_inject: "wf_Decimal a \<Longrightarrow> wf_Decimal b \<Longrightarrow> micros a = micros b \<longleftrightarrow> a = b"
  by (metis of_micros_micros)

lemma wf_of_micros: "representable n \<Longrightarrow> wf_Decimal (of_micros n)"
  using normalized_canonical [of n 6] normalized_scale [of n 6]
  by (simp add: wf_Decimal_def representable_def canonical_Decimal_def of_micros_def MAX_SCALE_def)

lemma representable_iff: "representable n \<longleftrightarrow> (\<exists>d. wf_Decimal d \<and> micros d = n)"
  by (metis micros_of_micros of_micros_micros representable_def wf_Decimal_def wf_of_micros)

section \<open>Exact arithmetic\<close>

lemma coefficient_micros_le: "coefficient d * 10 ^ (6 - scale d) \<le> MAX_COEFFICIENT * 10 ^ 6"
  if "coefficient d \<le> MAX_COEFFICIENT"
  using that by (intro mult_le_mono power_increasing) auto

lemma aligned_exact:
  assumes "wf_Decimal d" and "scale d \<le> s" and "s \<le> 6"
  shows "Decimal_aligned d s * 10 ^ (6 - s) = micros d"
    and "Decimal_aligned d s \<le> MAX_COEFFICIENT * 10 ^ 6"
    and "Decimal_aligned d s = coefficient d * 10 ^ (s - scale d)"
proof -
  have "(10 :: nat) ^ (s - scale d) \<le> 10 ^ 6" using assms by (intro power_increasing) auto
  then have p: "pow_u 64 10 (s - scale d) = 10 ^ (s - scale d)" by (simp add: pow_u_def)
  have le: "coefficient d * 10 ^ (s - scale d) \<le> MAX_COEFFICIENT * 10 ^ 6"
    using assms by (intro mult_le_mono power_increasing) (auto simp: wf_Decimal_def)
  then show eq: "Decimal_aligned d s = coefficient d * 10 ^ (s - scale d)"
    using assms(2) by (simp add: Decimal_aligned_def sub_u_def p mul_u_def MAX_COEFFICIENT_def)
  with le show "Decimal_aligned d s \<le> MAX_COEFFICIENT * 10 ^ 6" by simp
  have "(s - scale d) + (6 - s) = 6 - scale d" using assms by simp
  then show "Decimal_aligned d s * 10 ^ (6 - s) = micros d"
    by (simp add: eq micros_def mult.assoc power_add [symmetric])
qed

lemma from_result_spec:
  assumes "s \<le> 6"
  shows "Decimal_from_result c s =
    (if representable (c * 10 ^ (6 - s)) then Inr (of_micros (c * 10 ^ (6 - s)))
     else Inl CoefficientOutOfRange)"
proof -
  let ?d = "Decimal_normalized c s"
  have "scale ?d \<le> 6" using normalized_scale [of c s] assms by simp
  moreover have "Decimal_normalized (coefficient ?d) (scale ?d) = ?d"
    by (rule canonical_normalized [OF normalized_canonical])
  ultimately show ?thesis
    using assms
    by (simp add: Decimal_from_result_def Decimal_from_parts_def Let_def representable_def
        normalized_of_micros MAX_SCALE_def)
qed

lemma max_scale_le: "wf_Decimal a \<Longrightarrow> wf_Decimal b \<Longrightarrow> max (scale a) (scale b) \<le> 6"
  by (simp add: wf_Decimal_def MAX_SCALE_def)

lemma checked_add_spec:
  assumes "wf_Decimal a" and "wf_Decimal b"
  shows "Decimal_checked_add a b =
    (if representable (micros a + micros b) then Inr (of_micros (micros a + micros b))
     else Inl CoefficientOutOfRange)"
proof -
  define s where "s = max (scale a) (scale b)"
  have s: "s \<le> 6" "scale a \<le> s" "scale b \<le> s"
    using max_scale_le [OF assms] by (auto simp: s_def)
  note al = aligned_exact [OF assms(1) s(2,1)] aligned_exact [OF assms(2) s(3,1)]
  have "checked_add_u 64 (Decimal_aligned a s) (Decimal_aligned b s) =
      Some (Decimal_aligned a s + Decimal_aligned b s)"
    using al(2,5) by (simp add: checked_simps MAX_COEFFICIENT_def)
  moreover have "(Decimal_aligned a s + Decimal_aligned b s) * 10 ^ (6 - s) = micros a + micros b"
    using al(1,4) by (simp add: add_mult_distrib)
  ultimately show ?thesis
    using from_result_spec [OF s(1)] by (simp add: Decimal_checked_add_def Let_def s_def [symmetric])
qed

lemma checked_sub_spec:
  assumes "wf_Decimal a" and "wf_Decimal b"
  shows "Decimal_checked_sub a b =
    (if micros a < micros b then Inl NegativeResult
     else if representable (micros a - micros b) then Inr (of_micros (micros a - micros b))
     else Inl CoefficientOutOfRange)"
proof -
  define s where "s = max (scale a) (scale b)"
  have s: "s \<le> 6" "scale a \<le> s" "scale b \<le> s"
    using max_scale_le [OF assms] by (auto simp: s_def)
  note al = aligned_exact [OF assms(1) s(2,1)] aligned_exact [OF assms(2) s(3,1)]
  have "Decimal_aligned a s < Decimal_aligned b s \<longleftrightarrow> micros a < micros b"
    using al(1,4) by (metis mult_less_cancel2 zero_less_numeral zero_less_power)
  then have le: "Decimal_aligned b s \<le> Decimal_aligned a s \<longleftrightarrow> \<not> micros a < micros b"
    by linarith
  have "(Decimal_aligned a s - Decimal_aligned b s) * 10 ^ (6 - s) = micros a - micros b"
    using al(1,4) by (simp add: diff_mult_distrib)
  then show ?thesis
    using from_result_spec [OF s(1)]
    by (simp add: Decimal_checked_sub_def Let_def s_def [symmetric] checked_sub_u_def le)
qed

lemma Decimal_cmp_spec:
  assumes "wf_Decimal a" and "wf_Decimal b"
  shows "Decimal_cmp a b = cmp (micros a) (micros b)"
proof -
  define s where "s = max (scale a) (scale b)"
  have s: "s \<le> 6" "scale a \<le> s" "scale b \<le> s"
    using max_scale_le [OF assms] by (auto simp: s_def)
  note al = aligned_exact(1) [OF assms(1) s(2,1)] aligned_exact(1) [OF assms(2) s(3,1)]
  have "Decimal_aligned a s < Decimal_aligned b s \<longleftrightarrow> micros a < micros b"
    and "Decimal_aligned a s = Decimal_aligned b s \<longleftrightarrow> micros a = micros b"
    using al by (metis mult_less_cancel2 zero_less_numeral zero_less_power,
        metis mult_cancel2 power_not_zero zero_neq_numeral)
  then show ?thesis by (simp add: Decimal_cmp_def Let_def s_def [symmetric] cmp_def)
qed

lemma Decimal_lt_iff [simp]:
  "wf_Decimal a \<Longrightarrow> wf_Decimal b \<Longrightarrow> Decimal_lt a b \<longleftrightarrow> micros a < micros b"
  by (simp add: Decimal_lt_def Decimal_cmp_spec cmp_def)

lemma Decimal_le_iff [simp]:
  "wf_Decimal a \<Longrightarrow> wf_Decimal b \<Longrightarrow> Decimal_le a b \<longleftrightarrow> micros a \<le> micros b"
  by (auto simp: Decimal_le_def Decimal_cmp_spec cmp_def)

lemma PositiveDecimal_new_Inr [result_simps]:
  "PositiveDecimal_new d = Inr p \<longleftrightarrow> coefficient d \<noteq> 0 \<and> p = PositiveDecimal d"
  by (auto simp: PositiveDecimal_new_def Decimal_is_zero_def)

lemma wf_PositiveDecimal_micros: "wf_PositiveDecimal p \<Longrightarrow> 0 < micros (pd_amount p)"
  by (simp add: wf_PositiveDecimal_def micros_def)

text \<open>
  Integers stay representable up to the coefficient bound, and so does every multiple of a
  millionth up to 999999.999999.
\<close>

lemma representable_small: "n \<le> MAX_COEFFICIENT \<Longrightarrow> representable n"
proof -
  assume n: "n \<le> MAX_COEFFICIENT"
  let ?d = "strip_zeros n 6"
  have "coefficient ?d * 1 \<le> coefficient ?d * 10 ^ (6 - scale ?d)" by (intro mult_le_mono) auto
  with n have "coefficient ?d \<le> MAX_COEFFICIENT" by (simp only: strip_zeros_value)
  then show ?thesis
    by (simp add: representable_def of_micros_def Decimal_normalized_def Decimal_ZERO_def)
qed

section \<open>The decimal string codec\<close>

lemma push_digits:
  assumes "\<forall>d\<in>set s. is_ascii_digit d" and "c \<le> MAX_COEFFICIENT"
  shows "try_fold push_digit c s =
    (if c * 10 ^ length s + digits_value s \<le> MAX_COEFFICIENT
     then Inr (c * 10 ^ length s + digits_value s) else Inl CoefficientOutOfRange)"
  using assms
proof (induction s arbitrary: c)
  case Nil
  then show ?case by simp
next
  case (Cons d s)
  then have d: "digit_value d < 10" by simp
  let ?v = "10 * c + digit_value d"
  have bound: "?v < 2 ^ 64" using Cons.prems(2) d by (simp add: MAX_COEFFICIENT_def)
  have step: "push_digit c d =
      (if ?v \<le> MAX_COEFFICIENT then Inr ?v else Inl CoefficientOutOfRange)"
    using bound by (simp add: push_digit_def checked_defs fits_u_def mult.commute)
  have sum: "c * 10 ^ length (d # s) + digits_value (d # s) =
      ?v * 10 ^ length s + digits_value s"
    by (simp add: digits_value_Cons algebra_simps)
  have grow: "?v \<le> ?v * 10 ^ length s + digits_value s"
    by (simp add: trans_le_add1)
  show ?case
  proof (cases "?v \<le> MAX_COEFFICIENT")
    case True
    with Cons step show ?thesis by (simp only: try_fold.simps sum) simp
  next
    case False
    with grow have "\<not> ?v * 10 ^ length s + digits_value s \<le> MAX_COEFFICIENT" by linarith
    with False step show ?thesis by (simp only: try_fold.simps sum) simp
  qed
qed

lemma digits_value_inject:
  assumes "length s = length t" and "\<forall>c\<in>set s. is_ascii_digit c" and "\<forall>c\<in>set t. is_ascii_digit c"
    and "digits_value s = digits_value t"
  shows "s = t"
  using assms
proof (induction s arbitrary: t rule: rev_induct)
  case Nil
  then show ?case by simp
next
  case (snoc c s)
  then obtain b u where t: "t = u @ [b]" by (cases t rule: rev_cases) auto
  with snoc.prems have eq: "10 * digits_value s + digit_value c = 10 * digits_value u + digit_value b"
    and dc: "digit_value c < 10" "digit_value b < 10" by auto
  from eq dc have "digit_value c = digit_value b" and "digits_value s = digits_value u"
    by presburger+
  with snoc t show ?case
    by (metis append_same_eq butlast_snoc digit_char_digit_value in_set_conv_decomp
        length_append_singleton nat.inject set_append Un_iff list.set_intros(1))
qed

lemma digit_value_zero [simp]: "digit_value (CHR ''0'') = 0"
  by code_simp

lemma is_ascii_digit_zero [simp]: "is_ascii_digit (CHR ''0'')"
  by code_simp

lemma digits_value_zeros: "digits_value (replicate k (CHR ''0'') @ s) = digits_value s"
  by (induction k) (simp_all add: digits_value_Cons)

lemma show_padded_props:
  assumes "n < 10 ^ k" and "0 < k"
  shows "length (show_padded k n) = k" and "digits_value (show_padded k n) = n"
    and "\<forall>c\<in>set (show_padded k n). is_ascii_digit c"
  using length_show_nat_le [OF assms]
  by (auto simp: show_padded_def digits_value_zeros show_nat_digits)

lemma show_padded_digits:
  assumes "\<forall>c\<in>set s. is_ascii_digit c" and "s \<noteq> []"
  shows "show_padded (length s) (digits_value s) = s"
  using assms digits_value_less [of s] show_padded_props [of "digits_value s" "length s"]
  by (intro digits_value_inject) auto

lemma ends_with_zero_iff:
  assumes "\<forall>c\<in>set s. is_ascii_digit c" and "s \<noteq> []"
  shows "ends_with (CHR ''0'') s \<longleftrightarrow> digits_value s mod 10 = 0"
proof -
  obtain t c where s: "s = t @ [c]" using assms(2) by (cases s rule: rev_cases) auto
  then have "is_ascii_digit c" using assms by simp
  then have "digit_value c < 10" and "c = CHR ''0'' \<longleftrightarrow> digit_value c = 0"
    by (simp, metis digit_char_digit_value digit_value_zero is_ascii_digit_zero)
  moreover have "digits_value s mod 10 = digit_value c mod 10" by (simp add: s)
  ultimately show ?thesis by (simp add: s ends_with_def)
qed

lemma dot_not_digit: "is_ascii_digit c \<Longrightarrow> c \<noteq> CHR ''.''"
  by (auto simp: is_ascii_digit_def byte_of_def)

lemma split_once_none: "\<forall>c\<in>set s. is_ascii_digit c \<Longrightarrow> split_once (CHR ''.'') s = None"
  by (auto simp: split_once_def dest: dot_not_digit)

lemma split_once_at:
  "\<forall>c\<in>set s. is_ascii_digit c \<Longrightarrow> split_once (CHR ''.'') (s @ CHR ''.'' # t) = Some (s, t)"
proof -
  assume "\<forall>c\<in>set s. is_ascii_digit c"
  then have "\<And>d. d \<in> set s \<Longrightarrow> d \<noteq> CHR ''.''" using dot_not_digit by blast
  then show ?thesis by (simp add: split_once_def)
qed

lemma split_once_Some:
  assumes "split_once c s = Some (a, b)"
  shows "s = a @ c # b"
proof -
  let ?rest = "dropWhile (\<lambda>d. d \<noteq> c) s"
  have "c \<in> set s" and a: "a = takeWhile (\<lambda>d. d \<noteq> c) s" and b: "b = tl ?rest"
    using assms by (auto simp: split_once_def split: if_splits)
  then have ne: "?rest \<noteq> []" by auto
  with hd_dropWhile [of "\<lambda>d. d \<noteq> c" s] have "?rest = c # b" by (cases ?rest) (auto simp: b)
  then show ?thesis using takeWhile_dropWhile_id [of "\<lambda>d. d \<noteq> c" s] by (simp add: a)
qed

lemma from_str_eval:
  assumes "canonical_digits w" and "\<forall>c\<in>set f. is_ascii_digit c"
    and "\<not> ends_with (CHR ''0'') f" and "length w \<le> 12" and "length f \<le> 6"
    and "digits_value (w @ f) \<le> MAX_COEFFICIENT"
    and s: "s = (if f = [] then w else w @ CHR ''.'' # f)"
  shows "Decimal_from_str s = Decimal_from_parts (digits_value (w @ f)) (length f)"
proof -
  have w: "w \<noteq> []" "\<forall>c\<in>set w. is_ascii_digit c" "\<not> (1 < length w \<and> starts_with (CHR ''0'') w)"
    using assms(1) by (auto simp: canonical_digits_def)
  have all: "\<forall>c\<in>set (w @ f). is_ascii_digit c" using w(2) assms(2) by auto
  have len: "s \<noteq> []" "\<not> MAX_ENCODED_LEN < length s" "\<not> MAX_SCALE < length f"
    using w(1) assms(4,5) by (simp_all add: s MAX_ENCODED_LEN_def MAX_SCALE_def)
  have split: "(case split_once (CHR ''.'') s of
      Some (whole, fraction) \<Rightarrow> if fraction \<noteq> [] then Inr (whole, fraction) else Inl InvalidFormat
    | None \<Rightarrow> Inr (s, [])) = Inr (w, f)"
    using split_once_at [OF w(2), of f] split_once_none [OF w(2)] by (simp add: s)
  have "try_fold push_digit 0 (w @ f) = Inr (digits_value (w @ f))"
    using push_digits [OF all, of 0] assms(6) by simp
  with all w assms(3) len show ?thesis
    unfolding Decimal_from_str_def split by (auto simp del: set_append)
qed

lemma Decimal_from_str_to_string:
  assumes "wf_Decimal d"
  shows "Decimal_from_str (Decimal_to_string d) = Inr d"
proof -
  let ?k = "scale d" and ?c = "coefficient d"
  have k: "?k \<le> 6" and c: "?c \<le> MAX_COEFFICIENT" "?k = 0 \<or> ?c mod 10 \<noteq> 0"
    using assms by (auto simp: wf_Decimal_def MAX_SCALE_def)
  have "(10 :: nat) ^ ?k \<le> 10 ^ 6" using k by (intro power_increasing) auto
  then have p: "pow_u 64 10 ?k = 10 ^ ?k" by (simp add: pow_u_def)
  define w where "w = show_nat (?c div 10 ^ ?k)"
  define f where "f = (if ?k = 0 then [] else show_padded ?k (?c mod 10 ^ ?k))"
  have f: "length f = ?k" "\<forall>c\<in>set f. is_ascii_digit c" "digits_value f = ?c mod 10 ^ ?k"
    using show_padded_props [of "?c mod 10 ^ ?k" ?k] by (auto simp: f_def)
  have "?c div 10 ^ ?k \<le> ?c" by (rule div_le_dividend)
  also have "?c < 10 ^ 12" using c(1) by (simp add: MAX_COEFFICIENT_def)
  finally have "?c div 10 ^ ?k < 10 ^ 12" .
  then have len: "length w \<le> 12" unfolding w_def by (rule length_show_nat_le) simp
  have sum: "digits_value (w @ f) = ?c"
    by (simp add: digits_value_append f w_def div_mult_mod_eq)
  have last: "\<not> ends_with (CHR ''0'') f"
  proof (cases "f = []")
    case False
    then have "?k \<noteq> 0" by (simp flip: f(1))
    then have "(10 :: nat) dvd 10 ^ ?k" by (intro dvd_power disjI1) simp
    then have "?c mod 10 ^ ?k mod 10 = ?c mod 10" by (rule mod_mod_cancel)
    then show ?thesis using ends_with_zero_iff [OF f(2) False] c(2) False f(1,3) by auto
  qed (simp add: ends_with_def)
  have s: "Decimal_to_string d = (if f = [] then w else w @ CHR ''.'' # f)"
    using f(1) by (auto simp: Decimal_to_string_def p Let_def w_def f_def)
  have "Decimal_from_str (Decimal_to_string d) = Decimal_from_parts ?c ?k"
    using from_str_eval [OF _ f(2) last len _ _ s] f(1) k c(1) sum by (simp add: w_def)
  also have "\<dots> = Inr d"
    using assms canonical_normalized [of d]
    by (simp add: Decimal_from_parts_def wf_Decimal_def canonical_Decimal_def)
  finally show ?thesis .
qed

lemma from_parts_wf: "Decimal_from_parts c s = Inr d \<Longrightarrow> wf_Decimal d \<and> micros d = c * 10 ^ (6 - s)"
proof -
  assume *: "Decimal_from_parts c s = Inr d"
  then have b: "s \<le> 6" "c \<le> MAX_COEFFICIENT" "d = Decimal_normalized c s"
    by (auto simp: Decimal_from_parts_def MAX_SCALE_def split: if_splits)
  have "coefficient d \<le> c"
  proof (cases "c = 0")
    case False
    have "coefficient (strip_zeros c s) * 1 \<le>
        coefficient (strip_zeros c s) * 10 ^ (s - scale (strip_zeros c s))"
      by (intro mult_le_mono) auto
    then show ?thesis using False b(3) by (simp add: strip_zeros_value Decimal_normalized_def)
  qed (simp add: b Decimal_normalized_def Decimal_ZERO_def)
  then show ?thesis
    using b normalized_canonical [of c s] normalized_scale [of c s] micros_normalized [of s c]
    by (auto simp: wf_Decimal_def canonical_Decimal_def MAX_SCALE_def)
qed

lemma Decimal_from_str_parts:
  assumes "Decimal_from_str s = Inr d"
  obtains w f where "s = (if f = [] then w else w @ CHR ''.'' # f)"
    and "canonical_digits w" and "\<forall>c\<in>set f. is_ascii_digit c"
    and "\<not> ends_with (CHR ''0'') f" and "length f \<le> 6"
    and "digits_value (w @ f) \<le> MAX_COEFFICIENT"
    and "Decimal_from_parts (digits_value (w @ f)) (length f) = Inr d"
proof -
  obtain w f where s: "s = (if f = [] then w else w @ CHR ''.'' # f)"
    and body: "(if w = [] \<or> \<not> (\<forall>b\<in>set (w @ f). is_ascii_digit b) then Inl InvalidFormat
       else if 1 < length w \<and> starts_with (CHR ''0'') w \<or> ends_with (CHR ''0'') f
         then Inl NonCanonical
       else if MAX_SCALE < length f then Inl ScaleOutOfRange
       else bindE (try_fold push_digit 0 (w @ f)) (\<lambda>c. Decimal_from_parts c (length f))) = Inr d"
  proof (cases "split_once (CHR ''.'') s")
    case None
    with assms that [of "[]" s] show thesis by (auto simp: Decimal_from_str_def split: if_splits)
  next
    case (Some wf)
    obtain w f where wf: "wf = (w, f)" by (cases wf)
    with assms Some that [of f w] split_once_Some [of "CHR ''.''" s w f] show thesis
      by (auto simp: Decimal_from_str_def split: if_splits)
  qed
  from body have digits: "w \<noteq> []" "\<forall>b\<in>set (w @ f). is_ascii_digit b"
    and canon: "\<not> (1 < length w \<and> starts_with (CHR ''0'') w)" "\<not> ends_with (CHR ''0'') f"
    and len: "length f \<le> 6"
    and "bindE (try_fold push_digit 0 (w @ f)) (\<lambda>c. Decimal_from_parts c (length f)) = Inr d"
    by (simp_all add: MAX_SCALE_def split: if_splits)
  then have "digits_value (w @ f) \<le> MAX_COEFFICIENT"
    and "Decimal_from_parts (digits_value (w @ f)) (length f) = Inr d"
    using push_digits [OF digits(2), of 0] by (auto split: if_splits)
  with s digits canon len show thesis by (intro that) (auto simp: canonical_digits_def)
qed

lemma Decimal_from_str_sound:
  assumes "Decimal_from_str s = Inr d"
  shows "wf_Decimal d \<and> Decimal_to_string d = s"
proof -
  obtain w f where s: "s = (if f = [] then w else w @ CHR ''.'' # f)"
    and w: "canonical_digits w" and f: "\<forall>c\<in>set f. is_ascii_digit c"
    and last: "\<not> ends_with (CHR ''0'') f" and len: "length f \<le> 6"
    and d: "Decimal_from_parts (digits_value (w @ f)) (length f) = Inr d"
    using assms by (rule Decimal_from_str_parts)
  let ?c = "digits_value (w @ f)"
  have canon: "f = [] \<or> ?c mod 10 \<noteq> 0"
  proof (cases "f = []")
    case False
    with ends_with_zero_iff [of "w @ f"] w f last show ?thesis
      by (auto simp: canonical_digits_def ends_with_def)
  qed simp
  have eq: "d = \<lparr>coefficient = ?c, scale = length f\<rparr>"
    using d canonical_normalized [of "\<lparr>coefficient = ?c, scale = length f\<rparr>"] canon
    by (auto simp: Decimal_from_parts_def canonical_Decimal_def split: if_splits)
  have "(10 :: nat) ^ length f \<le> 10 ^ 6" using len by (intro power_increasing) auto
  then have p: "pow_u 64 10 (length f) = 10 ^ length f" by (simp add: pow_u_def)
  have "digits_value f < 10 ^ length f" using f by (rule digits_value_less)
  then have "Decimal_to_string d = s"
    using w f s by (auto simp: Decimal_to_string_def eq p Let_def digits_value_append
        show_nat_digits_value show_padded_digits)
  with from_parts_wf [OF d] show ?thesis by simp
qed

interpretation decimal: canonical_codec wf_Decimal Decimal_to_string Decimal_from_str
  by unfold_locales (simp_all add: Decimal_from_str_to_string Decimal_from_str_sound)

section \<open>Properties\<close>

text \<open>C32: addition and subtraction of admitted decimals are exact. A result is returned
  precisely when some admitted decimal has the exact value; otherwise the error is
  \<open>CoefficientOutOfRange\<close>, or \<open>NegativeResult\<close> for a negative difference.\<close>

theorem Decimal_arithmetic_exact:
  assumes "wf_Decimal a" and "wf_Decimal b"
  shows "(case Decimal_checked_add a b of
        Inr c \<Rightarrow> wf_Decimal c \<and> micros c = micros a + micros b
      | Inl e \<Rightarrow> e = CoefficientOutOfRange
          \<and> \<not> (\<exists>d. wf_Decimal d \<and> micros d = micros a + micros b))
    \<and> (case Decimal_checked_sub a b of
        Inr c \<Rightarrow> wf_Decimal c \<and> int (micros c) = int (micros a) - int (micros b)
      | Inl e \<Rightarrow> (if micros a < micros b then e = NegativeResult
          else e = CoefficientOutOfRange
            \<and> \<not> (\<exists>d. wf_Decimal d \<and> micros d = micros a - micros b)))"
  using representable_iff wf_of_micros
  by (auto simp: checked_add_spec [OF assms] checked_sub_spec [OF assms])

theorem Decimal_arithmetic_exact_witness:
  "\<exists>c d. Decimal_checked_add \<lparr>coefficient = 15, scale = 1\<rparr> \<lparr>coefficient = 25, scale = 2\<rparr> = Inr c
    \<and> micros c = micros \<lparr>coefficient = 15, scale = 1\<rparr> + micros \<lparr>coefficient = 25, scale = 2\<rparr>
    \<and> Decimal_checked_sub \<lparr>coefficient = 25, scale = 2\<rparr> \<lparr>coefficient = 15, scale = 1\<rparr> = Inl NegativeResult
    \<and> c = \<lparr>coefficient = 175, scale = 2\<rparr>"
proof -
  have wf: "wf_Decimal \<lparr>coefficient = 15, scale = 1\<rparr>" "wf_Decimal \<lparr>coefficient = 25, scale = 2\<rparr>"
    by code_simp+
  have "Decimal_checked_add \<lparr>coefficient = 15, scale = 1\<rparr> \<lparr>coefficient = 25, scale = 2\<rparr> =
      Inr \<lparr>coefficient = 175, scale = 2\<rparr>"
    and "Decimal_checked_sub \<lparr>coefficient = 25, scale = 2\<rparr> \<lparr>coefficient = 15, scale = 1\<rparr> =
      Inl NegativeResult"
    by code_simp+
  with Decimal_arithmetic_exact [OF wf] show ?thesis by simp
qed

text \<open>The order of decimals is the order of the exact values they denote, and it is
  consistent with equality of representations: two admitted decimals compare equal only if
  they are the same coefficient and scale.\<close>

theorem Decimal_order_exact:
  assumes "wf_Decimal a" and "wf_Decimal b"
  shows "Decimal_cmp a b =
      (if micros a < micros b then Less else if micros a = micros b then Equal else Greater)
    \<and> (Decimal_cmp a b = Equal \<longleftrightarrow> a = b)"
  using micros_inject [OF assms] by (simp add: Decimal_cmp_spec [OF assms] cmp_def)

theorem Decimal_order_exact_witness:
  "Decimal_cmp \<lparr>coefficient = 15, scale = 1\<rparr> \<lparr>coefficient = 149, scale = 2\<rparr> = Greater"
  using Decimal_order_exact [of "\<lparr>coefficient = 15, scale = 1\<rparr>" "\<lparr>coefficient = 149, scale = 2\<rparr>"]
  by (simp add: wf_Decimal_def MAX_COEFFICIENT_def MAX_SCALE_def micros_def)

text \<open>C33: a string parses to a decimal exactly when it is the canonical rendering of that
  admitted decimal; parsing and printing are inverse.\<close>

theorem Decimal_codec_canonical:
  "Decimal_from_str s = Inr d \<longleftrightarrow> wf_Decimal d \<and> Decimal_to_string d = s"
  by (rule decimal.parse_iff)

end
