(* ===== verification/Quantity.thy ===== *)
theory Quantity
  imports Amount
begin

text \<open>
  Physical quantities of \<open>crates/domain/src/quantity.rs\<close> with the measurement units of
  \<open>listing.rs\<close>: admission, explicit conversion between compatible units, and arithmetic within
  one unit.
\<close>

section \<open>Definitions\<close>

datatype MeasurementUnit = Gram | Kilogram | Millilitre | Litre | Each

fun MeasurementUnit_symbol :: "MeasurementUnit \<Rightarrow> string" where
  "MeasurementUnit_symbol Gram = ''g''"
| "MeasurementUnit_symbol Kilogram = ''kg''"
| "MeasurementUnit_symbol Millilitre = ''mL''"
| "MeasurementUnit_symbol Litre = ''L''"
| "MeasurementUnit_symbol Each = ''each''"

text \<open>The deserializing visitor, whose failure carries only a message.\<close>

definition MeasurementUnit_visit_str :: "string \<Rightarrow> MeasurementUnit option" where
  "MeasurementUnit_visit_str v =
     (if v = ''g'' then Some Gram else if v = ''kg'' then Some Kilogram
      else if v = ''mL'' then Some Millilitre else if v = ''L'' then Some Litre
      else if v = ''each'' then Some Each else None)"

record Quantity =
  qty_amount :: Decimal
  qty_unit :: MeasurementUnit

datatype QuantityError =
    FractionalCount
  | UnitMismatch
  | IncompatibleDimension
  | PrecisionLoss
  | ArithmeticOutOfRange
  | AmountFailure AmountError

definition Quantity_new :: "Decimal \<Rightarrow> MeasurementUnit \<Rightarrow> QuantityError + Quantity" where
  "Quantity_new amount unit =
     (if unit = Each \<and> scale amount \<noteq> 0 then Inl FractionalCount
      else Inr \<lparr>qty_amount = amount, qty_unit = unit\<rparr>)"

text \<open>\<open>Some True\<close> multiplies by a thousand, \<open>Some False\<close> divides.\<close>

fun convert_direction :: "MeasurementUnit \<Rightarrow> MeasurementUnit \<Rightarrow> bool option" where
  "convert_direction Kilogram Gram = Some True"
| "convert_direction Litre Millilitre = Some True"
| "convert_direction Gram Kilogram = Some False"
| "convert_direction Millilitre Litre = Some False"
| "convert_direction _ _ = None"

definition convert_scaled :: "bool \<Rightarrow> i128 \<Rightarrow> u8 \<Rightarrow> QuantityError + i128 \<times> u8" where
  "convert_scaled multiply c s =
     (if multiply \<and> s < 3 then
        bindE (ok_or ArithmeticOutOfRange (checked_pow_i 128 10 (3 - s))) (\<lambda>factor.
        bindE (ok_or ArithmeticOutOfRange (checked_mul_i 128 c factor)) (\<lambda>c. Inr (c, 0)))
      else if multiply then Inr (c, s - 3)
      else bindE (ok_or ArithmeticOutOfRange (checked_add_u 8 s 3)) (\<lambda>s. Inr (c, s)))"

fun convert_strip :: "i128 \<Rightarrow> u8 \<Rightarrow> QuantityError + i128 \<times> u8" where
  "convert_strip c 0 = Inr (c, 0)"
| "convert_strip c (Suc s) =
     (if checked_rem_i 128 c 10 = Some 0 then
        bindE (ok_or ArithmeticOutOfRange (checked_div_i 128 c 10)) (\<lambda>c. convert_strip c s)
      else Inr (c, Suc s))"

definition Quantity_convert :: "Quantity \<Rightarrow> MeasurementUnit \<Rightarrow> QuantityError + Quantity" where
  "Quantity_convert q target =
     (if qty_unit q = target then Inr q
      else bindE (ok_or IncompatibleDimension (convert_direction (qty_unit q) target)) (\<lambda>multiply.
       bindE (convert_scaled multiply (int (coefficient (qty_amount q))) (scale (qty_amount q)))
        (\<lambda>(c, s).
       bindE (convert_strip c s) (\<lambda>(c, s).
         if MAX_SCALE < s then Inl PrecisionLoss
         else bindE (ok_or ArithmeticOutOfRange (u64_try_from c)) (\<lambda>c.
           bindE (map_err AmountFailure (Decimal_from_parts c s)) (\<lambda>d.
             Quantity_new d target))))))"

definition Quantity_checked_add :: "Quantity \<Rightarrow> Quantity \<Rightarrow> QuantityError + Quantity" where
  "Quantity_checked_add a b =
     (if qty_unit a \<noteq> qty_unit b then Inl UnitMismatch
      else bindE (map_err AmountFailure (Decimal_checked_add (qty_amount a) (qty_amount b)))
        (\<lambda>d. Quantity_new d (qty_unit a)))"

definition Quantity_checked_sub :: "Quantity \<Rightarrow> Quantity \<Rightarrow> QuantityError + Quantity" where
  "Quantity_checked_sub a b =
     (if qty_unit a \<noteq> qty_unit b then Inl UnitMismatch
      else bindE (map_err AmountFailure (Decimal_checked_sub (qty_amount a) (qty_amount b)))
        (\<lambda>d. Quantity_new d (qty_unit a)))"

datatype ContentMeasure = Fixed Quantity | Estimated Quantity | Unspecified

fun ContentMeasure_fixed_quantity :: "ContentMeasure \<Rightarrow> Quantity option" where
  "ContentMeasure_fixed_quantity (Fixed q) = Some q"
| "ContentMeasure_fixed_quantity (Estimated _) = None"
| "ContentMeasure_fixed_quantity Unspecified = None"

section \<open>Invariant\<close>

definition wf_Quantity :: "Quantity \<Rightarrow> bool" where
  "wf_Quantity q \<longleftrightarrow> wf_Decimal (qty_amount q) \<and> (qty_unit q = Each \<longrightarrow> scale (qty_amount q) = 0)"

lemma Quantity_new_Inr [result_simps]:
  "Quantity_new d u = Inr q \<longleftrightarrow>
    (u = Each \<longrightarrow> scale d = 0) \<and> q = \<lparr>qty_amount = d, qty_unit = u\<rparr>"
  by (auto simp: Quantity_new_def)

interpretation unit_codec:
  canonical_codec "\<lambda>_. True" MeasurementUnit_symbol "\<lambda>v. ok_or () (MeasurementUnit_visit_str v)"
proof
  fix u show "ok_or () (MeasurementUnit_visit_str (MeasurementUnit_symbol u)) = Inr u"
    by (cases u) (simp_all add: MeasurementUnit_visit_str_def)
next
  fix v u assume "ok_or () (MeasurementUnit_visit_str v) = Inr u"
  then show "True \<and> MeasurementUnit_symbol u = v"
    by (auto simp: MeasurementUnit_visit_str_def split: if_splits)
qed

section \<open>Conversion\<close>

lemma convert_strip_eq:
  assumes "c < 2 ^ 127"
  shows "convert_strip (int c) s =
    Inr (int (coefficient (strip_zeros c s)), scale (strip_zeros c s))"
  using assms
proof (induction c s rule: strip_zeros.induct)
  case (1 c)
  then show ?case by simp
next
  case (2 c s)
  have rem: "checked_rem_i 128 (int c) 10 = Some (int (c mod 10))"
    by (simp add: checked_rem_i_nonneg zmod_int)
  have "int c < 2 ^ (128 - 1)" using "2.prems" by simp
  then have quo: "checked_div_i 128 (int c) 10 = Some (int (c div 10))"
    by (subst checked_div_i_nonneg) (simp_all add: zdiv_int)
  have "c div 10 < 2 ^ 127" using "2.prems" by (meson div_le_dividend le_less_trans)
  with "2.IH" rem quo show ?case by simp
qed

lemma convert_scaled_eq:
  assumes "c \<le> MAX_COEFFICIENT" and "s \<le> 6"
  shows "convert_scaled multiply (int c) s =
    Inr (if multiply \<and> s < 3 then (int (c * 10 ^ (3 - s)), 0)
         else if multiply then (int c, s - 3) else (int c, s + 3))"
proof -
  have "(10 :: int) ^ (3 - s) \<le> 10 ^ 3" by (intro power_increasing) auto
  then have p: "(10 :: int) ^ (3 - s) \<le> 1000" by simp
  have "c * 10 ^ (3 - s) \<le> MAX_COEFFICIENT * 10 ^ 3"
    using assms(1) by (intro mult_le_mono power_increasing) auto
  then have "int (c * 10 ^ (3 - s)) \<le> int (MAX_COEFFICIENT * 10 ^ 3)" by (rule of_nat_mono)
  then have "int c * 10 ^ (3 - s) \<le> 999999999999000" by (simp add: MAX_COEFFICIENT_def)
  with p assms(2) show ?thesis
    by (auto simp: convert_scaled_def checked_defs fits_i_def fits_u_def intro: order_trans [of _ 0])
qed

lemma strip_zeros_le: "coefficient (strip_zeros c s) \<le> c"
proof -
  have "coefficient (strip_zeros c s) * 1 \<le>
      coefficient (strip_zeros c s) * 10 ^ (s - scale (strip_zeros c s))"
    by (intro mult_le_mono) auto
  then show ?thesis by (simp only: strip_zeros_value)
qed

lemma strip_zeros_mono: "coefficient (strip_zeros c (s + k)) \<le> coefficient (strip_zeros c s)"
proof (induction c s rule: strip_zeros.induct)
  case (1 c)
  then show ?case using strip_zeros_le by simp
qed auto

text \<open>The tail of the conversion, from the scaled coefficient to the target quantity.\<close>

lemma convert_tail:
  assumes q: "wf_Decimal (qty_amount q)"
    and dir: "convert_direction (qty_unit q) target = Some multiply"
    and scaled: "convert_scaled multiply (int (coefficient (qty_amount q))) (scale (qty_amount q)) =
      Inr (int c, s)"
    and c: "c < 2 ^ 64"
  defines "d \<equiv> strip_zeros c s"
  shows "Quantity_convert q target =
    (if 6 < scale d then Inl PrecisionLoss
     else if MAX_COEFFICIENT < coefficient d then Inl (AmountFailure CoefficientOutOfRange)
     else Inr \<lparr>qty_amount = d, qty_unit = target\<rparr>)"
proof -
  have ne: "qty_unit q \<noteq> target" "target \<noteq> Each"
    using dir by (cases "qty_unit q"; cases target; simp)+
  have "c < 2 ^ 127" using c by simp
  note strip = convert_strip_eq [OF this, of s, folded d_def]
  have "coefficient d \<le> c" unfolding d_def by (rule strip_zeros_le)
  with c have u: "u64_try_from (int (coefficient d)) = Some (coefficient d)"
    by (simp add: u64_try_from_def)
  have "canonical_Decimal d" unfolding d_def by (rule strip_zeros_canonical)
  then have "Decimal_normalized (coefficient d) (scale d) = d" by (rule canonical_normalized)
  with ne strip u scaled dir show ?thesis
    by (simp add: Quantity_convert_def Decimal_from_parts_def MAX_SCALE_def Quantity_new_def)
qed

lemma convert_multiply:
  assumes q: "wf_Decimal (qty_amount q)"
    and dir: "convert_direction (qty_unit q) target = Some True"
  shows "Quantity_convert q target =
    (if representable (1000 * micros (qty_amount q))
     then Inr \<lparr>qty_amount = of_micros (1000 * micros (qty_amount q)), qty_unit = target\<rparr>
     else Inl (AmountFailure CoefficientOutOfRange))"
proof -
  let ?a = "qty_amount q"
  let ?c = "coefficient ?a" and ?s = "scale ?a"
  have cs: "?c \<le> MAX_COEFFICIENT" "?s \<le> 6" "?s = 0 \<or> ?c mod 10 \<noteq> 0"
    using q by (auto simp: wf_Decimal_def MAX_SCALE_def)
  show ?thesis
  proof (cases "?s < 3")
    case True
    let ?n = "?c * 10 ^ (3 - ?s)"
    have "?n \<le> MAX_COEFFICIENT * 10 ^ 3"
      using cs(1) by (intro mult_le_mono power_increasing) auto
    then have "?n < 2 ^ 64" by (simp add: MAX_COEFFICIENT_def)
    moreover have "convert_scaled True (int ?c) ?s = Inr (int ?n, 0)"
      using convert_scaled_eq [OF cs(1,2), of True] True by simp
    ultimately have eq: "Quantity_convert q target =
        (if MAX_COEFFICIENT < ?n then Inl (AmountFailure CoefficientOutOfRange)
         else Inr \<lparr>qty_amount = \<lparr>coefficient = ?n, scale = 0\<rparr>, qty_unit = target\<rparr>)"
      using convert_tail [OF q dir, of ?n 0] by simp
    have "6 - ?s + 3 = 3 - ?s + 6" using True by simp
    then have "(10 :: nat) ^ (6 - ?s) * 10 ^ 3 = 10 ^ (3 - ?s) * 10 ^ 6"
      by (simp only: power_add [symmetric])
    then have "1000 * micros ?a = ?n * 10 ^ (6 - 0)" by (simp add: micros_def)
    then have "of_micros (1000 * micros ?a) = Decimal_normalized ?n 0"
      by (simp only: normalized_of_micros)
    also have "\<dots> = \<lparr>coefficient = ?n, scale = 0\<rparr>"
      by (simp add: Decimal_normalized_def Decimal_ZERO_def)
    finally show ?thesis using eq by (simp add: representable_def not_le)
  next
    case False
    then have canon: "?c mod 10 \<noteq> 0" using cs(3) by simp
    have "convert_scaled True (int ?c) ?s = Inr (int ?c, ?s - 3)"
      using convert_scaled_eq [OF cs(1,2), of True] False by simp
    moreover have "?c < 2 ^ 64" using cs(1) by (simp add: MAX_COEFFICIENT_def)
    ultimately have eq: "Quantity_convert q target =
        Inr \<lparr>qty_amount = \<lparr>coefficient = ?c, scale = ?s - 3\<rparr>, qty_unit = target\<rparr>"
      using convert_tail [OF q dir, of ?c "?s - 3"] canon cs(1,2) by (simp add: strip_zeros_id)
    have "6 - ?s + 3 = 6 - (?s - 3)" using False cs(2) by simp
    then have "(10 :: nat) ^ (6 - ?s) * 10 ^ 3 = 10 ^ (6 - (?s - 3))"
      by (simp only: power_add [symmetric])
    then have m: "1000 * micros ?a = micros \<lparr>coefficient = ?c, scale = ?s - 3\<rparr>"
      by (simp add: micros_def)
    have wf: "wf_Decimal \<lparr>coefficient = ?c, scale = ?s - 3\<rparr>"
      using cs canon by (simp add: wf_Decimal_def MAX_SCALE_def)
    have "representable (1000 * micros ?a)"
      unfolding m using wf representable_iff by blast
    then show ?thesis using eq unfolding m by (simp add: of_micros_micros [OF wf])
  qed
qed

lemma convert_divide:
  assumes q: "wf_Decimal (qty_amount q)"
    and dir: "convert_direction (qty_unit q) target = Some False"
  shows "Quantity_convert q target =
    (if 1000 dvd micros (qty_amount q)
     then Inr \<lparr>qty_amount = of_micros (micros (qty_amount q) div 1000), qty_unit = target\<rparr>
     else Inl PrecisionLoss)"
proof -
  let ?a = "qty_amount q"
  let ?c = "coefficient ?a" and ?s = "scale ?a"
  define d where "d = strip_zeros ?c (?s + 3)"
  have cs: "?c \<le> MAX_COEFFICIENT" "?s \<le> 6" using q by (auto simp: wf_Decimal_def MAX_SCALE_def)
  have le: "coefficient d \<le> MAX_COEFFICIENT"
    using strip_zeros_le [of ?c "?s + 3"] cs(1) by (simp add: d_def)
  have "convert_scaled False (int ?c) ?s = Inr (int ?c, ?s + 3)"
    using convert_scaled_eq [OF cs, of False] by simp
  moreover have "?c < 2 ^ 64" using cs(1) by (simp add: MAX_COEFFICIENT_def)
  ultimately have eq: "Quantity_convert q target =
      (if 6 < scale d then Inl PrecisionLoss
       else Inr \<lparr>qty_amount = d, qty_unit = target\<rparr>)"
    using convert_tail [OF q dir, of ?c "?s + 3"] le by (simp add: d_def)
  have canon: "scale d = 0 \<or> coefficient d mod 10 \<noteq> 0"
    using strip_zeros_canonical [of ?c "?s + 3"] by (simp add: d_def canonical_Decimal_def)
  have sd: "scale d \<le> ?s + 3" unfolding d_def by (rule strip_zeros_scale)
  have m: "micros ?a = coefficient d * 10 ^ (9 - scale d)"
  proof -
    have "?s + 3 - scale d + (6 - ?s) = 9 - scale d" using sd cs(2) by simp
    then have "coefficient d * 10 ^ (?s + 3 - scale d) * 10 ^ (6 - ?s) =
        coefficient d * 10 ^ (9 - scale d)"
      by (simp only: mult.assoc power_add [symmetric])
    then show ?thesis unfolding d_def by (simp only: strip_zeros_value micros_def)
  qed
  show ?thesis
  proof (cases "scale d \<le> 6")
    case True
    then have "9 - scale d = 6 - scale d + 3" by simp
    then have "(10 :: nat) ^ (9 - scale d) = 10 ^ (6 - scale d) * 10 ^ 3" by (simp only: power_add)
    then have m2: "micros ?a = micros d * 1000" unfolding m micros_def [of d] by simp
    have "wf_Decimal d" using le True canon by (simp add: wf_Decimal_def MAX_SCALE_def)
    then show ?thesis using True eq by (simp add: m2 of_micros_micros)
  next
    case False
    then have "coefficient d mod 10 \<noteq> 0" using canon by auto
    moreover have "9 - scale d = 0 \<or> 9 - scale d = 1 \<or> 9 - scale d = 2" using False by arith
    ultimately have "\<not> 1000 dvd micros ?a"
      unfolding m by (elim disjE) (auto simp: dvd_def mod_eq_0_iff_dvd)
    then show ?thesis using False eq by simp
  qed
qed

lemma convert_divide_wf:
  assumes "wf_Decimal a" and "1000 dvd micros a"
  shows "wf_Decimal (of_micros (micros a div 1000))"
proof -
  obtain k where k: "micros a = 1000 * k" using assms(2) by blast
  have "of_micros (micros a) = Decimal_normalized (k * 10 ^ 3) (3 + 3)"
    by (simp add: k of_micros_def mult.commute)
  also have "\<dots> = Decimal_normalized k 3" by (rule normalized_shift)
  finally have a: "Decimal_normalized k 3 = a" using of_micros_micros [OF assms(1)] by simp
  have "coefficient (Decimal_normalized k 6) \<le> coefficient (Decimal_normalized k 3)"
    using strip_zeros_mono [of k 3 3] by (simp add: Decimal_normalized_def)
  then have "representable k"
    using assms(1) by (simp add: representable_def of_micros_def a wf_Decimal_def)
  then show ?thesis using wf_of_micros by (simp add: k)
qed

lemma Quantity_convert_spec:
  assumes "wf_Quantity q"
  shows "Quantity_convert q target =
    (if qty_unit q = target then Inr q
     else case convert_direction (qty_unit q) target of
       None \<Rightarrow> Inl IncompatibleDimension
     | Some True \<Rightarrow>
         if representable (1000 * micros (qty_amount q))
         then Inr \<lparr>qty_amount = of_micros (1000 * micros (qty_amount q)), qty_unit = target\<rparr>
         else Inl (AmountFailure CoefficientOutOfRange)
     | Some False \<Rightarrow>
         if 1000 dvd micros (qty_amount q)
         then Inr \<lparr>qty_amount = of_micros (micros (qty_amount q) div 1000), qty_unit = target\<rparr>
         else Inl PrecisionLoss)"
proof (cases "qty_unit q = target")
  case True
  then show ?thesis by (simp add: Quantity_convert_def)
next
  case False
  have wf: "wf_Decimal (qty_amount q)" using assms by (simp add: wf_Quantity_def)
  show ?thesis
  proof (cases "convert_direction (qty_unit q) target")
    case None
    with False show ?thesis by (simp add: Quantity_convert_def)
  next
    case (Some m)
    with False convert_multiply [OF wf, of target] convert_divide [OF wf, of target]
    show ?thesis by (cases m) auto
  qed
qed

section \<open>Abstract measures\<close>

text \<open>
  The contract of conversion: a unit has a dimension and counts a number of base units
  (grams, millilitres, pieces); a conversion keeps the base value exactly.
\<close>

datatype dimension = Mass | Volume | Count

fun dimension_of :: "MeasurementUnit \<Rightarrow> dimension" where
  "dimension_of Gram = Mass"
| "dimension_of Kilogram = Mass"
| "dimension_of Millilitre = Volume"
| "dimension_of Litre = Volume"
| "dimension_of Each = Count"

fun base_factor :: "MeasurementUnit \<Rightarrow> nat" where
  "base_factor Kilogram = 1000"
| "base_factor Litre = 1000"
| "base_factor _ = 1"

definition base_value :: "Quantity \<Rightarrow> nat" where
  "base_value q = base_factor (qty_unit q) * micros (qty_amount q)"

lemma direction_None:
  "convert_direction u t = None \<longleftrightarrow> u = t \<or> dimension_of u \<noteq> dimension_of t"
  by (cases u; cases t; simp)

lemma direction_True:
  assumes "convert_direction u t = Some True"
  shows "base_factor u = 1000" and "base_factor t = 1" and "t \<noteq> Each" and "u \<noteq> Each"
    and "convert_direction t u = Some False" and "dimension_of u = dimension_of t" and "u \<noteq> t"
  using assms by (cases u; cases t; simp)+

lemma direction_False:
  assumes "convert_direction u t = Some False"
  shows "base_factor u = 1" and "base_factor t = 1000" and "t \<noteq> Each" and "u \<noteq> Each"
    and "convert_direction t u = Some True" and "dimension_of u = dimension_of t" and "u \<noteq> t"
  using assms by (cases u; cases t; simp)+

lemma convert_exact_Inr:
  assumes q: "wf_Quantity q" and r: "Quantity_convert q t = Inr r"
  shows "wf_Quantity r \<and> qty_unit r = t \<and> dimension_of t = dimension_of (qty_unit q)
    \<and> base_value r = base_value q \<and> Quantity_convert r (qty_unit q) = Inr q"
proof (cases "qty_unit q = t")
  case True
  then show ?thesis using q r by (auto simp: Quantity_convert_def)
next
  case False
  let ?m = "micros (qty_amount q)"
  have wf: "wf_Decimal (qty_amount q)" using q by (simp add: wf_Quantity_def)
  from False r obtain m where m: "convert_direction (qty_unit q) t = Some m"
    by (cases "convert_direction (qty_unit q) t") (auto simp: Quantity_convert_def)
  show ?thesis
  proof (cases m)
    case True
    then have m': "convert_direction (qty_unit q) t = Some True" using m by simp
    note d = direction_True [OF m']
    have rep: "representable (1000 * ?m)"
      and r': "r = \<lparr>qty_amount = of_micros (1000 * ?m), qty_unit = t\<rparr>"
      using r convert_multiply [OF wf m'] by (auto split: if_splits)
    have wr: "wf_Quantity r" using wf_of_micros [OF rep] d(3) by (simp add: r' wf_Quantity_def)
    moreover have "Quantity_convert r (qty_unit q) = Inr q"
      using convert_divide [of r "qty_unit q"] wr d(5)
      by (simp add: r' wf_Quantity_def of_micros_micros [OF wf])
    ultimately show ?thesis using d by (simp add: r' base_value_def)
  next
    case False
    then have m': "convert_direction (qty_unit q) t = Some False" using m by simp
    note d = direction_False [OF m']
    have dvd: "1000 dvd ?m" and r': "r = \<lparr>qty_amount = of_micros (?m div 1000), qty_unit = t\<rparr>"
      using r convert_divide [OF wf m'] by (auto split: if_splits)
    have rep: "representable ?m" using wf representable_iff by blast
    have wr: "wf_Decimal (of_micros (?m div 1000))"
      using convert_divide_wf [OF wf dvd] .
    moreover have "Quantity_convert r (qty_unit q) = Inr q"
      using convert_multiply [of r "qty_unit q"] wr d(5) rep dvd
      by (simp add: r' of_micros_micros [OF wf])
    ultimately show ?thesis using d dvd by (simp add: r' base_value_def wf_Quantity_def)
  qed
qed

lemma convert_exact_Inl:
  assumes q: "wf_Quantity q" and e: "Quantity_convert q t = Inl e"
  shows "if dimension_of t \<noteq> dimension_of (qty_unit q) then e = IncompatibleDimension
    else e \<in> {PrecisionLoss, AmountFailure CoefficientOutOfRange}
      \<and> \<not> (\<exists>r. wf_Quantity r \<and> qty_unit r = t \<and> base_value r = base_value q)"
proof -
  let ?m = "micros (qty_amount q)"
  have wf: "wf_Decimal (qty_amount q)" using q by (simp add: wf_Quantity_def)
  have ne: "qty_unit q \<noteq> t" using e by (auto simp: Quantity_convert_def)
  show ?thesis
  proof (cases "convert_direction (qty_unit q) t")
    case None
    with ne e show ?thesis by (auto simp: direction_None Quantity_convert_def)
  next
    case (Some m)
    show ?thesis
    proof (cases m)
      case True
      then have m': "convert_direction (qty_unit q) t = Some True" using Some by simp
      have "\<not> representable (1000 * ?m)" and "e = AmountFailure CoefficientOutOfRange"
        using e convert_multiply [OF wf m'] by (auto split: if_splits)
      then show ?thesis
        using direction_True [OF m'] by (auto simp: base_value_def representable_iff wf_Quantity_def)
    next
      case False
      then have m': "convert_direction (qty_unit q) t = Some False" using Some by simp
      have "\<not> 1000 dvd ?m" and "e = PrecisionLoss"
        using e convert_divide [OF wf m'] by (auto split: if_splits)
      then show ?thesis
        using direction_False [OF m'] by (auto simp: base_value_def dest: sym [of "1000 * _"])
    qed
  qed
qed

lemma scale_le_iff:
  assumes wf: "wf_Decimal d" and k: "k \<le> 6"
  shows "scale d \<le> k \<longleftrightarrow> 10 ^ (6 - k) dvd micros d"
proof (cases "scale d \<le> k")
  case True
  then have "(10 :: nat) ^ (6 - k) dvd 10 ^ (6 - scale d)" by (intro le_imp_power_dvd) simp
  with True show ?thesis by (simp add: micros_def)
next
  case False
  then have s: "k < scale d" "scale d \<le> 6" "coefficient d mod 10 \<noteq> 0"
    using wf by (auto simp: wf_Decimal_def MAX_SCALE_def)
  have "\<not> 10 ^ (6 - k) dvd micros d"
  proof
    assume "10 ^ (6 - k) dvd micros d"
    moreover have "6 - k = (scale d - k) + (6 - scale d)" using s by simp
    ultimately have "10 ^ (scale d - k) * 10 ^ (6 - scale d) dvd coefficient d * 10 ^ (6 - scale d)"
      by (simp only: micros_def power_add)
    then have "10 ^ (scale d - k) dvd coefficient d" by simp
    moreover have "(10 :: nat) dvd 10 ^ (scale d - k)" using s(1) by (intro dvd_power disjI1) simp
    ultimately have "10 dvd coefficient d" by (rule dvd_trans [rotated])
    with s(3) show False by (simp add: mod_eq_0_iff_dvd)
  qed
  with False show ?thesis by simp
qed

lemma integral_iff: "wf_Decimal d \<Longrightarrow> scale d = 0 \<longleftrightarrow> 10 ^ 6 dvd micros d"
  using scale_le_iff [of d 0] by simp

lemma integral_of_micros:
  assumes "representable n" and "10 ^ 6 dvd n"
  shows "scale (of_micros n) = 0"
  using integral_iff [OF wf_of_micros [OF assms(1)]] assms(2) by simp

section \<open>Properties\<close>

text \<open>C31: converting a quantity keeps its value exactly, expressed in the base unit of its
  dimension, and converting back returns the original. It fails only across dimensions, or
  when no admitted quantity in the target unit has that value.\<close>

theorem Quantity_convert_exact:
  assumes "wf_Quantity q"
  shows "case Quantity_convert q t of
      Inr r \<Rightarrow> wf_Quantity r \<and> qty_unit r = t \<and> dimension_of t = dimension_of (qty_unit q)
        \<and> base_value r = base_value q \<and> Quantity_convert r (qty_unit q) = Inr q
    | Inl e \<Rightarrow> if dimension_of t \<noteq> dimension_of (qty_unit q) then e = IncompatibleDimension
        else e \<in> {PrecisionLoss, AmountFailure CoefficientOutOfRange}
          \<and> \<not> (\<exists>r. wf_Quantity r \<and> qty_unit r = t \<and> base_value r = base_value q)"
proof (cases "Quantity_convert q t")
  case (Inl e)
  from convert_exact_Inl [OF assms this] Inl show ?thesis by simp
next
  case (Inr r)
  from convert_exact_Inr [OF assms this] Inr show ?thesis by simp
qed

theorem Quantity_convert_exact_witness:
  "Quantity_convert \<lparr>qty_amount = \<lparr>coefficient = 15, scale = 1\<rparr>, qty_unit = Kilogram\<rparr> Gram =
      Inr \<lparr>qty_amount = \<lparr>coefficient = 1500, scale = 0\<rparr>, qty_unit = Gram\<rparr>
    \<and> Quantity_convert \<lparr>qty_amount = \<lparr>coefficient = 1500, scale = 0\<rparr>, qty_unit = Gram\<rparr> Kilogram =
      Inr \<lparr>qty_amount = \<lparr>coefficient = 15, scale = 1\<rparr>, qty_unit = Kilogram\<rparr>"
proof -
  let ?q = "\<lparr>qty_amount = \<lparr>coefficient = 15, scale = 1\<rparr>, qty_unit = Kilogram\<rparr>"
  have "wf_Quantity ?q" by code_simp
  moreover have "Quantity_convert ?q Gram =
      Inr \<lparr>qty_amount = \<lparr>coefficient = 1500, scale = 0\<rparr>, qty_unit = Gram\<rparr>" by code_simp
  ultimately show ?thesis using Quantity_convert_exact [of ?q Gram] by simp
qed

text \<open>Quantities add and subtract exactly in one unit and never across units, even
  compatible ones; counts stay integral, so \<open>FractionalCount\<close> is never an outcome.\<close>

theorem Quantity_arithmetic_exact:
  assumes "wf_Quantity a" and "wf_Quantity b"
  shows "Quantity_checked_add a b =
      (if qty_unit a \<noteq> qty_unit b then Inl UnitMismatch
       else if representable (micros (qty_amount a) + micros (qty_amount b))
         then Inr \<lparr>qty_amount = of_micros (micros (qty_amount a) + micros (qty_amount b)),
                    qty_unit = qty_unit a\<rparr>
       else Inl (AmountFailure CoefficientOutOfRange))
    \<and> Quantity_checked_sub a b =
      (if qty_unit a \<noteq> qty_unit b then Inl UnitMismatch
       else if micros (qty_amount a) < micros (qty_amount b) then Inl (AmountFailure NegativeResult)
       else if representable (micros (qty_amount a) - micros (qty_amount b))
         then Inr \<lparr>qty_amount = of_micros (micros (qty_amount a) - micros (qty_amount b)),
                    qty_unit = qty_unit a\<rparr>
       else Inl (AmountFailure CoefficientOutOfRange))"
proof -
  have wf: "wf_Decimal (qty_amount a)" "wf_Decimal (qty_amount b)"
    using assms by (simp_all add: wf_Quantity_def)
  have "Quantity_new (of_micros n) (qty_unit a) = Inr \<lparr>qty_amount = of_micros n, qty_unit = qty_unit a\<rparr>"
    if "qty_unit a = qty_unit b" "representable n"
      and n: "n = micros (qty_amount a) + micros (qty_amount b) \<or> n = micros (qty_amount a) - micros (qty_amount b)"
    for n
  proof (cases "qty_unit a = Each")
    case True
    then have "10 ^ 6 dvd micros (qty_amount a)" "10 ^ 6 dvd micros (qty_amount b)"
      using assms that(1) integral_iff wf by (simp_all add: wf_Quantity_def)
    then have "10 ^ 6 dvd n" using n by (auto intro: dvd_diff_nat)
    then show ?thesis using integral_of_micros [OF that(2)] by (simp add: Quantity_new_def)
  qed (simp add: Quantity_new_def)
  then show ?thesis
    by (auto simp: Quantity_checked_add_def Quantity_checked_sub_def checked_add_spec [OF wf]
        checked_sub_spec [OF wf])
qed

theorem Quantity_arithmetic_exact_witness:
  "Quantity_checked_add \<lparr>qty_amount = \<lparr>coefficient = 3, scale = 0\<rparr>, qty_unit = Each\<rparr>
      \<lparr>qty_amount = \<lparr>coefficient = 4, scale = 0\<rparr>, qty_unit = Each\<rparr> =
    Inr \<lparr>qty_amount = \<lparr>coefficient = 7, scale = 0\<rparr>, qty_unit = Each\<rparr>"
proof -
  let ?a = "\<lparr>qty_amount = \<lparr>coefficient = 3, scale = 0\<rparr>, qty_unit = Each\<rparr>"
  let ?b = "\<lparr>qty_amount = \<lparr>coefficient = 4, scale = 0\<rparr>, qty_unit = Each\<rparr>"
  have "wf_Quantity ?a" and "wf_Quantity ?b" by code_simp+
  moreover have "representable (micros (qty_amount ?a) + micros (qty_amount ?b))"
    and "of_micros (micros (qty_amount ?a) + micros (qty_amount ?b)) = \<lparr>coefficient = 7, scale = 0\<rparr>"
    by code_simp+
  ultimately show ?thesis using Quantity_arithmetic_exact [of ?a ?b] by simp
qed

end
