(* ===== verification/Identity_Key.thy ===== *)
theory Identity_Key
  imports Identifier
begin

text \<open>
  Public keys and identity identifiers of \<open>crates/identity/src/key.rs\<close>. The curve check of
  the \<open>k256\<close> crate is the parameter \<open>from_sec1_bytes\<close>, a predicate on the 33 compressed bytes;
  nothing is assumed of it. Unlike the domain identifiers, the parser also accepts uppercase
  hexadecimal, and the rendering is the lowercase canonical form.
\<close>

section \<open>Definitions\<close>

text \<open>The length errors carry the expected and the actual length.\<close>

datatype IdentityError =
    InvalidByteLength nat nat
  | InvalidHexLength nat nat
  | InvalidHexCharacter nat
  | InvalidPublicKeyBytes

definition IDENTIFIER_BYTE_LENGTH :: nat where
  "IDENTIFIER_BYTE_LENGTH = 32"

definition IDENTIFIER_HEX_LENGTH :: nat where
  "IDENTIFIER_HEX_LENGTH = IDENTIFIER_BYTE_LENGTH * 2"

datatype PublicKey_tag = PublicKey_tag
datatype IdentityId_tag = IdentityId_tag

type_synonym PublicKey = "PublicKey_tag id32"
type_synonym IdentityId = "IdentityId_tag id32"

definition HEX_ALPHABET :: string where
  "HEX_ALPHABET = ''0123456789abcdef''"

text \<open>Each byte fills the positions \<open>2 * index\<close> and \<open>2 * index + 1\<close> of the output.\<close>

definition EncodedHex_new :: "8 word list \<Rightarrow> string" where
  "EncodedHex_new bs =
     concat (map (\<lambda>b. [HEX_ALPHABET ! unat (drop_bit 4 b), HEX_ALPHABET ! unat (and b 15)]) bs)"

definition decode_nibble :: "char \<Rightarrow> nat \<Rightarrow> IdentityError + 8 word" where
  "decode_nibble byte ix =
     (if 48 \<le> byte_of byte \<and> byte_of byte \<le> 57 then Inr (of_nat (byte_of byte - 48))
      else if 97 \<le> byte_of byte \<and> byte_of byte \<le> 102 then Inr (of_nat (byte_of byte - 97 + 10))
      else if 65 \<le> byte_of byte \<and> byte_of byte \<le> 70 then Inr (of_nat (byte_of byte - 65 + 10))
      else Inl (InvalidHexCharacter ix))"

text \<open>The loop over the output bytes: \<open>count\<close> of them remain, \<open>ix\<close> is the next one.\<close>

fun parse_hex_from :: "string \<Rightarrow> nat \<Rightarrow> nat \<Rightarrow> IdentityError + 8 word list" where
  "parse_hex_from encoded ix 0 = Inr []"
| "parse_hex_from encoded ix (Suc count) =
     bindE (decode_nibble (encoded ! (ix * 2)) (ix * 2)) (\<lambda>high.
     bindE (decode_nibble (encoded ! (ix * 2 + 1)) (ix * 2 + 1)) (\<lambda>low.
       map_ok (\<lambda>bs. or (push_bit 4 high) low # bs) (parse_hex_from encoded (Suc ix) count)))"

definition parse_hex :: "string \<Rightarrow> IdentityError + 8 word list" where
  "parse_hex value =
     (if length value \<noteq> IDENTIFIER_HEX_LENGTH
      then Inl (InvalidHexLength IDENTIFIER_HEX_LENGTH (length value))
      else parse_hex_from value 0 IDENTIFIER_BYTE_LENGTH)"

definition validate_public_key_bytes ::
  "(8 word list \<Rightarrow> bool) \<Rightarrow> 8 word list \<Rightarrow> IdentityError + unit" where
  "validate_public_key_bytes from_sec1_bytes bs =
     (if from_sec1_bytes (2 # bs) then Inr () else Inl InvalidPublicKeyBytes)"

definition key_from_bytes ::
  "(8 word list \<Rightarrow> bool) \<Rightarrow> 8 word list \<Rightarrow> IdentityError + 'k id32" where
  "key_from_bytes from_sec1_bytes bs =
     bindE (validate_public_key_bytes from_sec1_bytes bs) (\<lambda>_. Inr (Id32 bs))"

definition key_from_slice ::
  "(8 word list \<Rightarrow> bool) \<Rightarrow> 8 word list \<Rightarrow> IdentityError + 'k id32" where
  "key_from_slice from_sec1_bytes bs =
     (if length bs \<noteq> IDENTIFIER_BYTE_LENGTH
      then Inl (InvalidByteLength IDENTIFIER_BYTE_LENGTH (length bs))
      else key_from_bytes from_sec1_bytes bs)"

definition key_from_hex ::
  "(8 word list \<Rightarrow> bool) \<Rightarrow> string \<Rightarrow> IdentityError + 'k id32" where
  "key_from_hex from_sec1_bytes value =
     bindE (parse_hex value) (key_from_bytes from_sec1_bytes)"

definition key_to_hex :: "'k id32 \<Rightarrow> string" where
  "key_to_hex x = EncodedHex_new (id_bytes x)"

definition IdentityId_from_public_key :: "PublicKey \<Rightarrow> IdentityId" where
  "IdentityId_from_public_key public_key = Id32 (id_bytes public_key)"

text \<open>The invariant of both types: 32 bytes that the curve check accepts.\<close>

definition wf_key :: "(8 word list \<Rightarrow> bool) \<Rightarrow> 'k id32 \<Rightarrow> bool" where
  "wf_key from_sec1_bytes x \<longleftrightarrow> wf_id x \<and> from_sec1_bytes (2 # id_bytes x)"

section \<open>Encoding agrees with the domain identifiers\<close>

lemma alphabet_nth:
  assumes "n < (16 :: 8 word)"
  shows "HEX_ALPHABET ! unat n = hex_digit n"
proof -
  have "unat n < 16" using assms by (simp add: word_less_nat_alt)
  moreover have "\<forall>m\<in>set [0..<16]. HEX_ALPHABET ! m =
      (if m < 10 then char_of (48 + m) else char_of (87 + m))"
    by code_simp
  ultimately have "HEX_ALPHABET ! unat n =
      (if unat n < 10 then char_of (48 + unat n) else char_of (87 + unat n))"
    by simp
  then show ?thesis by (simp add: hex_digit_def word_less_nat_alt)
qed

lemma key_to_hex_eq: "key_to_hex x = id_to_string x"
  by (simp add: key_to_hex_def id_to_string_def EncodedHex_new_def hex_byte_def [abs_def]
      alphabet_nth hex_nibbles)

definition to_ascii_lowercase :: "char \<Rightarrow> char" where
  "to_ascii_lowercase c = (if is_ascii_uppercase c then char_of (byte_of c + 32) else c)"

lemma decode_nibble_Inr:
  "decode_nibble c ix = Inr n \<longleftrightarrow> nibble (to_ascii_lowercase c) = Inr n"
proof -
  have "byte_of c < 256" by (simp add: byte_of_def)
  then show ?thesis
    by (auto simp: decode_nibble_def nibble_def to_ascii_lowercase_def is_ascii_uppercase_def
        byte_of_def)
qed

lemma parse_hex_from_Inr:
  assumes "2 * (ix + count) = length s"
  shows "parse_hex_from s ix count = Inr bs \<longleftrightarrow>
    parse_pairs (map to_ascii_lowercase (drop (2 * ix) s)) = Inr bs"
  using assms
proof (induction count arbitrary: ix bs)
  case 0
  then show ?case by simp
next
  case (Suc count)
  then have "drop (2 * ix) s = s ! (2 * ix) # s ! (2 * ix + 1) # drop (2 * Suc ix) s"
    by (simp add: Cons_nth_drop_Suc)
  moreover have "2 * (Suc ix + count) = length s" using Suc.prems by simp
  ultimately show ?case
    using Suc.IH [of "Suc ix"]
    by (simp add: result_simps decode_nibble_Inr mult.commute)
qed

lemma parse_hex_Inr:
  "parse_hex s = Inr bs \<longleftrightarrow> parse_bytes (map to_ascii_lowercase s) = Inr bs"
  using parse_hex_from_Inr [of 0 32 s bs]
  by (auto simp: parse_hex_def parse_bytes_def IDENTIFIER_HEX_LENGTH_def IDENTIFIER_BYTE_LENGTH_def)

lemma parse_bytes_Inr:
  "parse_bytes s = Inr bs \<longleftrightarrow> length bs = 32 \<and> concat (map hex_byte bs) = s"
  using render_parse_pairs [of s bs] parse_pairs_render [of bs] length_render [of bs]
  by (auto simp: parse_bytes_def)

section \<open>Key laws\<close>

lemma key_from_bytes_Inr [result_simps]:
  "key_from_bytes p bs = Inr x \<longleftrightarrow> p (2 # bs) \<and> x = Id32 bs"
  by (auto simp: key_from_bytes_def validate_public_key_bytes_def result_simps)

lemma key_from_hex_Inr:
  "key_from_hex p s = Inr x \<longleftrightarrow> wf_key p x \<and> id_to_string x = map to_ascii_lowercase s"
  by (cases x) (auto simp: key_from_hex_def result_simps parse_hex_Inr parse_bytes_Inr
      wf_key_def wf_id_def id_to_string_def)

lemma lower_hex_digit: "n < 16 \<Longrightarrow> to_ascii_lowercase (hex_digit n) = hex_digit n"
  by (auto simp: to_ascii_lowercase_def is_ascii_uppercase_def hex_digit_def byte_of_def
      word_less_nat_alt)

lemma lower_id_to_string: "map to_ascii_lowercase (id_to_string x) = id_to_string x"
  by (simp add: id_to_string_def map_concat hex_byte_def [abs_def] comp_def lower_hex_digit
      hex_nibbles)

lemma key_from_hex_to_hex: "wf_key p x \<Longrightarrow> key_from_hex p (key_to_hex x) = Inr x"
  by (simp add: key_from_hex_Inr key_to_hex_eq lower_id_to_string)

section \<open>Properties\<close>

text \<open>Hexadecimal public keys are accepted in either letter case, and exactly when their
  lowercase form is the canonical rendering of a 32-byte value on which the curve check
  succeeds; the value returned renders to that lowercase form.\<close>

theorem key_from_hex_canonicalises:
  "key_from_hex from_sec1_bytes s = Inr x \<longleftrightarrow>
    length (id_bytes x) = 32 \<and> from_sec1_bytes (2 # id_bytes x)
    \<and> key_to_hex x = map to_ascii_lowercase s"
  by (simp add: key_from_hex_Inr wf_key_def wf_id_def key_to_hex_eq)

end
