(* ===== verification/Descriptors.thy ===== *)
theory Descriptors
  imports Identity_Key
begin

text \<open>
  Captured-context values of \<open>crates/domain/src/context.rs\<close>, \<open>issuance.rs\<close>, \<open>time.rs\<close> and
  \<open>message.rs\<close>: bounded integers with canonical decimal strings, checkpoint and approval
  descriptors, the first-issue interval, absolute windows and logical chat messages. The
  time zone database crate is a pair of parameters.
\<close>

section \<open>Exact integers\<close>

datatype ContextError =
    InvalidInteger
  | OutOfRange
  | InvalidText
  | TooManyReferences
  | InconsistentCoverage

definition MAX_SEQUENCE :: nat where
  "MAX_SEQUENCE = 9223372036854775807"

definition MAX_UNIX_SECONDS :: nat where
  "MAX_UNIX_SECONDS = 253402300799"

definition MAX_MISSING :: nat where
  "MAX_MISSING = 128"

definition integer_parse :: "string \<Rightarrow> u64 \<Rightarrow> bool \<Rightarrow> ContextError + u64" where
  "integer_parse v mx positive =
     (if v = [] \<or> 20 < length v \<or> (1 < length v \<and> starts_with (CHR ''0'') v)
         \<or> \<not> (\<forall>b\<in>set v. is_ascii_digit b)
      then Inl InvalidInteger
      else bindE (ok_or OutOfRange (parse_digits 64 v)) (\<lambda>number.
        if mx < number \<or> (positive \<and> number = 0) then Inl OutOfRange else Inr number))"

definition exact_integer_new :: "u64 \<Rightarrow> bool \<Rightarrow> u64 \<Rightarrow> ContextError + u64" where
  "exact_integer_new mx positive v =
     (if mx < v \<or> (positive \<and> v = 0) then Inl OutOfRange else Inr v)"

text \<open>The three uses of the \<open>exact_integer!\<close> macro.\<close>

datatype Sequence = Sequence (sequence_get: u64)
datatype Generation = Generation (generation_get: u64)
datatype UnixSeconds = UnixSeconds (seconds_get: u64)

definition Sequence_new :: "u64 \<Rightarrow> ContextError + Sequence" where
  "Sequence_new v = map_ok Sequence (exact_integer_new MAX_SEQUENCE False v)"

definition Sequence_from_str :: "string \<Rightarrow> ContextError + Sequence" where
  "Sequence_from_str v = map_ok Sequence (integer_parse v MAX_SEQUENCE False)"

definition Generation_new :: "u64 \<Rightarrow> ContextError + Generation" where
  "Generation_new v = map_ok Generation (exact_integer_new MAX_SEQUENCE True v)"

definition Generation_from_str :: "string \<Rightarrow> ContextError + Generation" where
  "Generation_from_str v = map_ok Generation (integer_parse v MAX_SEQUENCE True)"

definition UnixSeconds_new :: "u64 \<Rightarrow> ContextError + UnixSeconds" where
  "UnixSeconds_new v = map_ok UnixSeconds (exact_integer_new MAX_UNIX_SECONDS False v)"

definition UnixSeconds_from_str :: "string \<Rightarrow> ContextError + UnixSeconds" where
  "UnixSeconds_from_str v = map_ok UnixSeconds (integer_parse v MAX_UNIX_SECONDS False)"

definition wf_Sequence :: "Sequence \<Rightarrow> bool" where
  "wf_Sequence s \<longleftrightarrow> sequence_get s \<le> MAX_SEQUENCE"

definition wf_Generation :: "Generation \<Rightarrow> bool" where
  "wf_Generation g \<longleftrightarrow> 0 < generation_get g \<and> generation_get g \<le> MAX_SEQUENCE"

definition wf_UnixSeconds :: "UnixSeconds \<Rightarrow> bool" where
  "wf_UnixSeconds t \<longleftrightarrow> seconds_get t \<le> MAX_UNIX_SECONDS"

section \<open>Context descriptors\<close>

datatype ActorRole = Seller | Buyer | Coordinator

record ActorRef =
  ar_participant :: PublicKey
  ar_role :: ActorRole
  ar_organization :: "PublicKey option"
  ar_grant_id :: "GrantId option"

record AuthorityRef =
  auth_executor_id :: ExecutorId
  auth_generation :: Generation

datatype Coverage = Partial | ScopeSatisfied

record CheckpointRef =
  ck_digest :: CheckpointDigest
  ck_sequence :: Sequence
  ck_coverage :: Coverage
  ck_missing :: "SourceId list"

definition CheckpointRef_new ::
  "CheckpointDigest \<Rightarrow> Sequence \<Rightarrow> Coverage \<Rightarrow> SourceId list \<Rightarrow> ContextError + CheckpointRef" where
  "CheckpointRef_new digest sequence coverage missing =
     (if MAX_MISSING < length missing then Inl TooManyReferences
      else if coverage = ScopeSatisfied \<and> missing \<noteq> [] then Inl InconsistentCoverage
      else Inr \<lparr>ck_digest = digest, ck_sequence = sequence, ck_coverage = coverage,
                ck_missing = missing\<rparr>)"

datatype CorrelationId = CorrelationId (correlation_str: string)

definition CorrelationId_new :: "string \<Rightarrow> ContextError + CorrelationId" where
  "CorrelationId_new v =
     (if 128 < length v \<or> has_control v then Inl InvalidText else Inr (CorrelationId v))"

record Approval =
  ap_intent_digest :: ApprovalIntentDigest
  ap_scope :: string
  ap_expires_at :: UnixSeconds

definition Approval_new ::
  "ApprovalIntentDigest \<Rightarrow> string \<Rightarrow> UnixSeconds \<Rightarrow> ContextError + Approval" where
  "Approval_new intent_digest scope expires_at =
     (if scope = [] \<or> 160 < length scope \<or> has_control scope then Inl InvalidText
      else if seconds_get expires_at = 0 then Inl OutOfRange
      else Inr \<lparr>ap_intent_digest = intent_digest, ap_scope = scope, ap_expires_at = expires_at\<rparr>)"

record ExpectedOrder =
  eo_order_id :: OrderId
  eo_agreement :: "RecordId option"
  eo_seller_sequence :: Sequence
  eo_buyer_head :: "RecordId option"
  eo_checkpoint :: CheckpointRef

record CommandContextData =
  cc_operation_id :: OperationId
  cc_actor :: ActorRef
  cc_workspace_id :: WorkspaceId
  cc_authority :: AuthorityRef
  cc_route_digest :: RouteDigest
  cc_approval :: "Approval option"
  cc_expected :: "ExpectedOrder option"
  cc_not_after :: UnixSeconds
  cc_correlation_id :: "CorrelationId option"

definition CommandContextData_new ::
  "OperationId \<Rightarrow> ActorRef \<Rightarrow> WorkspaceId \<Rightarrow> AuthorityRef \<Rightarrow> RouteDigest \<Rightarrow> Approval option
    \<Rightarrow> ExpectedOrder option \<Rightarrow> UnixSeconds \<Rightarrow> CorrelationId option
    \<Rightarrow> ContextError + CommandContextData" where
  "CommandContextData_new operation_id actor workspace_id authority route_digest approval expected
      not_after correlation_id =
     (if seconds_get not_after = 0 then Inl OutOfRange
      else Inr \<lparr>cc_operation_id = operation_id, cc_actor = actor, cc_workspace_id = workspace_id,
                cc_authority = authority, cc_route_digest = route_digest, cc_approval = approval,
                cc_expected = expected, cc_not_after = not_after,
                cc_correlation_id = correlation_id\<rparr>)"

text \<open>
  The wire form of a public key: the visitor parses hexadecimal of either case and then
  refuses every spelling but the canonical one. Both failures carry only a message.
\<close>

datatype KeyWireError = InvalidPublicKey | NoncanonicalPublicKey

definition canonical_key :: "(8 word list \<Rightarrow> bool) \<Rightarrow> string \<Rightarrow> KeyWireError + PublicKey" where
  "canonical_key from_sec1_bytes v =
     bindE (map_err (\<lambda>_. InvalidPublicKey) (key_from_hex from_sec1_bytes v)) (\<lambda>key.
       if key_to_hex key \<noteq> v then Inl NoncanonicalPublicKey else Inr key)"

section \<open>Issuance and windows\<close>

definition FIRST_ISSUANCE_MAX_SECONDS :: u64 where
  "FIRST_ISSUANCE_MAX_SECONDS = 120"

record IssuanceWindow =
  prepared_at :: UnixSeconds
  first_issue_not_after :: UnixSeconds

definition IssuanceWindow_new :: "UnixSeconds \<Rightarrow> UnixSeconds \<Rightarrow> ContextError + IssuanceWindow" where
  "IssuanceWindow_new prepared deadline =
     (if seconds_get prepared = 0 \<or> seconds_get deadline \<le> seconds_get prepared
         \<or> FIRST_ISSUANCE_MAX_SECONDS < sub_u 64 (seconds_get deadline) (seconds_get prepared)
      then Inl OutOfRange
      else Inr \<lparr>prepared_at = prepared, first_issue_not_after = deadline\<rparr>)"

definition IssuanceWindow_capture ::
  "UnixSeconds \<Rightarrow> UnixSeconds \<Rightarrow> ContextError + IssuanceWindow" where
  "IssuanceWindow_capture prepared authorization_not_after =
     bindE (ok_or OutOfRange (checked_add_u 64 (seconds_get prepared) FIRST_ISSUANCE_MAX_SECONDS))
       (\<lambda>ceiling.
     bindE (UnixSeconds_new (min ceiling (seconds_get authorization_not_after))) (\<lambda>deadline.
       IssuanceWindow_new prepared deadline))"

datatype TimeError = InvalidTimeZone | InvalidWindow | UnsupportedDatabase

definition TIME_ZONE_DATABASE_VERSION :: string where
  "TIME_ZONE_DATABASE_VERSION = ''2026c''"

datatype TimeZoneId = TimeZoneId (zone_name: string)

text \<open>
  \<open>version\<close> is \<open>jiff_tzdb::VERSION\<close> and \<open>get\<close> the canonical name that \<open>jiff_tzdb::get\<close> returns.
\<close>

definition TimeZoneId_from_name ::
  "string option \<Rightarrow> (string \<Rightarrow> string option) \<Rightarrow> string \<Rightarrow> TimeError + TimeZoneId" where
  "TimeZoneId_from_name version get v =
     (if version \<noteq> Some TIME_ZONE_DATABASE_VERSION then Inl UnsupportedDatabase
      else if v = [] \<or> 80 < length v then Inl InvalidTimeZone
      else bindE (ok_or InvalidTimeZone (get v)) (\<lambda>canonical.
        if canonical \<noteq> v then Inl InvalidTimeZone else Inr (TimeZoneId canonical)))"

record Window =
  win_start :: UnixSeconds
  win_end :: UnixSeconds
  win_timezone :: TimeZoneId

definition Window_new :: "UnixSeconds \<Rightarrow> UnixSeconds \<Rightarrow> TimeZoneId \<Rightarrow> TimeError + Window" where
  "Window_new start stop timezone =
     (if seconds_get stop \<le> seconds_get start then Inl InvalidWindow
      else Inr \<lparr>win_start = start, win_end = stop, win_timezone = timezone\<rparr>)"

definition wf_Window :: "Window \<Rightarrow> bool" where
  "wf_Window w \<longleftrightarrow> wf_UnixSeconds (win_start w) \<and> wf_UnixSeconds (win_end w)
     \<and> seconds_get (win_start w) < seconds_get (win_end w)"

section \<open>Logical messages\<close>

definition CHAT_MAX_BYTES :: nat where
  "CHAT_MAX_BYTES = 4096"

datatype MessageError = LimitExceeded

datatype ChatRelation = Inquire (inquire_source: "SourceId option") | Reply (reply_parent: MessageId)

record ChatMessage =
  chat_id :: MessageId
  chat_thread :: ThreadId
  chat_author :: PublicKey
  chat_peer :: PublicKey
  chat_created :: UnixSeconds
  chat_relation :: ChatRelation
  chat_text :: string

definition ChatMessage_new ::
  "MessageId \<Rightarrow> ThreadId \<Rightarrow> PublicKey \<Rightarrow> PublicKey \<Rightarrow> UnixSeconds \<Rightarrow> ChatRelation \<Rightarrow> string
    \<Rightarrow> MessageError + ChatMessage" where
  "ChatMessage_new message thread author peer created relation txt =
     (if CHAT_MAX_BYTES < length txt then Inl LimitExceeded
      else Inr \<lparr>chat_id = message, chat_thread = thread, chat_author = author, chat_peer = peer,
                chat_created = created, chat_relation = relation, chat_text = txt\<rparr>)"

section \<open>Codecs\<close>

lemma integer_parse_iff:
  assumes "mx < 2 ^ 64"
  shows "integer_parse v mx positive = Inr n \<longleftrightarrow>
    canonical_digits v \<and> length v \<le> 20 \<and> n = digits_value v \<and> n \<le> mx \<and> (positive \<longrightarrow> 0 < n)"
  using assms
  by (auto simp: integer_parse_def canonical_digits_def result_simps parse_digits_def fits_u_def)

lemma integer_parse_canonical:
  assumes "mx < 2 ^ 64"
  shows "integer_parse v mx positive = Inr n \<longleftrightarrow>
    v = show_nat n \<and> n \<le> mx \<and> (positive \<longrightarrow> 0 < n)"
proof -
  have "length (show_nat n) \<le> 20" if "n \<le> mx"
  proof -
    have "n < 10 ^ 20" using that assms by simp
    then show ?thesis by (rule length_show_nat_le) simp
  qed
  then show ?thesis
    unfolding integer_parse_iff [OF assms] by (auto simp: show_nat_digits_value)
qed

lemma max_bounds: "MAX_SEQUENCE < 2 ^ 64" "MAX_UNIX_SECONDS < 2 ^ 64"
  by (simp_all add: MAX_SEQUENCE_def MAX_UNIX_SECONDS_def)

lemmas parse_canonical =
  integer_parse_canonical [OF max_bounds(1)] integer_parse_canonical [OF max_bounds(2)]

interpretation sequence_codec:
  canonical_codec wf_Sequence "\<lambda>s. show_nat (sequence_get s)" Sequence_from_str
  by unfold_locales
    (auto simp: Sequence_from_str_def result_simps parse_canonical wf_Sequence_def)

interpretation generation_codec:
  canonical_codec wf_Generation "\<lambda>g. show_nat (generation_get g)" Generation_from_str
  by unfold_locales
    (auto simp: Generation_from_str_def result_simps parse_canonical
      wf_Generation_def)

interpretation seconds_codec:
  canonical_codec wf_UnixSeconds "\<lambda>t. show_nat (seconds_get t)" UnixSeconds_from_str
  by unfold_locales
    (auto simp: UnixSeconds_from_str_def result_simps parse_canonical
      wf_UnixSeconds_def)

interpretation key_codec: canonical_codec "wf_key p" key_to_hex "canonical_key p" for p
  by unfold_locales
    (auto simp: canonical_key_def result_simps key_from_hex_Inr key_to_hex_eq lower_id_to_string)

section \<open>Intervals\<close>

lemma UnixSeconds_new_Inr [result_simps]:
  "UnixSeconds_new v = Inr t \<longleftrightarrow> v \<le> MAX_UNIX_SECONDS \<and> t = UnixSeconds v"
  by (auto simp: UnixSeconds_new_def exact_integer_new_def result_simps)

lemma IssuanceWindow_new_Inr:
  "IssuanceWindow_new p d = Inr w \<longleftrightarrow>
    0 < seconds_get p \<and> seconds_get p < seconds_get d
    \<and> seconds_get d \<le> seconds_get p + FIRST_ISSUANCE_MAX_SECONDS
    \<and> w = \<lparr>prepared_at = p, first_issue_not_after = d\<rparr>"
  by (auto simp: IssuanceWindow_new_def sub_u_def)

lemma IssuanceWindow_capture_Inr:
  assumes "wf_UnixSeconds p" and "wf_UnixSeconds a"
  shows "IssuanceWindow_capture p a = Inr w \<longleftrightarrow>
    0 < seconds_get p \<and> seconds_get p < seconds_get a \<and> prepared_at w = p
    \<and> seconds_get (first_issue_not_after w) =
        min (seconds_get p + FIRST_ISSUANCE_MAX_SECONDS) (seconds_get a)"
proof -
  have "seconds_get p + FIRST_ISSUANCE_MAX_SECONDS < 2 ^ 64"
    using assms by (simp add: wf_UnixSeconds_def MAX_UNIX_SECONDS_def FIRST_ISSUANCE_MAX_SECONDS_def)
  moreover have "min (seconds_get p + FIRST_ISSUANCE_MAX_SECONDS) (seconds_get a) \<le> MAX_UNIX_SECONDS"
    using assms by (simp add: wf_UnixSeconds_def)
  ultimately show ?thesis
    by (cases w)
      (auto simp: IssuanceWindow_capture_def checked_simps result_simps fits_u_def
        IssuanceWindow_new_Inr FIRST_ISSUANCE_MAX_SECONDS_def UnixSeconds.expand)
qed

section \<open>Properties\<close>

text \<open>Sequences, generations and seconds are read from exactly one decimal spelling each,
  within their ranges, and public keys on the wire from exactly the canonical lowercase one.\<close>

theorem context_codecs_canonical:
  "(Sequence_from_str s = Inr q \<longleftrightarrow> wf_Sequence q \<and> show_nat (sequence_get q) = s)
    \<and> (Generation_from_str s = Inr g \<longleftrightarrow> wf_Generation g \<and> show_nat (generation_get g) = s)
    \<and> (UnixSeconds_from_str s = Inr t \<longleftrightarrow> wf_UnixSeconds t \<and> show_nat (seconds_get t) = s)
    \<and> (canonical_key p s = Inr k \<longleftrightarrow> wf_key p k \<and> key_to_hex k = s)"
  by (simp add: sequence_codec.parse_iff generation_codec.parse_iff seconds_codec.parse_iff
      key_codec.parse_iff)

text \<open>Capturing a first-issue interval succeeds exactly for a positive preparation time
  that precedes the authorization deadline; the captured deadline is the earlier of the
  authorization deadline and two minutes after preparation, so it never extends authorization.\<close>

theorem IssuanceWindow_capture_exact:
  assumes "wf_UnixSeconds p" and "wf_UnixSeconds a"
  shows "IssuanceWindow_capture p a = Inr w \<longleftrightarrow>
    0 < seconds_get p \<and> seconds_get p < seconds_get a \<and> prepared_at w = p
    \<and> seconds_get (first_issue_not_after w) = min (seconds_get p + 120) (seconds_get a)"
  using IssuanceWindow_capture_Inr [OF assms] by (simp add: FIRST_ISSUANCE_MAX_SECONDS_def)

theorem IssuanceWindow_capture_exact_witness:
  "IssuanceWindow_capture (UnixSeconds 1000) (UnixSeconds 1050) =
    Inr \<lparr>prepared_at = UnixSeconds 1000, first_issue_not_after = UnixSeconds 1050\<rparr>"
  using IssuanceWindow_capture_exact [of "UnixSeconds 1000" "UnixSeconds 1050"]
  by (simp add: wf_UnixSeconds_def MAX_UNIX_SECONDS_def)

end
