(* ===== verification/Stock.thy ===== *)
theory Stock
  imports Quantity Descriptors Ordered_Map
begin

text \<open>
  Physical stock of \<open>crates/domain/src/stock.rs\<close>, \<open>stock/movements.rs\<close> and
  \<open>stock/obligation.rs\<close>: bounded ticks, pool units, the seven conserved balances with every
  movement between them, and obligations split into backed and unbacked parts. All movements
  are shown to refine one abstract transfer between two cells.
\<close>

section \<open>Ticks and units\<close>

datatype StockError =
    InvalidFormat
  | OutOfRange
  | Underflow
  | InvalidScale
  | FractionalCount
  | UnitMismatch
  | PrecisionLoss
  | ConservationViolation
  | ObligationMismatch
  | ZeroMovement

datatype StockTicks = StockTicks (ticks_get: u64)

definition MAX_TICKS :: nat where
  "MAX_TICKS = 1000000000000000000"

definition StockTicks_ZERO :: StockTicks where
  "StockTicks_ZERO = StockTicks 0"

definition StockTicks_new :: "u64 \<Rightarrow> StockError + StockTicks" where
  "StockTicks_new v = (if MAX_TICKS < v then Inl OutOfRange else Inr (StockTicks v))"

definition StockTicks_checked_add :: "StockTicks \<Rightarrow> StockTicks \<Rightarrow> StockError + StockTicks" where
  "StockTicks_checked_add a b =
     bindE (ok_or OutOfRange (checked_add_u 64 (ticks_get a) (ticks_get b))) StockTicks_new"

definition StockTicks_checked_sub :: "StockTicks \<Rightarrow> StockTicks \<Rightarrow> StockError + StockTicks" where
  "StockTicks_checked_sub a b =
     bindE (ok_or Underflow (checked_sub_u (ticks_get a) (ticks_get b))) StockTicks_new"

definition StockTicks_from_str :: "string \<Rightarrow> StockError + StockTicks" where
  "StockTicks_from_str v =
     (if v = [] \<or> 19 < length v \<or> \<not> (\<forall>b\<in>set v. is_ascii_digit b)
         \<or> (1 < length v \<and> starts_with (CHR ''0'') v)
      then Inl InvalidFormat
      else bindE (ok_or OutOfRange (parse_digits 64 v)) StockTicks_new)"

definition StockTicks_to_string :: "StockTicks \<Rightarrow> string" where
  "StockTicks_to_string t = show_nat (ticks_get t)"

record PoolUnit =
  pu_unit :: MeasurementUnit
  pu_scale :: u8

definition PoolUnit_new :: "MeasurementUnit \<Rightarrow> u8 \<Rightarrow> StockError + PoolUnit" where
  "PoolUnit_new unit s =
     (if 6 < s then Inl InvalidScale
      else if unit = Each \<and> s \<noteq> 0 then Inl FractionalCount
      else Inr \<lparr>pu_unit = unit, pu_scale = s\<rparr>)"

definition PoolUnit_ticks_for :: "PoolUnit \<Rightarrow> Quantity \<Rightarrow> StockError + StockTicks" where
  "PoolUnit_ticks_for u q =
     (if qty_unit q \<noteq> pu_unit u then Inl UnitMismatch
      else bindE (ok_or PrecisionLoss (checked_sub_u (pu_scale u) (scale (qty_amount q)))) (\<lambda>difference.
       bindE (ok_or OutOfRange
         (checked_mul_u 64 (coefficient (qty_amount q)) (pow_u 64 10 difference))) StockTicks_new))"

section \<open>Balances\<close>

record PhysicalBalances =
  available :: StockTicks
  preparatory_hold :: StockTicks
  committed_hold :: StockTicks
  physical_quarantine :: StockTicks
  consumed :: StockTicks
  waste :: StockTicks
  removed :: StockTicks

definition PhysicalBalances_ZERO :: PhysicalBalances where
  "PhysicalBalances_ZERO = \<lparr>available = StockTicks_ZERO, preparatory_hold = StockTicks_ZERO,
     committed_hold = StockTicks_ZERO, physical_quarantine = StockTicks_ZERO,
     consumed = StockTicks_ZERO, waste = StockTicks_ZERO, removed = StockTicks_ZERO\<rparr>"

record PoolBalances =
  introduced :: StockTicks
  physical :: PhysicalBalances

datatype AvailableStockCorrection = Add | Remove | Spoil

definition PoolBalances_new :: "StockTicks \<Rightarrow> PhysicalBalances \<Rightarrow> StockError + PoolBalances" where
  "PoolBalances_new intro p =
     bindE (try_fold StockTicks_checked_add StockTicks_ZERO
         [available p, preparatory_hold p, committed_hold p, physical_quarantine p, consumed p,
          waste p, removed p]) (\<lambda>sum.
       if sum \<noteq> intro then Inl ConservationViolation
       else Inr \<lparr>introduced = intro, physical = p\<rparr>)"

definition PoolBalances_hold_available :: "PoolBalances \<Rightarrow> StockTicks \<Rightarrow> StockError + PoolBalances" where
  "PoolBalances_hold_available b quantity =
     (if quantity = StockTicks_ZERO then Inl ZeroMovement
      else let p = physical b in
        bindE (StockTicks_checked_sub (available p) quantity) (\<lambda>v.
        let p = p\<lparr>available := v\<rparr> in
        bindE (StockTicks_checked_add (preparatory_hold p) quantity) (\<lambda>v.
        let p = p\<lparr>preparatory_hold := v\<rparr> in
        PoolBalances_new (introduced b) p)))"

definition PoolBalances_install_preparatory ::
  "PoolBalances \<Rightarrow> StockTicks \<Rightarrow> StockError + PoolBalances" where
  "PoolBalances_install_preparatory b quantity =
     (if quantity = StockTicks_ZERO then Inl ZeroMovement
      else let p = physical b in
        bindE (StockTicks_checked_sub (preparatory_hold p) quantity) (\<lambda>v.
        let p = p\<lparr>preparatory_hold := v\<rparr> in
        bindE (StockTicks_checked_add (committed_hold p) quantity) (\<lambda>v.
        let p = p\<lparr>committed_hold := v\<rparr> in
        PoolBalances_new (introduced b) p)))"

definition PoolBalances_release_preparatory ::
  "PoolBalances \<Rightarrow> StockTicks \<Rightarrow> StockError + PoolBalances" where
  "PoolBalances_release_preparatory b quantity =
     (if quantity = StockTicks_ZERO then Inl ZeroMovement
      else let p = physical b in
        bindE (StockTicks_checked_sub (preparatory_hold p) quantity) (\<lambda>v.
        let p = p\<lparr>preparatory_hold := v\<rparr> in
        bindE (StockTicks_checked_add (available p) quantity) (\<lambda>v.
        let p = p\<lparr>available := v\<rparr> in
        PoolBalances_new (introduced b) p)))"

definition PoolBalances_correct_available ::
  "PoolBalances \<Rightarrow> AvailableStockCorrection \<Rightarrow> StockTicks \<Rightarrow> StockError + PoolBalances" where
  "PoolBalances_correct_available b kind quantity =
     (if quantity = StockTicks_ZERO then Inl ZeroMovement
      else let p = physical b in
       case kind of
         Add \<Rightarrow>
           bindE (StockTicks_checked_add (introduced b) quantity) (\<lambda>intro.
           bindE (StockTicks_checked_add (available p) quantity) (\<lambda>v.
             PoolBalances_new intro (p\<lparr>available := v\<rparr>)))
       | Remove \<Rightarrow>
           bindE (StockTicks_checked_sub (available p) quantity) (\<lambda>v.
           let p = p\<lparr>available := v\<rparr> in
           bindE (StockTicks_checked_add (removed p) quantity) (\<lambda>v.
             PoolBalances_new (introduced b) (p\<lparr>removed := v\<rparr>)))
       | Spoil \<Rightarrow>
           bindE (StockTicks_checked_sub (available p) quantity) (\<lambda>v.
           let p = p\<lparr>available := v\<rparr> in
           bindE (StockTicks_checked_add (waste p) quantity) (\<lambda>v.
             PoolBalances_new (introduced b) (p\<lparr>waste := v\<rparr>))))"

section \<open>Held movements\<close>

datatype HeldStockCategory = Preparatory | Committed | Quarantined

datatype HeldStockLoss = Spoilage | Removal

datatype Destination =
    ToAvailable | ToCommitted | ToQuarantined | ToConsumed | ToWaste | ToRemoved

fun held_get :: "HeldStockCategory \<Rightarrow> PhysicalBalances \<Rightarrow> StockTicks" where
  "held_get Preparatory p = preparatory_hold p"
| "held_get Committed p = committed_hold p"
| "held_get Quarantined p = physical_quarantine p"

fun held_set :: "HeldStockCategory \<Rightarrow> StockTicks \<Rightarrow> PhysicalBalances \<Rightarrow> PhysicalBalances" where
  "held_set Preparatory v p = p\<lparr>preparatory_hold := v\<rparr>"
| "held_set Committed v p = p\<lparr>committed_hold := v\<rparr>"
| "held_set Quarantined v p = p\<lparr>physical_quarantine := v\<rparr>"

fun destination_get :: "Destination \<Rightarrow> PhysicalBalances \<Rightarrow> StockTicks" where
  "destination_get ToAvailable p = available p"
| "destination_get ToCommitted p = committed_hold p"
| "destination_get ToQuarantined p = physical_quarantine p"
| "destination_get ToConsumed p = consumed p"
| "destination_get ToWaste p = waste p"
| "destination_get ToRemoved p = removed p"

fun destination_set :: "Destination \<Rightarrow> StockTicks \<Rightarrow> PhysicalBalances \<Rightarrow> PhysicalBalances" where
  "destination_set ToAvailable v p = p\<lparr>available := v\<rparr>"
| "destination_set ToCommitted v p = p\<lparr>committed_hold := v\<rparr>"
| "destination_set ToQuarantined v p = p\<lparr>physical_quarantine := v\<rparr>"
| "destination_set ToConsumed v p = p\<lparr>consumed := v\<rparr>"
| "destination_set ToWaste v p = p\<lparr>waste := v\<rparr>"
| "destination_set ToRemoved v p = p\<lparr>removed := v\<rparr>"

definition transfer_held ::
  "PoolBalances \<Rightarrow> HeldStockCategory \<Rightarrow> Destination \<Rightarrow> StockTicks \<Rightarrow> StockError + PoolBalances" where
  "transfer_held b category destination quantity =
     (if quantity = StockTicks_ZERO then Inl ZeroMovement
      else let p = physical b in
        bindE (StockTicks_checked_sub (held_get category p) quantity) (\<lambda>v.
        let p = held_set category v p in
        bindE (StockTicks_checked_add (destination_get destination p) quantity) (\<lambda>v.
        let p = destination_set destination v p in
        PoolBalances_new (introduced b) p)))"

definition release_committed :: "PoolBalances \<Rightarrow> StockTicks \<Rightarrow> StockError + PoolBalances" where
  "release_committed b quantity = transfer_held b Committed ToAvailable quantity"

definition consume_committed :: "PoolBalances \<Rightarrow> StockTicks \<Rightarrow> StockError + PoolBalances" where
  "consume_committed b quantity = transfer_held b Committed ToConsumed quantity"

definition quarantine_preparatory :: "PoolBalances \<Rightarrow> StockTicks \<Rightarrow> StockError + PoolBalances" where
  "quarantine_preparatory b quantity = transfer_held b Preparatory ToQuarantined quantity"

definition quarantine_committed :: "PoolBalances \<Rightarrow> StockTicks \<Rightarrow> StockError + PoolBalances" where
  "quarantine_committed b quantity = transfer_held b Committed ToQuarantined quantity"

definition restore_quarantined :: "PoolBalances \<Rightarrow> StockTicks \<Rightarrow> StockError + PoolBalances" where
  "restore_quarantined b quantity = transfer_held b Quarantined ToCommitted quantity"

definition release_quarantined :: "PoolBalances \<Rightarrow> StockTicks \<Rightarrow> StockError + PoolBalances" where
  "release_quarantined b quantity = transfer_held b Quarantined ToAvailable quantity"

definition consume_quarantined :: "PoolBalances \<Rightarrow> StockTicks \<Rightarrow> StockError + PoolBalances" where
  "consume_quarantined b quantity = transfer_held b Quarantined ToConsumed quantity"

fun loss_destination :: "HeldStockLoss \<Rightarrow> Destination" where
  "loss_destination Spoilage = ToWaste"
| "loss_destination Removal = ToRemoved"

definition deplete_held ::
  "PoolBalances \<Rightarrow> HeldStockCategory \<Rightarrow> HeldStockLoss \<Rightarrow> StockTicks \<Rightarrow> StockError + PoolBalances" where
  "deplete_held b category loss quantity = transfer_held b category (loss_destination loss) quantity"

section \<open>Snapshots and views\<close>

record PoolSnapshot =
  ps_id :: PoolId
  ps_unit :: PoolUnit
  ps_balances :: PoolBalances
  ps_version :: Sequence

record PoolView =
  pv_label :: string
  pv_snapshot :: PoolSnapshot

definition PoolView_new :: "string \<Rightarrow> PoolSnapshot \<Rightarrow> StockError + PoolView" where
  "PoolView_new label snapshot =
     (if 160 < length label \<or> has_control label then Inl InvalidFormat
      else Inr \<lparr>pv_label = label, pv_snapshot = snapshot\<rparr>)"

section \<open>Obligations\<close>

record ObligationBacking =
  ob_remaining :: StockTicks
  ob_backed :: StockTicks
  ob_deficit :: StockTicks

definition ObligationBacking_new ::
  "StockTicks \<Rightarrow> StockTicks \<Rightarrow> StockTicks \<Rightarrow> StockError + ObligationBacking" where
  "ObligationBacking_new remaining backed deficit =
     bindE (StockTicks_checked_add backed deficit) (\<lambda>sum.
       if sum \<noteq> remaining then Inl ObligationMismatch
       else Inr \<lparr>ob_remaining = remaining, ob_backed = backed, ob_deficit = deficit\<rparr>)"

definition positive :: "StockTicks \<Rightarrow> StockError + unit" where
  "positive quantity = (if quantity = StockTicks_ZERO then Inl ZeroMovement else Inr ())"

definition lose_backing :: "ObligationBacking \<Rightarrow> StockTicks \<Rightarrow> StockError + ObligationBacking" where
  "lose_backing ob quantity =
     bindE (positive quantity) (\<lambda>_.
     bindE (StockTicks_checked_sub (ob_backed ob) quantity) (\<lambda>backed.
     bindE (StockTicks_checked_add (ob_deficit ob) quantity) (\<lambda>deficit.
       ObligationBacking_new (ob_remaining ob) backed deficit)))"

definition restore_backing :: "ObligationBacking \<Rightarrow> StockTicks \<Rightarrow> StockError + ObligationBacking" where
  "restore_backing ob quantity =
     bindE (positive quantity) (\<lambda>_.
     bindE (StockTicks_checked_sub (ob_deficit ob) quantity) (\<lambda>deficit.
     bindE (StockTicks_checked_add (ob_backed ob) quantity) (\<lambda>backed.
       ObligationBacking_new (ob_remaining ob) backed deficit)))"

definition consume_backed :: "ObligationBacking \<Rightarrow> StockTicks \<Rightarrow> StockError + ObligationBacking" where
  "consume_backed ob quantity =
     bindE (positive quantity) (\<lambda>_.
     bindE (StockTicks_checked_sub (ob_remaining ob) quantity) (\<lambda>remaining.
     bindE (StockTicks_checked_sub (ob_backed ob) quantity) (\<lambda>backed.
       ObligationBacking_new remaining backed (ob_deficit ob))))"

definition release_residual ::
  "ObligationBacking \<Rightarrow> StockTicks \<Rightarrow> StockTicks \<Rightarrow> StockError + ObligationBacking" where
  "release_residual ob backed deficit =
     bindE (StockTicks_checked_add backed deficit) (\<lambda>quantity.
     bindE (positive quantity) (\<lambda>_.
     bindE (StockTicks_checked_sub (ob_remaining ob) quantity) (\<lambda>remaining.
     bindE (StockTicks_checked_sub (ob_backed ob) backed) (\<lambda>new_backed.
     bindE (StockTicks_checked_sub (ob_deficit ob) deficit) (\<lambda>new_deficit.
       ObligationBacking_new remaining new_backed new_deficit)))))"

section \<open>Tick arithmetic\<close>

definition wf_Ticks :: "StockTicks \<Rightarrow> bool" where
  "wf_Ticks t \<longleftrightarrow> ticks_get t \<le> MAX_TICKS"

definition wf_PoolUnit :: "PoolUnit \<Rightarrow> bool" where
  "wf_PoolUnit u \<longleftrightarrow> pu_scale u \<le> 6 \<and> (pu_unit u = Each \<longrightarrow> pu_scale u = 0)"

lemma ticks_get_ZERO [simp]: "ticks_get StockTicks_ZERO = 0"
  by (simp add: StockTicks_ZERO_def)

lemma wf_Ticks_ZERO [simp]: "wf_Ticks StockTicks_ZERO"
  by (simp add: wf_Ticks_def)

lemma ticks_eq_ZERO: "t = StockTicks_ZERO \<longleftrightarrow> ticks_get t = 0"
  by (cases t) (simp add: StockTicks_ZERO_def)

lemma StockTicks_new_Inr [result_simps]:
  "StockTicks_new v = Inr t \<longleftrightarrow> wf_Ticks t \<and> v = ticks_get t"
  by (cases t) (auto simp: StockTicks_new_def wf_Ticks_def)

lemma StockTicks_checked_add_spec:
  assumes "wf_Ticks a" and "wf_Ticks b"
  shows "StockTicks_checked_add a b =
    (if ticks_get a + ticks_get b \<le> MAX_TICKS then Inr (StockTicks (ticks_get a + ticks_get b))
     else Inl OutOfRange)"
  using assms
  by (auto simp: StockTicks_checked_add_def StockTicks_new_def checked_defs fits_u_def wf_Ticks_def
      MAX_TICKS_def)

lemma StockTicks_checked_sub_spec:
  assumes "wf_Ticks a"
  shows "StockTicks_checked_sub a b =
    (if ticks_get b \<le> ticks_get a then Inr (StockTicks (ticks_get a - ticks_get b))
     else Inl Underflow)"
  using assms
  by (auto simp: StockTicks_checked_sub_def StockTicks_new_def checked_sub_u_def wf_Ticks_def)

lemmas ticks_specs = StockTicks_checked_add_spec StockTicks_checked_sub_spec

interpretation ticks: checked_totals ticks_get MAX_TICKS wf_Ticks StockTicks_checked_add StockTicks_ZERO
  by unfold_locales (auto simp: StockTicks_checked_add_spec wf_Ticks_def)

lemma StockTicks_from_str_iff:
  "StockTicks_from_str v = Inr t \<longleftrightarrow> canonical_digits v \<and> wf_Ticks t \<and> digits_value v = ticks_get t"
proof -
  have small: "length v \<le> 19" if "canonical_digits v" "wf_Ticks t" "digits_value v = ticks_get t"
  proof -
    from that have "ticks_get t < 10 ^ 19" by (simp add: wf_Ticks_def MAX_TICKS_def)
    then have "length (show_nat (ticks_get t)) \<le> 19" by (rule length_show_nat_le) simp
    with that show ?thesis by (metis show_nat_digits_value)
  qed
  show ?thesis
  proof (cases "canonical_digits v")
    case True
    with small show ?thesis
      by (auto simp: StockTicks_from_str_def canonical_digits_def result_simps parse_digits_def
          fits_u_def wf_Ticks_def MAX_TICKS_def)
  next
    case False
    then show ?thesis by (auto simp: StockTicks_from_str_def canonical_digits_def)
  qed
qed

interpretation ticks_codec: canonical_codec wf_Ticks StockTicks_to_string StockTicks_from_str
  by unfold_locales
    (auto simp: StockTicks_from_str_iff StockTicks_to_string_def show_nat_digits_value
      dest: sym [of "digits_value _"])

lemma ticks_for_spec:
  assumes q: "wf_Quantity q" and u: "wf_PoolUnit u"
  shows "PoolUnit_ticks_for u q =
    (if qty_unit q \<noteq> pu_unit u then Inl UnitMismatch
     else if pu_scale u < scale (qty_amount q) then Inl PrecisionLoss
     else Inr (StockTicks (coefficient (qty_amount q) * 10 ^ (pu_scale u - scale (qty_amount q)))))"
proof -
  let ?e = "pu_scale u - scale (qty_amount q)"
  have "(10 :: nat) ^ ?e \<le> 10 ^ 6" using u by (intro power_increasing) (auto simp: wf_PoolUnit_def)
  moreover from this have "pow_u 64 10 ?e = 10 ^ ?e" by (simp add: pow_u_def)
  moreover have "coefficient (qty_amount q) * 10 ^ ?e \<le> 999999999999 * 10 ^ 6"
    using q \<open>10 ^ ?e \<le> 10 ^ 6\<close>
    by (intro mult_le_mono) (auto simp: wf_Quantity_def wf_Decimal_def MAX_COEFFICIENT_def)
  ultimately show ?thesis
    by (auto simp: PoolUnit_ticks_for_def checked_sub_u_def checked_defs fits_u_def
        StockTicks_new_def MAX_TICKS_def)
qed

text \<open>One tick of a unit at scale \<open>k\<close> is \<open>10 ^ (6 - k)\<close> millionths of that unit.\<close>

lemma ticks_for_Inr:
  assumes q: "wf_Quantity q" and u: "wf_PoolUnit u"
  shows "PoolUnit_ticks_for u q = Inr t \<longleftrightarrow>
    qty_unit q = pu_unit u \<and> micros (qty_amount q) = ticks_get t * 10 ^ (6 - pu_scale u)"
proof (cases "scale (qty_amount q) \<le> pu_scale u")
  case True
  moreover have "6 - scale (qty_amount q) = (pu_scale u - scale (qty_amount q)) + (6 - pu_scale u)"
    using True u by (simp add: wf_PoolUnit_def)
  then have "micros (qty_amount q) =
      coefficient (qty_amount q) * 10 ^ (pu_scale u - scale (qty_amount q)) * 10 ^ (6 - pu_scale u)"
    by (simp only: micros_def power_add mult.assoc)
  ultimately show ?thesis
    by (cases t) (auto simp: ticks_for_spec [OF assms])
next
  case False
  have "wf_Decimal (qty_amount q)" and "pu_scale u \<le> 6"
    using assms by (simp_all add: wf_Quantity_def wf_PoolUnit_def)
  with False have "\<not> 10 ^ (6 - pu_scale u) dvd micros (qty_amount q)"
    using scale_le_iff by blast
  with False show ?thesis by (auto simp: ticks_for_spec [OF assms])
qed

lemma ticks_for_wf: "wf_Quantity q \<Longrightarrow> wf_PoolUnit u \<Longrightarrow> PoolUnit_ticks_for u q = Inr t \<Longrightarrow> wf_Ticks t"
  by (auto simp: PoolUnit_ticks_for_def result_simps)

section \<open>Cells\<close>

text \<open>
  The abstract state of a pool is a function from the seven cells to natural numbers. Every
  movement of the code is shown to be one transfer between two distinct cells.
\<close>

datatype stock_cell =
    CAvailable | CPreparatory | CCommitted | CQuarantine | CConsumed | CWaste | CRemoved

fun cell_get :: "stock_cell \<Rightarrow> PhysicalBalances \<Rightarrow> StockTicks" where
  "cell_get CAvailable p = available p"
| "cell_get CPreparatory p = preparatory_hold p"
| "cell_get CCommitted p = committed_hold p"
| "cell_get CQuarantine p = physical_quarantine p"
| "cell_get CConsumed p = consumed p"
| "cell_get CWaste p = waste p"
| "cell_get CRemoved p = removed p"

fun cell_set :: "stock_cell \<Rightarrow> StockTicks \<Rightarrow> PhysicalBalances \<Rightarrow> PhysicalBalances" where
  "cell_set CAvailable v p = p\<lparr>available := v\<rparr>"
| "cell_set CPreparatory v p = p\<lparr>preparatory_hold := v\<rparr>"
| "cell_set CCommitted v p = p\<lparr>committed_hold := v\<rparr>"
| "cell_set CQuarantine v p = p\<lparr>physical_quarantine := v\<rparr>"
| "cell_set CConsumed v p = p\<lparr>consumed := v\<rparr>"
| "cell_set CWaste v p = p\<lparr>waste := v\<rparr>"
| "cell_set CRemoved v p = p\<lparr>removed := v\<rparr>"

definition all_cells :: "stock_cell list" where
  "all_cells = [CAvailable, CPreparatory, CCommitted, CQuarantine, CConsumed, CWaste, CRemoved]"

definition cell_amount :: "PoolBalances \<Rightarrow> stock_cell \<Rightarrow> nat" where
  "cell_amount b c = ticks_get (cell_get c (physical b))"

definition cells_total :: "PhysicalBalances \<Rightarrow> nat" where
  "cells_total p = (\<Sum>c\<leftarrow>all_cells. ticks_get (cell_get c p))"

definition wf_Physical :: "PhysicalBalances \<Rightarrow> bool" where
  "wf_Physical p \<longleftrightarrow> (\<forall>c\<in>set all_cells. wf_Ticks (cell_get c p))"

definition wf_Pool :: "PoolBalances \<Rightarrow> bool" where
  "wf_Pool b \<longleftrightarrow> wf_Ticks (introduced b) \<and> wf_Physical (physical b)
     \<and> cells_total (physical b) = ticks_get (introduced b)"

definition moved :: "stock_cell \<Rightarrow> stock_cell \<Rightarrow> nat \<Rightarrow> PoolBalances \<Rightarrow> PoolBalances" where
  "moved src dst q b = b\<lparr>physical :=
     cell_set dst (StockTicks (cell_amount b dst + q))
       (cell_set src (StockTicks (cell_amount b src - q)) (physical b))\<rparr>"

lemma in_all_cells [simp]: "c \<in> set all_cells"
  by (cases c) (simp_all add: all_cells_def)

lemma wf_Physical_iff: "wf_Physical p \<longleftrightarrow> (\<forall>c. wf_Ticks (cell_get c p))"
  using in_all_cells by (auto simp: wf_Physical_def)

lemma cell_get_set [simp]: "cell_get c (cell_set d v p) = (if c = d then v else cell_get c p)"
  by (cases c; cases d) simp_all

lemma cells_total_set:
  "cells_total (cell_set c v p) + ticks_get (cell_get c p) = cells_total p + ticks_get v"
  by (cases c) (simp_all add: cells_total_def all_cells_def)

lemma cell_le_total: "ticks_get (cell_get c p) \<le> cells_total p"
  unfolding cells_total_def by (rule member_le_sum_list) (auto intro: image_eqI [of _ _ c])

lemma cell_pair_le_total:
  assumes "c \<noteq> d"
  shows "ticks_get (cell_get c p) + ticks_get (cell_get d p) \<le> cells_total p"
  using cells_total_set [of c StockTicks_ZERO p] cell_le_total [of d "cell_set c StockTicks_ZERO p"]
    assms by simp

lemma PoolBalances_new_Inr:
  assumes "wf_Physical p"
  shows "PoolBalances_new i p = Inr b \<longleftrightarrow>
    cells_total p = ticks_get i \<and> wf_Ticks i \<and> b = \<lparr>introduced = i, physical = p\<rparr>"
proof -
  let ?xs = "map (\<lambda>c. cell_get c p) all_cells"
  have new: "PoolBalances_new i p =
      bindE (try_fold StockTicks_checked_add StockTicks_ZERO ?xs) (\<lambda>sum.
        if sum \<noteq> i then Inl ConservationViolation else Inr \<lparr>introduced = i, physical = p\<rparr>)"
    by (simp add: PoolBalances_new_def all_cells_def)
  have valid: "\<forall>x\<in>set ?xs. wf_Ticks x" using assms by (auto simp: wf_Physical_def)
  have total: "sum_list (map ticks_get ?xs) = cells_total p"
    by (simp add: cells_total_def o_def)
  show ?thesis
  proof (cases "cells_total p \<le> MAX_TICKS")
    case True
    with valid obtain c where "try_fold StockTicks_checked_add StockTicks_ZERO ?xs = Inr c"
      and "wf_Ticks c" and "ticks_get c = cells_total p"
      using ticks.fold_fits [of StockTicks_ZERO ?xs] unfolding total by auto
    then show ?thesis unfolding new by (cases c; cases i) (auto simp: result_simps)
  next
    case False
    then have "isl (try_fold StockTicks_checked_add StockTicks_ZERO ?xs)"
      using ticks.fold_overflows [of StockTicks_ZERO ?xs] valid unfolding total
      by (simp add: all_cells_def)
    with False show ?thesis by (auto simp: new isl_iff wf_Ticks_def)
  qed
qed

section \<open>Transfers\<close>

definition transfer :: "stock_cell \<Rightarrow> stock_cell \<Rightarrow> PoolBalances \<Rightarrow> StockTicks \<Rightarrow> StockError + PoolBalances" where
  "transfer src dst b quantity =
     (if quantity = StockTicks_ZERO then Inl ZeroMovement
      else bindE (StockTicks_checked_sub (cell_get src (physical b)) quantity) (\<lambda>v.
        let p = cell_set src v (physical b) in
        bindE (StockTicks_checked_add (cell_get dst p) quantity) (\<lambda>w.
          PoolBalances_new (introduced b) (cell_set dst w p))))"

lemma wf_moved:
  assumes "wf_Pool b" and "src \<noteq> dst" and "q \<le> cell_amount b src"
  shows "wf_Pool (moved src dst q b)"
proof -
  let ?p = "physical (moved src dst q b)"
  have "cells_total ?p = cells_total (physical b)"
    using cells_total_set [of dst "StockTicks (cell_amount b dst + q)"
        "cell_set src (StockTicks (cell_amount b src - q)) (physical b)"]
      cells_total_set [of src "StockTicks (cell_amount b src - q)" "physical b"] assms(2,3)
    by (simp add: moved_def cell_amount_def)
  moreover have "ticks_get (cell_get c ?p) \<le> cells_total ?p" for c by (rule cell_le_total)
  ultimately have "wf_Physical ?p"
    using assms(1) by (auto simp: wf_Physical_iff wf_Pool_def wf_Ticks_def intro: order_trans)
  with \<open>cells_total ?p = _\<close> assms(1) show ?thesis by (simp add: wf_Pool_def moved_def)
qed

lemma transfer_spec:
  assumes b: "wf_Pool b" and q: "wf_Ticks q" and ne: "src \<noteq> dst"
  shows "transfer src dst b q =
    (if ticks_get q = 0 then Inl ZeroMovement
     else if cell_amount b src < ticks_get q then Inl Underflow
     else Inr (moved src dst (ticks_get q) b))"
proof (cases "ticks_get q = 0 \<or> cell_amount b src < ticks_get q")
  case True
  then show ?thesis using b
    by (auto simp: transfer_def ticks_eq_ZERO ticks_specs wf_Pool_def wf_Physical_iff cell_amount_def)
next
  case False
  have cells: "wf_Ticks (cell_get c (physical b))" for c
    using b by (simp add: wf_Pool_def wf_Physical_iff)
  have "cell_amount b dst + ticks_get q \<le> MAX_TICKS"
    using cell_pair_le_total [OF ne, of "physical b"] b False
    by (simp add: cell_amount_def wf_Pool_def wf_Ticks_def)
  moreover have "wf_Pool (moved src dst (ticks_get q) b)" using b ne False by (simp add: wf_moved)
  ultimately show ?thesis
    using False ne q cells
    by (auto simp: transfer_def ticks_eq_ZERO ticks_specs cell_amount_def PoolBalances_new_Inr
        wf_Pool_def moved_def)
qed

section \<open>Pool events\<close>

text \<open>
  An event says what a movement claims to have done; its effect is stated on the abstract
  state alone.
\<close>

datatype pool_event = Introduced nat | Moved stock_cell stock_cell nat

definition terminal_cell :: "stock_cell \<Rightarrow> bool" where
  "terminal_cell c \<longleftrightarrow> c \<in> {CConsumed, CWaste, CRemoved}"

text \<open>What one event does to the abstract state.\<close>

fun event_effect :: "pool_event \<Rightarrow> PoolBalances \<Rightarrow> PoolBalances \<Rightarrow> bool" where
  "event_effect (Introduced q) b b' \<longleftrightarrow>
     ticks_get (introduced b') = ticks_get (introduced b) + q
     \<and> cell_amount b' = (cell_amount b)(CAvailable := cell_amount b CAvailable + q)"
| "event_effect (Moved s d q) b b' \<longleftrightarrow>
     introduced b' = introduced b \<and> s \<noteq> d \<and> \<not> terminal_cell s \<and> q \<le> cell_amount b s
     \<and> cell_amount b' = (cell_amount b)(s := cell_amount b s - q, d := cell_amount b d + q)"

section \<open>Movements as an interface\<close>

text \<open>
  \<open>pool_movement\<close> is the contract of a movement operation: on a conserving pool it is exactly
  one transfer from \<open>src\<close> to \<open>dst\<close>, refused for a zero quantity and for a source that is too
  small, and failing in no other way. \<open>reversible_movement\<close> pairs two opposite movements.
\<close>

locale pool_movement =
  fixes op :: "PoolBalances \<Rightarrow> StockTicks \<Rightarrow> StockError + PoolBalances"
    and src dst :: stock_cell
  assumes cells_differ: "src \<noteq> dst"
    and op_transfer: "op b q = transfer src dst b q"
begin

lemma op_spec:
  assumes "wf_Pool b" and "wf_Ticks q"
  shows "op b q =
    (if ticks_get q = 0 then Inl ZeroMovement
     else if cell_amount b src < ticks_get q then Inl Underflow
     else Inr (moved src dst (ticks_get q) b))"
  unfolding op_transfer by (rule transfer_spec [OF assms cells_differ])

lemma op_Inr:
  assumes "wf_Pool b" and "wf_Ticks q" and "op b q = Inr b'"
  shows "wf_Pool b'" and "b' = moved src dst (ticks_get q) b" and "ticks_get q \<le> cell_amount b src"
  using assms wf_moved [OF assms(1) cells_differ] by (auto simp: op_spec split: if_splits)

lemma op_cells:
  assumes "wf_Pool b" and "wf_Ticks q" and "op b q = Inr b'"
  shows "introduced b' = introduced b"
    and "cell_amount b' = (cell_amount b)
      (src := cell_amount b src - ticks_get q, dst := cell_amount b dst + ticks_get q)"
  using op_Inr [OF assms] cells_differ by (auto simp: moved_def cell_amount_def)

lemma op_effect:
  assumes "wf_Pool b" and "wf_Ticks q" and "op b q = Inr b'" and "\<not> terminal_cell src"
  shows "event_effect (Moved src dst (ticks_get q)) b b'"
  using op_Inr(3) [OF assms(1-3)] op_cells [OF assms(1-3)] assms(4) cells_differ by simp

end

locale reversible_movement =
  forth: pool_movement op src dst + reverse: pool_movement op' dst src
  for op op' src dst
begin

lemma undo:
  assumes b: "wf_Pool b" and q: "wf_Ticks q" and step: "op b q = Inr b'"
  shows "op' b' q = Inr b"
proof -
  note wf = forth.op_Inr [OF b q step]
  have pos: "ticks_get q \<noteq> 0" using step by (auto simp: forth.op_spec [OF b q] split: if_splits)
  have enough: "\<not> cell_amount b' dst < ticks_get q" by (simp add: forth.op_cells [OF b q step])
  have "cell_get c (physical (moved dst src (ticks_get q) b')) = cell_get c (physical b)" for c
    using forth.cells_differ wf(3) by (simp add: wf(2) moved_def cell_amount_def)
  then have "physical (moved dst src (ticks_get q) b') = physical b"
    by (metis PhysicalBalances.equality cell_get.simps unit.exhaust)
  then have "moved dst src (ticks_get q) b' = b" by (simp add: wf(2) moved_def)
  with pos enough show ?thesis by (simp add: reverse.op_spec [OF wf(1) q])
qed

end

lemmas movement_defs =
  PoolBalances_hold_available_def PoolBalances_install_preparatory_def
  PoolBalances_release_preparatory_def PoolBalances_correct_available_def release_committed_def
  consume_committed_def quarantine_preparatory_def quarantine_committed_def
  restore_quarantined_def release_quarantined_def consume_quarantined_def deplete_held_def
  transfer_held_def transfer_def Let_def

fun held_cell :: "HeldStockCategory \<Rightarrow> stock_cell" where
  "held_cell Preparatory = CPreparatory"
| "held_cell Committed = CCommitted"
| "held_cell Quarantined = CQuarantine"

fun loss_cell :: "HeldStockLoss \<Rightarrow> stock_cell" where
  "loss_cell Spoilage = CWaste"
| "loss_cell Removal = CRemoved"

interpretation hold: pool_movement PoolBalances_hold_available CAvailable CPreparatory
  by unfold_locales (simp_all add: movement_defs)

interpretation install: pool_movement PoolBalances_install_preparatory CPreparatory CCommitted
  by unfold_locales (simp_all add: movement_defs)

interpretation release: pool_movement PoolBalances_release_preparatory CPreparatory CAvailable
  by unfold_locales (simp_all add: movement_defs)

interpretation correct_remove:
  pool_movement "\<lambda>b. PoolBalances_correct_available b Remove" CAvailable CRemoved
  by unfold_locales (simp_all add: movement_defs)

interpretation correct_spoil:
  pool_movement "\<lambda>b. PoolBalances_correct_available b Spoil" CAvailable CWaste
  by unfold_locales (simp_all add: movement_defs)

interpretation release_c: pool_movement release_committed CCommitted CAvailable
  by unfold_locales (simp_all add: movement_defs)

interpretation consume_c: pool_movement consume_committed CCommitted CConsumed
  by unfold_locales (simp_all add: movement_defs)

interpretation quarantine_p: pool_movement quarantine_preparatory CPreparatory CQuarantine
  by unfold_locales (simp_all add: movement_defs)

interpretation quarantine_c: pool_movement quarantine_committed CCommitted CQuarantine
  by unfold_locales (simp_all add: movement_defs)

interpretation restore_q: pool_movement restore_quarantined CQuarantine CCommitted
  by unfold_locales (simp_all add: movement_defs)

interpretation release_q: pool_movement release_quarantined CQuarantine CAvailable
  by unfold_locales (simp_all add: movement_defs)

interpretation consume_q: pool_movement consume_quarantined CQuarantine CConsumed
  by unfold_locales (simp_all add: movement_defs)

interpretation deplete:
  pool_movement "\<lambda>b. deplete_held b category loss" "held_cell category" "loss_cell loss"
  for category loss
  by unfold_locales (cases category; cases loss; simp add: movement_defs)+

interpretation hold_undo:
  reversible_movement PoolBalances_hold_available PoolBalances_release_preparatory
    CAvailable CPreparatory
  by unfold_locales

interpretation quarantine_undo:
  reversible_movement quarantine_committed restore_quarantined CCommitted CQuarantine
  by unfold_locales

lemma correct_add_spec:
  assumes b: "wf_Pool b" and q: "wf_Ticks q"
  shows "PoolBalances_correct_available b Add q =
    (if ticks_get q = 0 then Inl ZeroMovement
     else if MAX_TICKS < ticks_get (introduced b) + ticks_get q then Inl OutOfRange
     else Inr \<lparr>introduced = StockTicks (ticks_get (introduced b) + ticks_get q),
       physical = (physical b)\<lparr>available :=
         StockTicks (ticks_get (available (physical b)) + ticks_get q)\<rparr>\<rparr>)"
proof (cases "ticks_get q = 0 \<or> MAX_TICKS < ticks_get (introduced b) + ticks_get q")
  case True
  then show ?thesis using assms
    by (auto simp: PoolBalances_correct_available_def ticks_eq_ZERO ticks_specs wf_Pool_def)
next
  case False
  let ?i = "StockTicks (ticks_get (introduced b) + ticks_get q)"
  let ?v = "StockTicks (ticks_get (available (physical b)) + ticks_get q)"
  let ?p = "(physical b)\<lparr>available := ?v\<rparr>"
  have total: "cells_total ?p = ticks_get ?i"
    using cells_total_set [of CAvailable ?v "physical b"] b by (simp add: wf_Pool_def)
  have wf: "wf_Physical ?p"
    using order_trans [OF cell_le_total [of _ ?p]] False
    by (simp add: wf_Physical_iff wf_Ticks_def total)
  have "wf_Ticks (available (physical b))"
    using b by (auto simp: wf_Pool_def wf_Physical_iff dest: spec [of _ CAvailable])
  moreover have "wf_Ticks ?v"
    using wf by (auto simp: wf_Physical_iff dest: spec [of _ CAvailable])
  moreover have "PoolBalances_new ?i ?p = Inr \<lparr>introduced = ?i, physical = ?p\<rparr>"
    using False total by (simp add: PoolBalances_new_Inr [OF wf] wf_Ticks_def)
  ultimately show ?thesis
    using False b q
    by (simp add: PoolBalances_correct_available_def ticks_eq_ZERO ticks_specs wf_Pool_def)
      (simp add: wf_Ticks_def Let_def)
qed

lemma correct_add_Inr:
  assumes b: "wf_Pool b" and q: "wf_Ticks q"
    and step: "PoolBalances_correct_available b Add q = Inr b'"
  shows "wf_Pool b'" and "ticks_get (introduced b') = ticks_get (introduced b) + ticks_get q"
    and "cell_amount b' = (cell_amount b)(CAvailable := cell_amount b CAvailable + ticks_get q)"
proof -
  let ?v = "StockTicks (ticks_get (available (physical b)) + ticks_get q)"
  have b': "introduced b' = StockTicks (ticks_get (introduced b) + ticks_get q)"
      "physical b' = cell_set CAvailable ?v (physical b)"
    and fits: "ticks_get (introduced b) + ticks_get q \<le> MAX_TICKS"
    using step by (auto simp: correct_add_spec [OF b q] split: if_splits)
  have total: "cells_total (physical b') = ticks_get (introduced b')"
    unfolding b' using cells_total_set [of CAvailable ?v "physical b"] b by (simp add: wf_Pool_def)
  moreover have "wf_Physical (physical b')"
    using cell_le_total [of _ "physical b'"] fits total
    by (auto simp: wf_Physical_iff wf_Ticks_def b'(1) intro: order_trans)
  ultimately show "wf_Pool b'" using fits by (simp add: wf_Pool_def wf_Ticks_def b'(1))
  show "ticks_get (introduced b') = ticks_get (introduced b) + ticks_get q" by (simp add: b')
  show "cell_amount b' = (cell_amount b)(CAvailable := cell_amount b CAvailable + ticks_get q)"
    by (auto simp: cell_amount_def b'(2) simp del: cell_set.simps)
qed

section \<open>Pools as event systems\<close>

text \<open>
  A step is one successful call of a movement operation, labelled with what it claims to do.
  The label alone determines the abstract effect, so a run of labels is a ledger from which
  every balance can be recomputed.
\<close>

inductive pool_step :: "PoolBalances \<Rightarrow> pool_event \<Rightarrow> PoolBalances \<Rightarrow> bool" where
  step_add: "wf_Ticks q \<Longrightarrow> PoolBalances_correct_available b Add q = Inr b' \<Longrightarrow>
     pool_step b (Introduced (ticks_get q)) b'"
| step_remove: "wf_Ticks q \<Longrightarrow> PoolBalances_correct_available b Remove q = Inr b' \<Longrightarrow>
     pool_step b (Moved CAvailable CRemoved (ticks_get q)) b'"
| step_spoil: "wf_Ticks q \<Longrightarrow> PoolBalances_correct_available b Spoil q = Inr b' \<Longrightarrow>
     pool_step b (Moved CAvailable CWaste (ticks_get q)) b'"
| step_hold: "wf_Ticks q \<Longrightarrow> PoolBalances_hold_available b q = Inr b' \<Longrightarrow>
     pool_step b (Moved CAvailable CPreparatory (ticks_get q)) b'"
| step_install: "wf_Ticks q \<Longrightarrow> PoolBalances_install_preparatory b q = Inr b' \<Longrightarrow>
     pool_step b (Moved CPreparatory CCommitted (ticks_get q)) b'"
| step_release: "wf_Ticks q \<Longrightarrow> PoolBalances_release_preparatory b q = Inr b' \<Longrightarrow>
     pool_step b (Moved CPreparatory CAvailable (ticks_get q)) b'"
| step_release_committed: "wf_Ticks q \<Longrightarrow> release_committed b q = Inr b' \<Longrightarrow>
     pool_step b (Moved CCommitted CAvailable (ticks_get q)) b'"
| step_consume_committed: "wf_Ticks q \<Longrightarrow> consume_committed b q = Inr b' \<Longrightarrow>
     pool_step b (Moved CCommitted CConsumed (ticks_get q)) b'"
| step_quarantine_preparatory: "wf_Ticks q \<Longrightarrow> quarantine_preparatory b q = Inr b' \<Longrightarrow>
     pool_step b (Moved CPreparatory CQuarantine (ticks_get q)) b'"
| step_quarantine_committed: "wf_Ticks q \<Longrightarrow> quarantine_committed b q = Inr b' \<Longrightarrow>
     pool_step b (Moved CCommitted CQuarantine (ticks_get q)) b'"
| step_restore: "wf_Ticks q \<Longrightarrow> restore_quarantined b q = Inr b' \<Longrightarrow>
     pool_step b (Moved CQuarantine CCommitted (ticks_get q)) b'"
| step_release_quarantined: "wf_Ticks q \<Longrightarrow> release_quarantined b q = Inr b' \<Longrightarrow>
     pool_step b (Moved CQuarantine CAvailable (ticks_get q)) b'"
| step_consume_quarantined: "wf_Ticks q \<Longrightarrow> consume_quarantined b q = Inr b' \<Longrightarrow>
     pool_step b (Moved CQuarantine CConsumed (ticks_get q)) b'"
| step_deplete: "wf_Ticks q \<Longrightarrow> deplete_held b category loss q = Inr b' \<Longrightarrow>
     pool_step b (Moved (held_cell category) (loss_cell loss) (ticks_get q)) b'"

inductive pool_run :: "PoolBalances \<Rightarrow> pool_event list \<Rightarrow> PoolBalances \<Rightarrow> bool" where
  run_nil: "pool_run b [] b"
| run_cons: "pool_step b e c \<Longrightarrow> pool_run c es d \<Longrightarrow> pool_run b (e # es) d"

inductive_cases pool_step_elim: "pool_step b e b'"

inductive_simps pool_run_simps: "pool_run b [] d" "pool_run b (e # es) d"

fun inflow :: "stock_cell \<Rightarrow> pool_event \<Rightarrow> nat" where
  "inflow c (Introduced q) = (if c = CAvailable then q else 0)"
| "inflow c (Moved s d q) = (if c = d then q else 0)"

fun outflow :: "stock_cell \<Rightarrow> pool_event \<Rightarrow> nat" where
  "outflow c (Introduced q) = 0"
| "outflow c (Moved s d q) = (if c = s then q else 0)"

fun introduction :: "pool_event \<Rightarrow> nat" where
  "introduction (Introduced q) = q"
| "introduction (Moved s d q) = 0"

lemma held_loss_cells [simp]: "held_cell k \<noteq> loss_cell l" "\<not> terminal_cell (held_cell k)"
  by (cases k; cases l; simp add: terminal_cell_def)+

lemma terminal_cells [simp]:
  "\<not> terminal_cell CAvailable" "\<not> terminal_cell CPreparatory" "\<not> terminal_cell CCommitted"
  "\<not> terminal_cell CQuarantine"
  by (simp_all add: terminal_cell_def)

lemma correct_add_effect:
  assumes "wf_Pool b" and "wf_Ticks q" and "PoolBalances_correct_available b Add q = Inr b'"
  shows "event_effect (Introduced (ticks_get q)) b b'"
  using correct_add_Inr [OF assms] by simp

lemmas movement_wf =
  hold.op_Inr(1) install.op_Inr(1) release.op_Inr(1) correct_remove.op_Inr(1)
  correct_spoil.op_Inr(1) release_c.op_Inr(1) consume_c.op_Inr(1) quarantine_p.op_Inr(1)
  quarantine_c.op_Inr(1) restore_q.op_Inr(1) release_q.op_Inr(1) consume_q.op_Inr(1)
  deplete.op_Inr(1) correct_add_Inr(1)

lemmas movement_effects =
  hold.op_effect install.op_effect release.op_effect correct_remove.op_effect
  correct_spoil.op_effect release_c.op_effect consume_c.op_effect quarantine_p.op_effect
  quarantine_c.op_effect restore_q.op_effect release_q.op_effect consume_q.op_effect
  deplete.op_effect correct_add_effect

lemma pool_step_wf: "pool_step b e b' \<Longrightarrow> wf_Pool b \<Longrightarrow> wf_Pool b'"
  by (erule pool_step_elim) (blast intro: movement_wf)+

lemma pool_step_effect: "pool_step b e b' \<Longrightarrow> wf_Pool b \<Longrightarrow> event_effect e b b'"
  by (erule pool_step_elim; hypsubst; rule movement_effects; assumption?) simp_all

lemma pool_run_ledger:
  assumes "pool_run b es b'" and "wf_Pool b"
  shows "wf_Pool b' \<and> ticks_get (introduced b') = ticks_get (introduced b) + (\<Sum>e\<leftarrow>es. introduction e)
    \<and> (\<forall>c. cell_amount b' c + (\<Sum>e\<leftarrow>es. outflow c e) = cell_amount b c + (\<Sum>e\<leftarrow>es. inflow c e))
    \<and> (\<forall>c. terminal_cell c \<longrightarrow> (\<Sum>e\<leftarrow>es. outflow c e) = 0)"
  using assms
proof (induction rule: pool_run.induct)
  case (run_nil b)
  then show ?case by simp
next
  case (run_cons b e c es d)
  from run_cons.hyps(1) run_cons.prems have "wf_Pool c" and "event_effect e b c"
    by (blast intro: pool_step_wf pool_step_effect)+
  with run_cons.IH show ?case
    by (cases e) (auto simp: algebra_simps split: if_splits)
qed

lemma cells_total_amount: "cells_total (physical b) = (\<Sum>c\<leftarrow>all_cells. cell_amount b c)"
  by (simp add: cells_total_def cell_amount_def)

section \<open>Obligations\<close>

definition obligation :: "nat \<Rightarrow> nat \<Rightarrow> ObligationBacking" where
  "obligation backed deficit = \<lparr>ob_remaining = StockTicks (backed + deficit),
     ob_backed = StockTicks backed, ob_deficit = StockTicks deficit\<rparr>"

lemma ObligationBacking_new_Inr:
  assumes "wf_Ticks b" and "wf_Ticks d"
  shows "ObligationBacking_new r b d = Inr ob \<longleftrightarrow>
    ticks_get b + ticks_get d \<le> MAX_TICKS \<and> ticks_get r = ticks_get b + ticks_get d
    \<and> ob = obligation (ticks_get b) (ticks_get d)"
  using assms
  by (cases r) (auto simp: ObligationBacking_new_def StockTicks_checked_add_spec obligation_def)

lemma wf_Ticks_StockTicks [simp]: "wf_Ticks (StockTicks n) \<longleftrightarrow> n \<le> MAX_TICKS"
  by (simp add: wf_Ticks_def)

lemma ObligationBacking_new_sum:
  "r = b + d \<Longrightarrow> r \<le> MAX_TICKS \<Longrightarrow>
    ObligationBacking_new (StockTicks r) (StockTicks b) (StockTicks d) = Inr (obligation b d)"
  by (simp add: ObligationBacking_new_Inr)

lemma obligation_selectors [simp]:
  "ob_remaining (obligation b d) = StockTicks (b + d)" "ob_backed (obligation b d) = StockTicks b"
  "ob_deficit (obligation b d) = StockTicks d"
  by (simp_all add: obligation_def)

lemma positive_StockTicks: "positive (StockTicks q) = (if q = 0 then Inl ZeroMovement else Inr ())"
  by (simp add: positive_def ticks_eq_ZERO)

lemma obligation_specs:
  assumes bd: "b + d \<le> MAX_TICKS" and q: "q \<le> MAX_TICKS" and p: "p \<le> MAX_TICKS"
  shows "lose_backing (obligation b d) (StockTicks q) =
      (if q = 0 then Inl ZeroMovement else if b < q then Inl Underflow
       else Inr (obligation (b - q) (d + q)))"
    and "restore_backing (obligation b d) (StockTicks q) =
      (if q = 0 then Inl ZeroMovement else if d < q then Inl Underflow
       else Inr (obligation (b + q) (d - q)))"
    and "consume_backed (obligation b d) (StockTicks q) =
      (if q = 0 then Inl ZeroMovement else if b < q then Inl Underflow
       else Inr (obligation (b - q) d))"
    and "release_residual (obligation b d) (StockTicks q) (StockTicks p) =
      (if MAX_TICKS < q + p then Inl OutOfRange
       else if q + p = 0 then Inl ZeroMovement
       else if b < q \<or> d < p then Inl Underflow
       else Inr (obligation (b - q) (d - p)))"
proof -
  have wf: "wf_Ticks (StockTicks b)" "wf_Ticks (StockTicks d)" "wf_Ticks (StockTicks (b + d))"
    "wf_Ticks (StockTicks q)" "wf_Ticks (StockTicks p)"
    using assms by simp_all
  note specs = positive_StockTicks ticks_specs [OF wf(1)] ticks_specs [OF wf(2)]
    StockTicks_checked_add_spec [OF wf(2,4)] StockTicks_checked_add_spec [OF wf(1,4)]
    StockTicks_checked_add_spec [OF wf(4,5)] StockTicks_checked_sub_spec [OF wf(1)]
    StockTicks_checked_sub_spec [OF wf(2)] StockTicks_checked_sub_spec [OF wf(3)]
  show "lose_backing (obligation b d) (StockTicks q) =
      (if q = 0 then Inl ZeroMovement else if b < q then Inl Underflow
       else Inr (obligation (b - q) (d + q)))"
    using bd by (simp add: lose_backing_def specs ObligationBacking_new_sum)
  show "restore_backing (obligation b d) (StockTicks q) =
      (if q = 0 then Inl ZeroMovement else if d < q then Inl Underflow
       else Inr (obligation (b + q) (d - q)))"
    using bd by (simp add: restore_backing_def specs ObligationBacking_new_sum)
  show "consume_backed (obligation b d) (StockTicks q) =
      (if q = 0 then Inl ZeroMovement else if b < q then Inl Underflow
       else Inr (obligation (b - q) d))"
    using bd by (simp add: consume_backed_def specs ObligationBacking_new_sum)
  show "release_residual (obligation b d) (StockTicks q) (StockTicks p) =
      (if MAX_TICKS < q + p then Inl OutOfRange
       else if q + p = 0 then Inl ZeroMovement
       else if b < q \<or> d < p then Inl Underflow
       else Inr (obligation (b - q) (d - p)))"
    using bd by (simp add: release_residual_def specs ObligationBacking_new_sum)
qed

section \<open>Properties\<close>

definition implements_move ::
  "(PoolBalances \<Rightarrow> StockTicks \<Rightarrow> StockError + PoolBalances) \<Rightarrow> stock_cell \<Rightarrow> stock_cell \<Rightarrow> bool" where
  "implements_move op src dst \<longleftrightarrow> (\<forall>b q. wf_Pool b \<longrightarrow> wf_Ticks q \<longrightarrow>
     op b q = (if ticks_get q = 0 then Inl ZeroMovement
               else if cell_amount b src < ticks_get q then Inl Underflow
               else Inr (moved src dst (ticks_get q) b)))"

text \<open>C2: every movement operation that takes stock from one cell to another refines one abstract
  transfer between two cells of a conserving pool (a correction that adds stock introduces it and is not
  such a transfer): a zero quantity and a source that is too small are refused as such, any
  other call moves exactly the quantity, and neither the tick bound nor the conservation check
  of the constructor ever fails.\<close>

theorem pool_movements_refine:
  "implements_move PoolBalances_hold_available CAvailable CPreparatory
   \<and> implements_move PoolBalances_install_preparatory CPreparatory CCommitted
   \<and> implements_move PoolBalances_release_preparatory CPreparatory CAvailable
   \<and> implements_move (\<lambda>b. PoolBalances_correct_available b Remove) CAvailable CRemoved
   \<and> implements_move (\<lambda>b. PoolBalances_correct_available b Spoil) CAvailable CWaste
   \<and> implements_move release_committed CCommitted CAvailable
   \<and> implements_move consume_committed CCommitted CConsumed
   \<and> implements_move quarantine_preparatory CPreparatory CQuarantine
   \<and> implements_move quarantine_committed CCommitted CQuarantine
   \<and> implements_move restore_quarantined CQuarantine CCommitted
   \<and> implements_move release_quarantined CQuarantine CAvailable
   \<and> implements_move consume_quarantined CQuarantine CConsumed
   \<and> implements_move (\<lambda>b. deplete_held b category loss) (held_cell category) (loss_cell loss)"
  unfolding implements_move_def
  by (simp add: hold.op_spec install.op_spec release.op_spec correct_remove.op_spec
      correct_spoil.op_spec release_c.op_spec consume_c.op_spec quarantine_p.op_spec
      quarantine_c.op_spec restore_q.op_spec release_q.op_spec consume_q.op_spec deplete.op_spec)

text \<open>C1: along any sequence of movements from a conserving pool, the pool stays conserving:
  its seven balances add up to introduced stock, introduced stock grows exactly by the positive
  corrections, every balance is its start plus what flowed in minus what flowed out, and
  consumed, wasted and removed stock never decreases.\<close>

theorem pool_ledger_conserved:
  assumes "pool_run b es b'" and "wf_Pool b"
  shows "(\<Sum>c\<leftarrow>all_cells. cell_amount b' c) = ticks_get (introduced b')
    \<and> ticks_get (introduced b') \<le> MAX_TICKS
    \<and> ticks_get (introduced b') = ticks_get (introduced b) + (\<Sum>e\<leftarrow>es. introduction e)
    \<and> cell_amount b' c + (\<Sum>e\<leftarrow>es. outflow c e) = cell_amount b c + (\<Sum>e\<leftarrow>es. inflow c e)
    \<and> (terminal_cell c \<longrightarrow> cell_amount b c \<le> cell_amount b' c)"
proof (intro conjI impI)
  note ledger = pool_run_ledger [OF assms]
  show "(\<Sum>c\<leftarrow>all_cells. cell_amount b' c) = ticks_get (introduced b')"
    and "ticks_get (introduced b') \<le> MAX_TICKS"
    using ledger by (simp_all add: wf_Pool_def wf_Ticks_def cells_total_amount)
  show "ticks_get (introduced b') = ticks_get (introduced b) + (\<Sum>e\<leftarrow>es. introduction e)"
    using ledger by blast
  show flow: "cell_amount b' c + (\<Sum>e\<leftarrow>es. outflow c e) = cell_amount b c + (\<Sum>e\<leftarrow>es. inflow c e)"
    using ledger by blast
  show "cell_amount b c \<le> cell_amount b' c" if "terminal_cell c"
    using ledger that flow by (metis add.right_neutral le_add1)
qed

definition sample_genesis :: PoolBalances where
  "sample_genesis = \<lparr>introduced = StockTicks_ZERO, physical = PhysicalBalances_ZERO\<rparr>"

definition sample_pool :: "nat \<Rightarrow> nat \<Rightarrow> nat \<Rightarrow> nat \<Rightarrow> PoolBalances" where
  "sample_pool n a p c = \<lparr>introduced = StockTicks n, physical = PhysicalBalances_ZERO
     \<lparr>available := StockTicks a, preparatory_hold := StockTicks p, committed_hold := StockTicks c\<rparr>\<rparr>"

lemma wf_sample_genesis: "wf_Pool sample_genesis"
  by code_simp

lemma sample_run:
  "pool_run sample_genesis
     [Introduced 10, Moved CAvailable CPreparatory 4, Moved CPreparatory CCommitted 3]
     (sample_pool 10 6 1 3)"
proof -
  have "pool_step sample_genesis (Introduced (ticks_get (StockTicks 10))) (sample_pool 10 10 0 0)"
    by (rule step_add) (code_simp, code_simp)
  moreover have "pool_step (sample_pool 10 10 0 0)
      (Moved CAvailable CPreparatory (ticks_get (StockTicks 4))) (sample_pool 10 6 4 0)"
    by (rule step_hold) (code_simp, code_simp)
  moreover have "pool_step (sample_pool 10 6 4 0)
      (Moved CPreparatory CCommitted (ticks_get (StockTicks 3))) (sample_pool 10 6 1 3)"
    by (rule step_install) (code_simp, code_simp)
  ultimately show ?thesis by (auto simp: pool_run_simps)
qed

theorem pool_ledger_conserved_witness:
  "ticks_get (introduced (sample_pool 10 6 1 3)) = 0 + 10
   \<and> cell_amount sample_genesis CConsumed \<le> cell_amount (sample_pool 10 6 1 3) CConsumed"
  using pool_ledger_conserved [OF sample_run wf_sample_genesis, of CConsumed]
  by (simp add: sample_genesis_def terminal_cell_def)

text \<open>C27: holding and releasing a hold, and quarantining and restoring committed stock, are
  inverse: whatever the first one does the second undoes, returning the very same pool.\<close>

theorem pool_movements_reversible:
  assumes "wf_Pool b" and "wf_Ticks q"
  shows "(PoolBalances_hold_available b q = Inr b' \<longrightarrow> PoolBalances_release_preparatory b' q = Inr b)
    \<and> (quarantine_committed b q = Inr b' \<longrightarrow> restore_quarantined b' q = Inr b)"
  using hold_undo.undo [OF assms] quarantine_undo.undo [OF assms] by blast

theorem pool_movements_reversible_witness:
  "PoolBalances_release_preparatory (sample_pool 10 6 4 0) (StockTicks 4) = Inr (sample_pool 10 10 0 0)"
proof -
  have "wf_Pool (sample_pool 10 10 0 0)" by code_simp
  moreover have "wf_Ticks (StockTicks 4)" by code_simp
  moreover have "PoolBalances_hold_available (sample_pool 10 10 0 0) (StockTicks 4)
      = Inr (sample_pool 10 6 4 0)" by code_simp
  ultimately show ?thesis
    using pool_movements_reversible [of "sample_pool 10 10 0 0" "StockTicks 4" "sample_pool 10 6 4 0"]
    by blast
qed

text \<open>C26: an obligation is exactly a backed part and a deficit. Losing backing moves quantity
  from the first to the second and restoring moves it back, neither changing what remains;
  consuming takes from the backed part only; releasing takes from both. Each is refused for a
  zero quantity and for a part that is too small, and in no other case.\<close>

theorem obligation_operations_exact:
  assumes "b + d \<le> MAX_TICKS" and "q \<le> MAX_TICKS" and "p \<le> MAX_TICKS"
  shows "lose_backing (obligation b d) (StockTicks q) =
      (if q = 0 then Inl ZeroMovement else if b < q then Inl Underflow
       else Inr (obligation (b - q) (d + q)))
    \<and> restore_backing (obligation b d) (StockTicks q) =
      (if q = 0 then Inl ZeroMovement else if d < q then Inl Underflow
       else Inr (obligation (b + q) (d - q)))
    \<and> consume_backed (obligation b d) (StockTicks q) =
      (if q = 0 then Inl ZeroMovement else if b < q then Inl Underflow
       else Inr (obligation (b - q) d))
    \<and> release_residual (obligation b d) (StockTicks q) (StockTicks p) =
      (if MAX_TICKS < q + p then Inl OutOfRange
       else if q + p = 0 then Inl ZeroMovement
       else if b < q \<or> d < p then Inl Underflow
       else Inr (obligation (b - q) (d - p)))"
  by (intro conjI obligation_specs [OF assms])

theorem obligation_operations_exact_witness:
  "lose_backing (obligation 7 1) (StockTicks 3) = Inr (obligation 4 4)
   \<and> restore_backing (obligation 7 1) (StockTicks 3) = Inl Underflow"
  using obligation_operations_exact [of 7 1 3 0] by (simp add: MAX_TICKS_def)

text \<open>A quantity in the pool's own unit converts to ticks exactly when its value is a whole
  number of ticks, and then to that number; there is no rounding and no overflow.\<close>

theorem PoolUnit_ticks_exact:
  assumes "wf_Quantity q" and "wf_PoolUnit u"
  shows "(PoolUnit_ticks_for u q = Inr t \<longleftrightarrow>
      qty_unit q = pu_unit u \<and> micros (qty_amount q) = ticks_get t * 10 ^ (6 - pu_scale u))
    \<and> (PoolUnit_ticks_for u q = Inl e \<longleftrightarrow>
      (if qty_unit q \<noteq> pu_unit u then e = UnitMismatch
       else \<not> 10 ^ (6 - pu_scale u) dvd micros (qty_amount q) \<and> e = PrecisionLoss))"
proof -
  have "scale (qty_amount q) \<le> pu_scale u \<longleftrightarrow> 10 ^ (6 - pu_scale u) dvd micros (qty_amount q)"
    using assms by (intro scale_le_iff) (simp_all add: wf_Quantity_def wf_PoolUnit_def)
  then have "PoolUnit_ticks_for u q = Inl e \<longleftrightarrow>
      (if qty_unit q \<noteq> pu_unit u then e = UnitMismatch
       else \<not> 10 ^ (6 - pu_scale u) dvd micros (qty_amount q) \<and> e = PrecisionLoss)"
    by (auto simp: ticks_for_spec [OF assms])
  with ticks_for_Inr [OF assms] show ?thesis by blast
qed

definition sample_unit :: PoolUnit where
  "sample_unit = \<lparr>pu_unit = Kilogram, pu_scale = 3\<rparr>"

definition sample_weight :: Quantity where
  "sample_weight = \<lparr>qty_amount = \<lparr>coefficient = 25, scale = 1\<rparr>, qty_unit = Kilogram\<rparr>"

theorem PoolUnit_ticks_exact_witness:
  "PoolUnit_ticks_for sample_unit sample_weight = Inr (StockTicks 2500)"
proof -
  have "wf_Quantity sample_weight" and "wf_PoolUnit sample_unit" by code_simp+
  then show ?thesis
    using PoolUnit_ticks_exact [of sample_weight sample_unit "StockTicks 2500"]
    by (simp add: sample_weight_def sample_unit_def micros_def)
qed

end
