(* ===== verification/Stock_Wire.thy ===== *)
theory Stock_Wire
  imports Stock
begin

text \<open>
  The closed codecs of \<open>crates/domain/src/stock/serialization.rs\<close>: pool units, balances,
  obligations and snapshots as objects of canonical strings. A wire record holds the fields of
  the closed object (unknown fields are denied by the serializer), and decoding runs the
  constructors of the values.
\<close>

section \<open>Wire objects\<close>

datatype WireError = WireError

definition Scale_visit_str :: "string \<Rightarrow> WireError + u8" where
  "Scale_visit_str v =
     (case v of [byte] \<Rightarrow> if 48 \<le> byte_of byte \<and> byte_of byte \<le> 54 then Inr (byte_of byte - 48) else Inl WireError
      | _ \<Rightarrow> Inl WireError)"

definition Scale_serialize :: "u8 \<Rightarrow> string" where
  "Scale_serialize s = show_nat s"

record UnitWire =
  uw_unit :: string
  uw_scale :: string

definition PoolUnit_serialize :: "PoolUnit \<Rightarrow> UnitWire" where
  "PoolUnit_serialize u =
     \<lparr>uw_unit = MeasurementUnit_symbol (pu_unit u), uw_scale = Scale_serialize (pu_scale u)\<rparr>"

definition PoolUnit_deserialize :: "UnitWire \<Rightarrow> WireError + PoolUnit" where
  "PoolUnit_deserialize w =
     bindE (ok_or WireError (MeasurementUnit_visit_str (uw_unit w))) (\<lambda>unit.
     bindE (Scale_visit_str (uw_scale w)) (\<lambda>s.
       map_err (\<lambda>_. WireError) (PoolUnit_new unit s)))"

definition ticks_deserialize :: "string \<Rightarrow> WireError + StockTicks" where
  "ticks_deserialize v = map_err (\<lambda>_. WireError) (StockTicks_from_str v)"

record PhysicalWire =
  hw_available :: string
  hw_preparatory_hold :: string
  hw_committed_hold :: string
  hw_physical_quarantine :: string
  hw_consumed :: string
  hw_waste :: string
  hw_removed :: string

definition PhysicalBalances_serialize :: "PhysicalBalances \<Rightarrow> PhysicalWire" where
  "PhysicalBalances_serialize p =
     \<lparr>hw_available = StockTicks_to_string (available p),
      hw_preparatory_hold = StockTicks_to_string (preparatory_hold p),
      hw_committed_hold = StockTicks_to_string (committed_hold p),
      hw_physical_quarantine = StockTicks_to_string (physical_quarantine p),
      hw_consumed = StockTicks_to_string (consumed p),
      hw_waste = StockTicks_to_string (waste p),
      hw_removed = StockTicks_to_string (removed p)\<rparr>"

definition PhysicalBalances_deserialize :: "PhysicalWire \<Rightarrow> WireError + PhysicalBalances" where
  "PhysicalBalances_deserialize w =
     bindE (ticks_deserialize (hw_available w)) (\<lambda>a.
     bindE (ticks_deserialize (hw_preparatory_hold w)) (\<lambda>p.
     bindE (ticks_deserialize (hw_committed_hold w)) (\<lambda>c.
     bindE (ticks_deserialize (hw_physical_quarantine w)) (\<lambda>q.
     bindE (ticks_deserialize (hw_consumed w)) (\<lambda>d.
     bindE (ticks_deserialize (hw_waste w)) (\<lambda>x.
     bindE (ticks_deserialize (hw_removed w)) (\<lambda>r.
       Inr \<lparr>available = a, preparatory_hold = p, committed_hold = c, physical_quarantine = q,
            consumed = d, waste = x, removed = r\<rparr>)))))))"

record BalancesWire =
  bw_introduced :: string
  bw_physical :: PhysicalWire

definition PoolBalances_serialize :: "PoolBalances \<Rightarrow> BalancesWire" where
  "PoolBalances_serialize b =
     \<lparr>bw_introduced = StockTicks_to_string (introduced b),
      bw_physical = PhysicalBalances_serialize (physical b)\<rparr>"

definition PoolBalances_deserialize :: "BalancesWire \<Rightarrow> WireError + PoolBalances" where
  "PoolBalances_deserialize w =
     bindE (ticks_deserialize (bw_introduced w)) (\<lambda>i.
     bindE (PhysicalBalances_deserialize (bw_physical w)) (\<lambda>p.
       map_err (\<lambda>_. WireError) (PoolBalances_new i p)))"

record BackingWire =
  kw_remaining :: string
  kw_backed :: string
  kw_deficit :: string

definition ObligationBacking_serialize :: "ObligationBacking \<Rightarrow> BackingWire" where
  "ObligationBacking_serialize ob =
     \<lparr>kw_remaining = StockTicks_to_string (ob_remaining ob),
      kw_backed = StockTicks_to_string (ob_backed ob),
      kw_deficit = StockTicks_to_string (ob_deficit ob)\<rparr>"

definition ObligationBacking_deserialize :: "BackingWire \<Rightarrow> WireError + ObligationBacking" where
  "ObligationBacking_deserialize w =
     bindE (ticks_deserialize (kw_remaining w)) (\<lambda>r.
     bindE (ticks_deserialize (kw_backed w)) (\<lambda>b.
     bindE (ticks_deserialize (kw_deficit w)) (\<lambda>d.
       map_err (\<lambda>_. WireError) (ObligationBacking_new r b d))))"

record SnapshotWire =
  sw_id :: string
  sw_unit :: UnitWire
  sw_balances :: BalancesWire
  sw_version :: string

definition PoolSnapshot_serialize :: "PoolSnapshot \<Rightarrow> SnapshotWire" where
  "PoolSnapshot_serialize s =
     \<lparr>sw_id = id_to_string (ps_id s), sw_unit = PoolUnit_serialize (ps_unit s),
      sw_balances = PoolBalances_serialize (ps_balances s),
      sw_version = show_nat (sequence_get (ps_version s))\<rparr>"

definition PoolSnapshot_deserialize :: "SnapshotWire \<Rightarrow> WireError + PoolSnapshot" where
  "PoolSnapshot_deserialize w =
     bindE (map_err (\<lambda>_. WireError) (id_from_str (sw_id w))) (\<lambda>i.
     bindE (PoolUnit_deserialize (sw_unit w)) (\<lambda>u.
     bindE (PoolBalances_deserialize (sw_balances w)) (\<lambda>b.
     bindE (map_err (\<lambda>_. WireError) (Sequence_from_str (sw_version w))) (\<lambda>v.
       Inr \<lparr>ps_id = i, ps_unit = u, ps_balances = b, ps_version = v\<rparr>))))"

section \<open>Codecs\<close>

definition wf_Backing :: "ObligationBacking \<Rightarrow> bool" where
  "wf_Backing ob \<longleftrightarrow> wf_Ticks (ob_remaining ob)
     \<and> ticks_get (ob_remaining ob) = ticks_get (ob_backed ob) + ticks_get (ob_deficit ob)"

definition wf_Snapshot :: "PoolSnapshot \<Rightarrow> bool" where
  "wf_Snapshot s \<longleftrightarrow> wf_id (ps_id s) \<and> wf_PoolUnit (ps_unit s) \<and> wf_Pool (ps_balances s)
     \<and> wf_Sequence (ps_version s)"

interpretation scale_codec: canonical_codec "\<lambda>s. s \<le> 6" Scale_serialize Scale_visit_str
proof
  fix s :: nat assume "s \<le> 6"
  then show "Scale_visit_str (Scale_serialize s) = Inr s"
    by (simp add: Scale_visit_str_def Scale_serialize_def show_nat.simps [of s])
next
  fix v s assume "Scale_visit_str v = Inr s"
  then obtain c where v: "v = [c]" and c: "48 \<le> byte_of c" "byte_of c \<le> 54" and s: "s = byte_of c - 48"
    by (auto simp: Scale_visit_str_def split: list.splits if_splits)
  then have "digit_char s = c"
    using digit_char_digit_value [of c] by (simp add: is_ascii_digit_def digit_value_def)
  moreover have "s \<le> 6" using c s by simp
  ultimately show "s \<le> 6 \<and> Scale_serialize s = v"
    using v by (simp add: Scale_serialize_def show_nat.simps [of s])
qed

lemma MeasurementUnit_visit_str_iff:
  "MeasurementUnit_visit_str v = Some u \<longleftrightarrow> MeasurementUnit_symbol u = v"
  using unit_codec.parse_iff [of v u] by (simp add: ok_or_eq_Inr)

lemma MeasurementUnit_visit_symbol [simp]:
  "MeasurementUnit_visit_str (MeasurementUnit_symbol u) = Some u"
  by (simp add: MeasurementUnit_visit_str_iff)

interpretation pool_unit_codec: canonical_codec wf_PoolUnit PoolUnit_serialize PoolUnit_deserialize
proof
  fix u assume "wf_PoolUnit u"
  then show "PoolUnit_deserialize (PoolUnit_serialize u) = Inr u"
    by (auto simp: PoolUnit_deserialize_def PoolUnit_serialize_def scale_codec.parse_render
        wf_PoolUnit_def PoolUnit_new_def)
next
  fix w u assume "PoolUnit_deserialize w = Inr u"
  then show "wf_PoolUnit u \<and> PoolUnit_serialize u = w"
    by (cases w) (auto simp: PoolUnit_deserialize_def PoolUnit_serialize_def result_simps
        MeasurementUnit_visit_str_iff scale_codec.parse_iff PoolUnit_new_def wf_PoolUnit_def)
qed

interpretation ticks_wire: canonical_codec wf_Ticks StockTicks_to_string ticks_deserialize
  by unfold_locales (simp_all add: ticks_deserialize_def result_simps ticks_codec.parse_iff
      ticks_codec.parse_render)

lemma wf_Physical_fields:
  "wf_Physical p \<longleftrightarrow> wf_Ticks (available p) \<and> wf_Ticks (preparatory_hold p) \<and> wf_Ticks (committed_hold p)
    \<and> wf_Ticks (physical_quarantine p) \<and> wf_Ticks (consumed p) \<and> wf_Ticks (waste p)
    \<and> wf_Ticks (removed p)"
  by (simp add: wf_Physical_def all_cells_def)

interpretation physical_codec:
  canonical_codec wf_Physical PhysicalBalances_serialize PhysicalBalances_deserialize
proof
  fix p assume "wf_Physical p"
  then show "PhysicalBalances_deserialize (PhysicalBalances_serialize p) = Inr p"
    by (simp add: PhysicalBalances_deserialize_def PhysicalBalances_serialize_def
        wf_Physical_fields ticks_wire.parse_render)
next
  fix w p assume "PhysicalBalances_deserialize w = Inr p"
  then show "wf_Physical p \<and> PhysicalBalances_serialize p = w"
    by (cases w) (auto simp: PhysicalBalances_deserialize_def PhysicalBalances_serialize_def
        result_simps ticks_wire.parse_iff wf_Physical_fields)
qed

interpretation balances_codec:
  canonical_codec wf_Pool PoolBalances_serialize PoolBalances_deserialize
proof
  fix b assume "wf_Pool b"
  then show "PoolBalances_deserialize (PoolBalances_serialize b) = Inr b"
    by (simp add: PoolBalances_deserialize_def PoolBalances_serialize_def wf_Pool_def
        ticks_wire.parse_render physical_codec.parse_render result_simps PoolBalances_new_Inr)
next
  fix w b assume "PoolBalances_deserialize w = Inr b"
  then show "wf_Pool b \<and> PoolBalances_serialize b = w"
    by (cases w) (auto simp: PoolBalances_deserialize_def PoolBalances_serialize_def result_simps
        ticks_wire.parse_iff physical_codec.parse_iff PoolBalances_new_Inr wf_Pool_def)
qed

lemma ObligationBacking_new_fields:
  assumes "wf_Ticks b" and "wf_Ticks d"
  shows "ObligationBacking_new r b d = Inr ob \<longleftrightarrow>
    wf_Backing ob \<and> ob = \<lparr>ob_remaining = r, ob_backed = b, ob_deficit = d\<rparr>"
  using assms
  by (cases r; cases b; cases d) (auto simp: ObligationBacking_new_Inr wf_Backing_def obligation_def)

interpretation backing_codec:
  canonical_codec wf_Backing ObligationBacking_serialize ObligationBacking_deserialize
proof
  fix ob assume wf: "wf_Backing ob"
  then have "wf_Ticks (ob_backed ob)" "wf_Ticks (ob_deficit ob)" "wf_Ticks (ob_remaining ob)"
    by (auto simp: wf_Backing_def wf_Ticks_def)
  with wf show "ObligationBacking_deserialize (ObligationBacking_serialize ob) = Inr ob"
    by (simp add: ObligationBacking_deserialize_def ObligationBacking_serialize_def
        ticks_wire.parse_render result_simps ObligationBacking_new_fields)
next
  fix w ob assume "ObligationBacking_deserialize w = Inr ob"
  then show "wf_Backing ob \<and> ObligationBacking_serialize ob = w"
    by (cases w) (auto simp: ObligationBacking_deserialize_def ObligationBacking_serialize_def
        result_simps ticks_wire.parse_iff ObligationBacking_new_fields)
qed

interpretation snapshot_codec:
  canonical_codec wf_Snapshot PoolSnapshot_serialize PoolSnapshot_deserialize
proof
  fix s assume "wf_Snapshot s"
  then show "PoolSnapshot_deserialize (PoolSnapshot_serialize s) = Inr s"
    by (simp add: PoolSnapshot_deserialize_def PoolSnapshot_serialize_def wf_Snapshot_def
        id_codec.parse_render sequence_codec.parse_render pool_unit_codec.parse_render
        balances_codec.parse_render)
next
  fix w s assume "PoolSnapshot_deserialize w = Inr s"
  then show "wf_Snapshot s \<and> PoolSnapshot_serialize s = w"
    by (cases w) (auto simp: PoolSnapshot_deserialize_def PoolSnapshot_serialize_def wf_Snapshot_def
        result_simps id_codec.parse_iff sequence_codec.parse_iff pool_unit_codec.parse_iff
        balances_codec.parse_iff)
qed

section \<open>Properties\<close>

text \<open>C38: decoding a pool snapshot, its unit and balances, or an obligation accepts exactly the
  encodings of well-formed values, one per value. In particular no accepted balances violate
  conservation and no accepted obligation differs from backed part plus deficit.\<close>

theorem stock_wire_canonical:
  "(PoolSnapshot_deserialize ws = Inr s \<longleftrightarrow> wf_Snapshot s \<and> PoolSnapshot_serialize s = ws)
   \<and> (PoolUnit_deserialize wu = Inr u \<longleftrightarrow> wf_PoolUnit u \<and> PoolUnit_serialize u = wu)
   \<and> (PoolBalances_deserialize wb = Inr b \<longleftrightarrow> wf_Pool b \<and> PoolBalances_serialize b = wb)
   \<and> (ObligationBacking_deserialize wo = Inr ob \<longleftrightarrow>
        wf_Backing ob \<and> ObligationBacking_serialize ob = wo)"
  by (simp add: snapshot_codec.parse_iff pool_unit_codec.parse_iff balances_codec.parse_iff
      backing_codec.parse_iff)

end
