(* ===== verification/Pricing.thy ===== *)
theory Pricing
  imports Quantity Money
begin

text \<open>
  Fixed and measured prices of \<open>crates/domain/src/pricing.rs\<close> and \<open>variable_price.rs\<close>: the
  discounted half-even line calculation, ordered price tiers, order totals, and
  weight-dependent prices under a monetary cap.
\<close>

section \<open>Definitions\<close>

definition MAX_PRICED_LINES :: nat where
  "MAX_PRICED_LINES = 32"

definition MAX_TIERS :: nat where
  "MAX_TIERS = 8"

datatype PricingError =
    InvalidDiscount
  | TooManyTiers
  | InvalidTierOrder
  | InvalidLineCount
  | InvalidMeasurementRange
  | MeasurementUnitMismatch
  | MeasurementOutOfRange
  | CapExceeded
  | ArithmeticOutOfRange
  | MoneyFailure MoneyError

datatype DiscountBps = DiscountBps (bps_get: u16)

definition DiscountBps_NONE :: DiscountBps where
  "DiscountBps_NONE = DiscountBps 0"

definition DiscountBps_new :: "u16 \<Rightarrow> PricingError + DiscountBps" where
  "DiscountBps_new v = (if 10000 < v then Inl InvalidDiscount else Inr (DiscountBps v))"

record PriceTier =
  tier_from :: Decimal
  tier_rate :: Money

record FixedPrice =
  fp_rate :: Money
  fp_basis :: PositiveDecimal
  fp_discount_bps :: DiscountBps
  fp_tiers :: "PriceTier list"

record LinePrice =
  lp_rate :: Money
  lp_basis :: PositiveDecimal
  lp_discount_bps :: DiscountBps
  lp_selected_tier_from :: "Decimal option"
  lp_total :: Money

text \<open>The loop over the tiers; the first argument is \<open>rate.currency()\<close>, the second \<open>previous\<close>.\<close>

fun check_tiers :: "Currency \<Rightarrow> Decimal option \<Rightarrow> PriceTier list \<Rightarrow> PricingError + unit" where
  "check_tiers c previous [] = Inr ()"
| "check_tiers c previous (tier # tiers) =
     (if money_currency (tier_rate tier) \<noteq> c then Inl (MoneyFailure CurrencyMismatch)
      else if (case previous of None \<Rightarrow> False | Some v \<Rightarrow> Decimal_le (tier_from tier) v)
        then Inl InvalidTierOrder
      else check_tiers c (Some (tier_from tier)) tiers)"

definition FixedPrice_new ::
  "Money \<Rightarrow> PositiveDecimal \<Rightarrow> DiscountBps \<Rightarrow> PriceTier list \<Rightarrow> PricingError + FixedPrice" where
  "FixedPrice_new rate basis discount_bps tiers =
     (if MAX_TIERS < length tiers then Inl TooManyTiers
      else bindE (check_tiers (money_currency rate) None tiers) (\<lambda>_.
        Inr \<lparr>fp_rate = rate, fp_basis = basis, fp_discount_bps = discount_bps, fp_tiers = tiers\<rparr>))"

definition net_line_minor ::
  "MinorAmount \<Rightarrow> PositiveDecimal \<Rightarrow> PositiveDecimal \<Rightarrow> DiscountBps \<Rightarrow> PricingError + MinorAmount" where
  "net_line_minor rate amount basis discount =
     (let amount = pd_amount amount; basis = pd_amount basis;
          pow10 = (\<lambda>digits. ok_or ArithmeticOutOfRange (checked_pow_i 128 10 digits)) in
      bindE (pow10 (scale basis)) (\<lambda>basis_scale.
      bindE (pow10 (scale amount)) (\<lambda>amount_scale.
      bindE (ok_or ArithmeticOutOfRange
        (Option.bind (checked_mul_i 128 (int (minor_get rate)) (int (coefficient amount))) (\<lambda>v.
         Option.bind (checked_mul_i 128 v basis_scale) (\<lambda>v.
         checked_mul_i 128 v (int (sub_u 16 10000 (bps_get discount))))))) (\<lambda>numerator.
      bindE (ok_or ArithmeticOutOfRange
        (Option.bind (checked_mul_i 128 (int (coefficient basis)) amount_scale) (\<lambda>v.
         checked_mul_i 128 v 10000))) (\<lambda>denominator.
      bindE (ok_or ArithmeticOutOfRange (checked_div_i 128 numerator denominator)) (\<lambda>quotient.
      bindE (ok_or ArithmeticOutOfRange
        (Option.bind (checked_rem_i 128 numerator denominator) (\<lambda>v. checked_mul_i 128 v 2)))
        (\<lambda>twice_remainder.
      bindE (ok_or ArithmeticOutOfRange (checked_rem_i 128 quotient 2)) (\<lambda>parity.
      let increment = denominator < twice_remainder \<or> (twice_remainder = denominator \<and> parity = 1) in
      bindE (ok_or ArithmeticOutOfRange (checked_add_i 128 quotient (if increment then 1 else 0)))
        (\<lambda>rounded.
      bindE (ok_or (MoneyFailure MinorOutOfRange) (u64_try_from rounded)) (\<lambda>rounded.
      map_err MoneyFailure (MinorAmount_new rounded)))))))))))"

definition FixedPrice_line :: "FixedPrice \<Rightarrow> PositiveDecimal \<Rightarrow> PricingError + LinePrice" where
  "FixedPrice_line p amount =
     (let selected = find (\<lambda>tier. Decimal_le (tier_from tier) (pd_amount amount)) (rev (fp_tiers p));
          rate = (case selected of None \<Rightarrow> fp_rate p | Some tier \<Rightarrow> tier_rate tier) in
      bindE (net_line_minor (money_minor rate) amount (fp_basis p) (fp_discount_bps p)) (\<lambda>minor.
        Inr \<lparr>lp_rate = rate, lp_basis = fp_basis p, lp_discount_bps = fp_discount_bps p,
             lp_selected_tier_from = map_option tier_from selected,
             lp_total = Money_new (money_currency rate) minor\<rparr>))"

definition checked_order_total :: "Money list \<Rightarrow> Money \<Rightarrow> PricingError + Money" where
  "checked_order_total lines fulfillment_charge =
     (if lines = [] \<or> MAX_PRICED_LINES < length lines then Inl InvalidLineCount
      else map_err MoneyFailure (try_fold Money_checked_add fulfillment_charge lines))"

record VariableWeight =
  vw_measurement_unit :: MeasurementUnit
  vw_minimum :: PositiveDecimal
  vw_maximum :: PositiveDecimal
  vw_rate :: Money
  vw_basis :: PositiveDecimal
  vw_maximum_total :: Money

definition VariableWeight_total :: "VariableWeight \<Rightarrow> PositiveDecimal \<Rightarrow> PricingError + Money" where
  "VariableWeight_total v amount =
     bindE (net_line_minor (money_minor (vw_rate v)) amount (vw_basis v) DiscountBps_NONE) (\<lambda>minor.
       if minor_get (money_minor (vw_maximum_total v)) < minor_get minor then Inl CapExceeded
       else Inr (Money_new (money_currency (vw_rate v)) minor))"

definition VariableWeight_new ::
  "MeasurementUnit \<Rightarrow> PositiveDecimal \<Rightarrow> PositiveDecimal \<Rightarrow> Money \<Rightarrow> PositiveDecimal \<Rightarrow> Money
    \<Rightarrow> PricingError + VariableWeight" where
  "VariableWeight_new unit minimum maximum rate basis maximum_total =
     (if Decimal_lt (pd_amount maximum) (pd_amount minimum)
         \<or> isl (Quantity_new (pd_amount minimum) unit) \<or> isl (Quantity_new (pd_amount maximum) unit)
      then Inl InvalidMeasurementRange
      else if money_currency rate \<noteq> money_currency maximum_total then Inl (MoneyFailure CurrencyMismatch)
      else let v = \<lparr>vw_measurement_unit = unit, vw_minimum = minimum, vw_maximum = maximum,
                    vw_rate = rate, vw_basis = basis, vw_maximum_total = maximum_total\<rparr> in
        bindE (VariableWeight_total v minimum) (\<lambda>_. Inr v))"

definition VariableWeight_total_at :: "VariableWeight \<Rightarrow> Quantity \<Rightarrow> PricingError + Money" where
  "VariableWeight_total_at v m =
     (if qty_unit m \<noteq> vw_measurement_unit v then Inl MeasurementUnitMismatch
      else if Decimal_lt (qty_amount m) (pd_amount (vw_minimum v))
           \<or> Decimal_lt (pd_amount (vw_maximum v)) (qty_amount m)
        then Inl MeasurementOutOfRange
      else bindE (map_err (\<lambda>_. MeasurementOutOfRange) (PositiveDecimal_new (qty_amount m)))
        (VariableWeight_total v))"

section \<open>Half-even rounding\<close>

text \<open>
  The specification of the rounding rule: the nearest integer to a non-negative fraction,
  ties to the even one.
\<close>

definition half_even :: "nat \<Rightarrow> nat \<Rightarrow> nat" where
  "half_even n d =
     n div d + (if d < 2 * (n mod d) \<or> (2 * (n mod d) = d \<and> odd (n div d)) then 1 else 0)"

lemma half_even_nearest:
  assumes "0 < d"
  shows "\<bar>real (half_even n d) - real n / real d\<bar> \<le> 1 / 2"
    and "\<bar>real (half_even n d) - real n / real d\<bar> = 1 / 2 \<Longrightarrow> even (half_even n d)"
proof -
  let ?q = "n div d" and ?r = "n mod d"
  have "real n = real d * real ?q + real ?r"
    by (metis of_nat_add of_nat_mult mult_div_mod_eq)
  then have x: "real n / real d = real ?q + real ?r / real d"
    using assms by (simp add: field_simps)
  have r: "0 \<le> real ?r / real d" "real ?r / real d < 1" using assms by simp_all
  have half: "2 * ?r < d \<longleftrightarrow> real ?r / real d < 1 / 2" "2 * ?r = d \<longleftrightarrow> real ?r / real d = 1 / 2"
    using assms by (auto simp: field_simps simp flip: of_nat_mult)
  consider "2 * ?r < d" | "2 * ?r = d" | "d < 2 * ?r" by linarith
  then have "\<bar>real (half_even n d) - real n / real d\<bar> \<le> 1 / 2
    \<and> (\<bar>real (half_even n d) - real n / real d\<bar> = 1 / 2 \<longrightarrow> even (half_even n d))"
  proof cases
    case 1
    then have "half_even n d = ?q" by (simp add: half_even_def)
    then show ?thesis using 1 half(1) r by (simp add: x)
  next
    case 2
    have f: "real ?r / real d = 1 / 2" using 2 half(2) by simp
    have "half_even n d = ?q + (if odd ?q then 1 else 0)" using 2 by (simp add: half_even_def)
    then show ?thesis unfolding x f by auto
  next
    case 3
    then have h: "half_even n d = ?q + 1" by (simp add: half_even_def)
    from 3 have "1 / 2 < real ?r / real d" using half r by linarith
    then show ?thesis unfolding x h using r by auto
  qed
  then show "\<bar>real (half_even n d) - real n / real d\<bar> \<le> 1 / 2"
    and "\<bar>real (half_even n d) - real n / real d\<bar> = 1 / 2 \<Longrightarrow> even (half_even n d)"
    by simp_all
qed

lemma half_even_mono:
  assumes "0 < d" and "0 < e" and "real n / real d \<le> real m / real e"
  shows "half_even n d \<le> half_even m e"
proof (rule ccontr)
  assume "\<not> half_even n d \<le> half_even m e"
  then have gt: "real (half_even m e) + 1 \<le> real (half_even n d)" by linarith
  let ?x = "real n / real d" and ?y = "real m / real e"
  have a: "\<bar>real (half_even n d) - ?x\<bar> \<le> 1 / 2" and b: "\<bar>real (half_even m e) - ?y\<bar> \<le> 1 / 2"
    using half_even_nearest(1) assms by blast+
  from a b gt assms(3) have "\<bar>real (half_even n d) - ?x\<bar> = 1 / 2"
    and "\<bar>real (half_even m e) - ?y\<bar> = 1 / 2"
    and "real (half_even n d) = real (half_even m e) + 1"
    by linarith+
  then have "even (half_even n d)" and "even (half_even m e)" and "half_even n d = half_even m e + 1"
    using half_even_nearest(2) assms by (blast, blast, linarith)
  then show False by simp
qed

section \<open>The line calculation\<close>

lemma fits_i_nat: "n < 2 ^ 127 \<Longrightarrow> fits_i 128 (int n) = Some (int n)"
proof -
  assume "n < 2 ^ 127"
  then have "int n < int (2 ^ 127)" by (simp only: of_nat_less_iff)
  then show ?thesis by (simp add: fits_i_def)
qed

lemma checked_mul_nat:
  "a * b < 2 ^ 127 \<Longrightarrow> checked_mul_i 128 (int a) (int b) = Some (int (a * b))"
  using fits_i_nat [of "a * b"] by (simp add: checked_mul_i_def)

lemma checked_pow_nat: "s \<le> 6 \<Longrightarrow> checked_pow_i 128 10 s = Some (int (10 ^ s))"
proof -
  assume "s \<le> 6"
  then have "(10 :: nat) ^ s \<le> 10 ^ 6" by (intro power_increasing) auto
  then have "(10 :: nat) ^ s < 2 ^ 127" by simp
  then show ?thesis using fits_i_nat [of "10 ^ s"] by (simp add: checked_pow_i_def)
qed

lemma checked_div_nat:
  "n < 2 ^ 127 \<Longrightarrow> 0 < d \<Longrightarrow> checked_div_i 128 (int n) (int d) = Some (int (n div d))"
proof -
  assume "n < 2 ^ 127" and "0 < d"
  moreover from this have "int n < int (2 ^ 127)" by (simp only: of_nat_less_iff)
  ultimately show ?thesis by (subst checked_div_i_nonneg) (simp_all add: zdiv_int)
qed

lemma checked_rem_nat: "0 < d \<Longrightarrow> checked_rem_i 128 (int n) (int d) = Some (int (n mod d))"
  by (simp add: checked_rem_i_nonneg zmod_int)

definition line_numerator :: "MinorAmount \<Rightarrow> PositiveDecimal \<Rightarrow> PositiveDecimal \<Rightarrow> DiscountBps \<Rightarrow> nat" where
  "line_numerator rate amount basis discount =
     minor_get rate * coefficient (pd_amount amount) * 10 ^ scale (pd_amount basis)
       * (10000 - bps_get discount)"

definition line_denominator :: "PositiveDecimal \<Rightarrow> PositiveDecimal \<Rightarrow> nat" where
  "line_denominator amount basis =
     coefficient (pd_amount basis) * 10 ^ scale (pd_amount amount) * 10000"

definition wf_DiscountBps :: "DiscountBps \<Rightarrow> bool" where
  "wf_DiscountBps d \<longleftrightarrow> bps_get d \<le> 10000"

lemma line_bounds:
  assumes "wf_MinorAmount rate" and "wf_PositiveDecimal amount" and "wf_PositiveDecimal basis"
  shows "minor_get rate * coefficient (pd_amount amount) < 2 ^ 127"
    and "minor_get rate * coefficient (pd_amount amount) * 10 ^ scale (pd_amount basis) < 2 ^ 127"
    and "line_numerator rate amount basis discount < 2 ^ 127"
    and "coefficient (pd_amount basis) * 10 ^ scale (pd_amount amount) < 2 ^ 126"
    and "line_denominator amount basis < 2 ^ 126"
    and "0 < line_denominator amount basis"
proof -
  have b: "minor_get rate \<le> MAX_MINOR" "coefficient (pd_amount amount) \<le> MAX_COEFFICIENT"
    "coefficient (pd_amount basis) \<le> MAX_COEFFICIENT"
    "scale (pd_amount amount) \<le> 6" "scale (pd_amount basis) \<le> 6" "0 < coefficient (pd_amount basis)"
    using assms by (auto simp: wf_MinorAmount_def wf_PositiveDecimal_def wf_Decimal_def MAX_SCALE_def)
  have p: "(10 :: nat) ^ scale (pd_amount amount) \<le> 10 ^ 6" "(10 :: nat) ^ scale (pd_amount basis) \<le> 10 ^ 6"
    using b by (intro power_increasing; simp)+
  have m1: "minor_get rate * coefficient (pd_amount amount) \<le> MAX_MINOR * MAX_COEFFICIENT"
    using b by (intro mult_le_mono)
  have m2: "minor_get rate * coefficient (pd_amount amount) * 10 ^ scale (pd_amount basis)
      \<le> MAX_MINOR * MAX_COEFFICIENT * 10 ^ 6"
    by (rule mult_le_mono [OF m1 p(2)])
  have m3: "line_numerator rate amount basis discount \<le> MAX_MINOR * MAX_COEFFICIENT * 10 ^ 6 * 10000"
    unfolding line_numerator_def by (rule mult_le_mono [OF m2]) simp
  have d1: "coefficient (pd_amount basis) * 10 ^ scale (pd_amount amount) \<le> MAX_COEFFICIENT * 10 ^ 6"
    using b p by (intro mult_le_mono)
  have d2: "line_denominator amount basis \<le> MAX_COEFFICIENT * 10 ^ 6 * 10000"
    unfolding line_denominator_def by (rule mult_le_mono [OF d1]) simp
  note max = MAX_MINOR_def MAX_COEFFICIENT_def
  show "minor_get rate * coefficient (pd_amount amount) < 2 ^ 127"
    by (rule le_less_trans [OF m1]) (simp add: max)
  show "minor_get rate * coefficient (pd_amount amount) * 10 ^ scale (pd_amount basis) < 2 ^ 127"
    by (rule le_less_trans [OF m2]) (simp add: max)
  show "line_numerator rate amount basis discount < 2 ^ 127"
    by (rule le_less_trans [OF m3]) (simp add: max)
  show "coefficient (pd_amount basis) * 10 ^ scale (pd_amount amount) < 2 ^ 126"
    by (rule le_less_trans [OF d1]) (simp add: max)
  show "line_denominator amount basis < 2 ^ 126"
    by (rule le_less_trans [OF d2]) (simp add: max)
  show "0 < line_denominator amount basis" using b by (simp add: line_denominator_def)
qed

text \<open>The rounding tail of \<open>net_line_minor\<close>, for any fraction that fits.\<close>

lemma rounding_tail:
  assumes n: "n < 2 ^ 127" and d: "0 < d" "d < 2 ^ 126"
  shows "bindE (ok_or ArithmeticOutOfRange (checked_div_i 128 (int n) (int d))) (\<lambda>quotient.
      bindE (ok_or ArithmeticOutOfRange
        (Option.bind (checked_rem_i 128 (int n) (int d)) (\<lambda>v. checked_mul_i 128 v 2)))
        (\<lambda>twice_remainder.
      bindE (ok_or ArithmeticOutOfRange (checked_rem_i 128 quotient 2)) (\<lambda>parity.
      let increment = int d < twice_remainder \<or> (twice_remainder = int d \<and> parity = 1) in
      bindE (ok_or ArithmeticOutOfRange (checked_add_i 128 quotient (if increment then 1 else 0)))
        (\<lambda>rounded.
      bindE (ok_or (MoneyFailure MinorOutOfRange) (u64_try_from rounded)) (\<lambda>rounded.
      map_err MoneyFailure (MinorAmount_new rounded)))))) =
    (if half_even n d \<le> MAX_MINOR then Inr (MinorAmount (half_even n d))
     else Inl (MoneyFailure MinorOutOfRange))"
proof -
  let ?q = "n div d" and ?r = "n mod d"
  have r: "?r < d" using d(1) by simp
  have two: "checked_mul_i 128 (int ?r) 2 = Some (int (2 * ?r))"
    using checked_mul_nat [of ?r 2] r d(2) by (simp add: mult.commute)
  have par: "checked_rem_i 128 (int ?q) 2 = Some (int (?q mod 2))"
    using checked_rem_nat [of 2 ?q] by simp
  have cond: "(int d < int (2 * ?r) \<or> (int (2 * ?r) = int d \<and> int (?q mod 2) = 1)) \<longleftrightarrow>
      (d < 2 * ?r \<or> (2 * ?r = d \<and> odd ?q))"
    by (simp only: of_nat_less_iff of_nat_eq_iff of_nat_eq_1_iff odd_iff_mod_2_eq_one)
  have "half_even n d \<le> n"
  proof (cases "d = 1")
    case True
    then show ?thesis by (simp add: half_even_def)
  next
    case False
    then have "2 \<le> d" using d(1) by simp
    show ?thesis
    proof (cases "?r = 0")
      case True
      then show ?thesis using d(1) by (simp add: half_even_def)
    next
      case False
      have "?q * 1 + 1 \<le> ?q * d + ?r" using False \<open>2 \<le> d\<close> by (intro add_mono mult_le_mono) auto
      then have "?q + 1 \<le> n" by simp
      then show ?thesis by (simp add: half_even_def)
    qed
  qed
  then have h: "half_even n d < 2 ^ 127" using n by simp
  have add: "checked_add_i 128 (int ?q) (if d < 2 * ?r \<or> (2 * ?r = d \<and> odd ?q) then 1 else 0) =
      Some (int (half_even n d))"
    using fits_i_nat [OF h] by (auto simp: checked_add_i_def half_even_def)
  have "bindE (ok_or (MoneyFailure MinorOutOfRange) (u64_try_from (int (half_even n d))))
        (\<lambda>rounded. map_err MoneyFailure (MinorAmount_new rounded)) =
      (if half_even n d \<le> MAX_MINOR then Inr (MinorAmount (half_even n d))
       else Inl (MoneyFailure MinorOutOfRange))"
    by (auto simp: u64_try_from_def MinorAmount_new_def MAX_MINOR_def)
  then show ?thesis
    by (simp only: checked_div_nat [OF n d(1)] checked_rem_nat [OF d(1)] two par cond add
        ok_or.simps bindE.simps bind.bind_lunit Let_def)
qed

lemma net_line_minor_spec:
  assumes "wf_MinorAmount rate" and "wf_PositiveDecimal amount" and "wf_PositiveDecimal basis"
    and "wf_DiscountBps discount"
  defines "h \<equiv> half_even (line_numerator rate amount basis discount) (line_denominator amount basis)"
  shows "net_line_minor rate amount basis discount =
    (if h \<le> MAX_MINOR then Inr (MinorAmount h) else Inl (MoneyFailure MinorOutOfRange))"
proof -
  note b = line_bounds [OF assms(1-3)]
  have sc: "scale (pd_amount amount) \<le> 6" "scale (pd_amount basis) \<le> 6"
    using assms(2,3) by (auto simp: wf_PositiveDecimal_def wf_Decimal_def MAX_SCALE_def)
  have sub: "sub_u 16 10000 (bps_get discount) = 10000 - bps_get discount"
    using assms(4) by (simp add: sub_u_def wf_DiscountBps_def)
  have d1: "coefficient (pd_amount basis) * 10 ^ scale (pd_amount amount) < 2 ^ 127"
    and d2: "line_denominator amount basis < 2 ^ 127"
    using b(4,5) by simp_all
  have num: "Option.bind (checked_mul_i 128 (int (minor_get rate)) (int (coefficient (pd_amount amount)))) (\<lambda>v.
      Option.bind (checked_mul_i 128 v (int (10 ^ scale (pd_amount basis)))) (\<lambda>v.
      checked_mul_i 128 v (int (10000 - bps_get discount)))) =
    Some (int (line_numerator rate amount basis discount))"
    using b(3) [of discount] unfolding line_numerator_def
    by (simp only: checked_mul_nat [OF b(1)] checked_mul_nat [OF b(2)] checked_mul_nat bind.bind_lunit)
  have den: "Option.bind (checked_mul_i 128 (int (coefficient (pd_amount basis)))
      (int (10 ^ scale (pd_amount amount)))) (\<lambda>v. checked_mul_i 128 v 10000) =
    Some (int (line_denominator amount basis))"
    using d2 checked_mul_nat [of "coefficient (pd_amount basis) * 10 ^ scale (pd_amount amount)" 10000]
    unfolding line_denominator_def
    by (simp only: checked_mul_nat [OF d1] bind.bind_lunit of_nat_numeral)
  show ?thesis
    unfolding net_line_minor_def Let_def checked_pow_nat [OF sc(1)] checked_pow_nat [OF sc(2)] sub
      ok_or.simps bindE.simps num den h_def
    by (rule rounding_tail [unfolded Let_def, OF b(3) b(6) b(5)])
qed

lemmas line_eval = half_even_def line_numerator_def line_denominator_def MAX_MINOR_def

text \<open>The exact price of a line as a real number.\<close>

definition decimal_value :: "Decimal \<Rightarrow> real" where
  "decimal_value d = real (coefficient d) / 10 ^ scale d"

definition exact_line :: "MinorAmount \<Rightarrow> PositiveDecimal \<Rightarrow> PositiveDecimal \<Rightarrow> DiscountBps \<Rightarrow> real" where
  "exact_line rate amount basis discount =
     real (minor_get rate) * (decimal_value (pd_amount amount) / decimal_value (pd_amount basis))
       * (1 - real (bps_get discount) / 10000)"

lemma line_fraction:
  assumes "wf_PositiveDecimal basis" and "wf_DiscountBps discount"
  shows "real (line_numerator rate amount basis discount) / real (line_denominator amount basis) =
    exact_line rate amount basis discount"
proof -
  have "0 < coefficient (pd_amount basis)" using assms(1) by (simp add: wf_PositiveDecimal_def)
  moreover have "real (10000 - bps_get discount) = 10000 - real (bps_get discount)"
    using assms(2) by (simp add: wf_DiscountBps_def of_nat_diff)
  ultimately show ?thesis
    by (simp add: line_numerator_def line_denominator_def exact_line_def decimal_value_def field_simps)
qed

lemma decimal_value_micros: "wf_Decimal d \<Longrightarrow> decimal_value d = real (micros d) / 10 ^ 6"
proof -
  assume "wf_Decimal d"
  then have eq: "(10 :: real) ^ 6 = 10 ^ scale d * 10 ^ (6 - scale d)"
    by (simp add: power_add [symmetric] wf_Decimal_def MAX_SCALE_def del: power_numeral)
  show ?thesis unfolding decimal_value_def micros_def eq by simp
qed

lemma decimal_value_mono:
  "wf_Decimal a \<Longrightarrow> wf_Decimal b \<Longrightarrow> micros a \<le> micros b \<Longrightarrow> decimal_value a \<le> decimal_value b"
  by (simp add: decimal_value_micros divide_right_mono)

lemma exact_line_mono:
  assumes "wf_PositiveDecimal a" "wf_PositiveDecimal b"
    and "wf_DiscountBps discount" and "micros (pd_amount a) \<le> micros (pd_amount b)"
  shows "exact_line rate a basis discount \<le> exact_line rate b basis discount"
proof -
  have "decimal_value (pd_amount a) \<le> decimal_value (pd_amount b)"
    using assms by (intro decimal_value_mono) (auto simp: wf_PositiveDecimal_def)
  moreover have "0 \<le> decimal_value (pd_amount basis)" by (simp add: decimal_value_def)
  moreover have "0 \<le> 1 - real (bps_get discount) / 10000"
    using assms(3) by (simp add: wf_DiscountBps_def)
  ultimately show ?thesis
    unfolding exact_line_def
    by (intro mult_right_mono mult_left_mono divide_right_mono) auto
qed

section \<open>Tiers\<close>

abbreviation tiers_increasing :: "PriceTier list \<Rightarrow> bool" where
  "tiers_increasing tiers \<equiv> sorted_wrt (\<lambda>a b. micros (tier_from a) < micros (tier_from b)) tiers"

definition wf_PriceTier :: "PriceTier \<Rightarrow> bool" where
  "wf_PriceTier t \<longleftrightarrow> wf_Decimal (tier_from t) \<and> wf_Money (tier_rate t)"

definition wf_FixedPrice :: "FixedPrice \<Rightarrow> bool" where
  "wf_FixedPrice p \<longleftrightarrow> wf_Money (fp_rate p) \<and> wf_PositiveDecimal (fp_basis p)
     \<and> wf_DiscountBps (fp_discount_bps p) \<and> list_all wf_PriceTier (fp_tiers p)
     \<and> length (fp_tiers p) \<le> MAX_TIERS \<and> tiers_increasing (fp_tiers p)
     \<and> list_all (\<lambda>t. money_currency (tier_rate t) = money_currency (fp_rate p)) (fp_tiers p)"

lemma check_tiers_Inr:
  assumes "list_all wf_PriceTier tiers" and "\<forall>v. previous = Some v \<longrightarrow> wf_Decimal v"
  shows "check_tiers c previous tiers = Inr () \<longleftrightarrow>
    list_all (\<lambda>t. money_currency (tier_rate t) = c) tiers \<and> tiers_increasing tiers
    \<and> (\<forall>v. previous = Some v \<longrightarrow> list_all (\<lambda>t. micros v < micros (tier_from t)) tiers)"
  using assms
proof (induction c previous tiers rule: check_tiers.induct)
  case (1 c previous)
  then show ?case by simp
next
  case (2 c previous tier tiers)
  then have t: "wf_Decimal (tier_from tier)" by (simp add: wf_PriceTier_def)
  show ?case
  proof (cases "money_currency (tier_rate tier) = c
      \<and> \<not> (case previous of None \<Rightarrow> False | Some v \<Rightarrow> Decimal_le (tier_from tier) v)")
    case True
    then have "check_tiers c (Some (tier_from tier)) tiers = Inr () \<longleftrightarrow>
        list_all (\<lambda>t. money_currency (tier_rate t) = c) tiers \<and> tiers_increasing tiers
        \<and> list_all (\<lambda>t. micros (tier_from tier) < micros (tier_from t)) tiers"
      using "2.IH" "2.prems"(1) t by auto
    with True t "2.prems" show ?thesis
      by (auto simp: list_all_iff not_le intro: less_trans split: option.splits)
  next
    case False
    with t "2.prems" show ?thesis by (auto split: option.splits)
  qed
qed

lemma FixedPrice_new_Inr:
  assumes "wf_Money rate" and "wf_PositiveDecimal basis" and "wf_DiscountBps discount"
    and "list_all wf_PriceTier tiers"
  shows "FixedPrice_new rate basis discount tiers = Inr p \<longleftrightarrow>
    wf_FixedPrice p \<and> p = \<lparr>fp_rate = rate, fp_basis = basis, fp_discount_bps = discount, fp_tiers = tiers\<rparr>"
  using assms check_tiers_Inr [OF assms(4), of None "money_currency rate"]
  by (auto simp: FixedPrice_new_def wf_FixedPrice_def result_simps)

lemma find_rev_Some:
  "find P (rev xs) = Some x \<longleftrightarrow> (\<exists>ys zs. xs = ys @ x # zs \<and> P x \<and> (\<forall>z\<in>set zs. \<not> P z))"
proof (induction xs rule: rev_induct)
  case Nil
  then show ?case by simp
next
  case (snoc y xs)
  show ?case
  proof (cases "P y")
    case True
    have "x = y \<and> zs = []" if "xs @ [y] = ys @ x # zs" "\<forall>z\<in>set zs. \<not> P z" for ys zs
      using that True by (cases zs rule: rev_cases) auto
    then show ?thesis using True by fastforce
  next
    case False
    then have "(\<exists>ys zs. xs @ [y] = ys @ x # zs \<and> P x \<and> (\<forall>z\<in>set zs. \<not> P z)) \<longleftrightarrow>
        (\<exists>ys zs. xs = ys @ x # zs \<and> P x \<and> (\<forall>z\<in>set zs. \<not> P z))"
    proof (intro iffI; elim exE conjE)
      fix ys zs assume eq: "xs @ [y] = ys @ x # zs" and "P x" "\<forall>z\<in>set zs. \<not> P z"
      moreover from this False obtain ws where "zs = ws @ [y]" by (cases zs rule: rev_cases) auto
      ultimately show "\<exists>ys zs. xs = ys @ x # zs \<and> P x \<and> (\<forall>z\<in>set zs. \<not> P z)"
        by (metis append.assoc append_Cons append_same_eq Un_iff set_append)
    next
      fix ys zs assume "xs = ys @ x # zs" "P x" "\<forall>z\<in>set zs. \<not> P z"
      with False show "\<exists>ys zs. xs @ [y] = ys @ x # zs \<and> P x \<and> (\<forall>z\<in>set zs. \<not> P z)"
        by (intro exI [of _ ys] exI [of _ "zs @ [y]"]) auto
    qed
    with False snoc show ?thesis by simp
  qed
qed

lemma tier_eta [simp]: "\<lparr>tier_from = tier_from t, tier_rate = tier_rate t\<rparr> = t"
  by (cases t) simp

lemma selected_tier:
  assumes p: "wf_FixedPrice p" and a: "wf_PositiveDecimal amount"
  defines "sel \<equiv> find (\<lambda>t. Decimal_le (tier_from t) (pd_amount amount)) (rev (fp_tiers p))"
  shows "case sel of
      None \<Rightarrow> \<forall>t\<in>set (fp_tiers p). micros (pd_amount amount) < micros (tier_from t)
    | Some t \<Rightarrow> t \<in> set (fp_tiers p) \<and> micros (tier_from t) \<le> micros (pd_amount amount)
        \<and> (\<forall>u\<in>set (fp_tiers p). micros (tier_from u) \<le> micros (pd_amount amount)
            \<longrightarrow> micros (tier_from u) \<le> micros (tier_from t))"
proof -
  have wa: "wf_Decimal (pd_amount amount)" using a by (simp add: wf_PositiveDecimal_def)
  have wt: "wf_Decimal (tier_from t)" if "t \<in> set (fp_tiers p)" for t
    using p that by (auto simp: wf_FixedPrice_def list_all_iff wf_PriceTier_def)
  show ?thesis
  proof (cases sel)
    case None
    then have "\<forall>t\<in>set (fp_tiers p). \<not> Decimal_le (tier_from t) (pd_amount amount)"
      by (simp add: sel_def find_None_iff)
    then show ?thesis using None wa wt by (auto simp: not_le)
  next
    case (Some t)
    then obtain ys zs where split: "fp_tiers p = ys @ t # zs"
      and "Decimal_le (tier_from t) (pd_amount amount)"
      and later: "\<forall>z\<in>set zs. \<not> Decimal_le (tier_from z) (pd_amount amount)"
      unfolding sel_def find_rev_Some by blast
    moreover have "tiers_increasing (ys @ t # zs)"
      using p split by (simp add: wf_FixedPrice_def)
    ultimately show ?thesis using Some wa wt
      by (auto simp: sorted_wrt_append less_imp_le)
  qed
qed

lemma line_selection:
  assumes "wf_FixedPrice p" and "wf_PositiveDecimal amount"
    and "FixedPrice_line p amount = Inr l"
  shows "(case lp_selected_tier_from l of
        None \<Rightarrow> lp_rate l = fp_rate p
          \<and> (\<forall>t\<in>set (fp_tiers p). micros (pd_amount amount) < micros (tier_from t))
      | Some threshold \<Rightarrow> micros threshold \<le> micros (pd_amount amount)
          \<and> \<lparr>tier_from = threshold, tier_rate = lp_rate l\<rparr> \<in> set (fp_tiers p)
          \<and> (\<forall>t\<in>set (fp_tiers p). micros (tier_from t) \<le> micros (pd_amount amount)
              \<longrightarrow> micros (tier_from t) \<le> micros threshold))
    \<and> wf_Money (lp_total l) \<and> money_currency (lp_total l) = money_currency (fp_rate p)
    \<and> net_line_minor (money_minor (lp_rate l)) amount (fp_basis p) (fp_discount_bps p) =
        Inr (money_minor (lp_total l))"
proof -
  let ?sel = "find (\<lambda>t. Decimal_le (tier_from t) (pd_amount amount)) (rev (fp_tiers p))"
  let ?rate = "case ?sel of None \<Rightarrow> fp_rate p | Some t \<Rightarrow> tier_rate t"
  obtain m where m: "net_line_minor (money_minor ?rate) amount (fp_basis p) (fp_discount_bps p) = Inr m"
    and l: "l = \<lparr>lp_rate = ?rate, lp_basis = fp_basis p, lp_discount_bps = fp_discount_bps p,
      lp_selected_tier_from = map_option tier_from ?sel, lp_total = Money_new (money_currency ?rate) m\<rparr>"
    using assms(3) by (auto simp: FixedPrice_line_def Let_def result_simps)
  note sel = selected_tier [OF assms(1,2)]
  have rate: "wf_Money ?rate \<and> money_currency ?rate = money_currency (fp_rate p)"
    using assms(1) sel by (auto simp: wf_FixedPrice_def list_all_iff wf_PriceTier_def split: option.splits)
  have "wf_MinorAmount m"
    using net_line_minor_spec [of "money_minor ?rate" amount "fp_basis p" "fp_discount_bps p"]
      m rate assms(1,2)
    by (auto simp: wf_FixedPrice_def wf_Money_def wf_MinorAmount_def split: if_splits)
  with rate m sel show ?thesis
    by (auto simp: l Money_new_def wf_Money_def split: option.splits)
qed

lemma FixedPrice_line_facts:
  assumes "wf_FixedPrice p" and "wf_PositiveDecimal a" and "FixedPrice_line p a = Inr l"
  shows "case lp_selected_tier_from l of None \<Rightarrow> True
      | Some threshold \<Rightarrow> \<not> Decimal_lt (pd_amount a) threshold"
    and "net_line_minor (money_minor (lp_rate l)) a (fp_basis p) (fp_discount_bps p) =
      Inr (money_minor (lp_total l))"
    and "money_currency (lp_total l) = money_currency (lp_rate l)"
proof -
  note sel = line_selection [OF assms]
  show "case lp_selected_tier_from l of None \<Rightarrow> True
      | Some threshold \<Rightarrow> \<not> Decimal_lt (pd_amount a) threshold"
  proof (cases "lp_selected_tier_from l")
    case (Some threshold)
    with sel have "micros threshold \<le> micros (pd_amount a)" and "wf_Decimal threshold"
      using assms(1) by (auto simp: wf_FixedPrice_def list_all_iff wf_PriceTier_def)
    with Some assms(2) show ?thesis by (simp add: wf_PositiveDecimal_def not_less)
  qed simp
  show "net_line_minor (money_minor (lp_rate l)) a (fp_basis p) (fp_discount_bps p) =
      Inr (money_minor (lp_total l))"
    using sel by simp
  show "money_currency (lp_total l) = money_currency (lp_rate l)"
    using assms(3) by (auto simp: FixedPrice_line_def Let_def Money_new_def result_simps)
qed

section \<open>Order totals\<close>

lemma money_fold_currency:
  assumes "try_fold Money_checked_add z ls = Inr t"
  shows "\<forall>l\<in>set ls. money_currency l = money_currency z"
  using assms
proof (induction ls arbitrary: z)
  case Nil
  then show ?case by simp
next
  case (Cons l ls)
  then obtain y where y: "Money_checked_add z l = Inr y" and rest: "try_fold Money_checked_add y ls = Inr t"
    by (auto simp: result_simps)
  have "money_currency z = money_currency l" and "money_currency y = money_currency z"
    using y by (auto simp: Money_checked_add_def Money_with_result_def Money_new_def result_simps
        split: if_splits)
  with Cons.IH [OF rest] show ?case by auto
qed

lemma money_fold_error:
  assumes "try_fold Money_checked_add z ls = Inl e" and "wf_Money z" and "\<forall>l\<in>set ls. wf_Money l"
  shows "e = CurrencyMismatch \<or> e = MinorOutOfRange"
  using assms
proof (induction ls arbitrary: z)
  case Nil
  then show ?case by simp
next
  case (Cons l ls)
  then have wl: "wf_Money l" by simp
  note spec = Money_checked_add_spec [OF Cons.prems(2) wl]
  show ?case
  proof (cases "Money_checked_add z l")
    case (Inl d)
    with Cons.prems(1) spec show ?thesis by (auto split: if_splits)
  next
    case (Inr y)
    then have "wf_Money y"
      using spec Cons.prems(2) by (auto simp: wf_Money_def Money_new_def wf_MinorAmount_def split: if_splits)
    with Cons Inr show ?thesis by auto
  qed
qed

lemma checked_order_total_spec:
  assumes charge: "wf_Money charge" and lines: "\<forall>l\<in>set ls. wf_Money l"
  shows "case checked_order_total ls charge of
      Inr t \<Rightarrow> 1 \<le> length ls \<and> length ls \<le> 32 \<and> wf_Money t
        \<and> (\<forall>l\<in>set ls. money_currency l = money_currency t) \<and> money_currency charge = money_currency t
        \<and> money_value t = money_value charge + sum_list (map money_value ls)
    | Inl e \<Rightarrow>
        if ls = [] \<or> 32 < length ls then e = InvalidLineCount
        else e \<in> {MoneyFailure CurrencyMismatch, MoneyFailure MinorOutOfRange}
          \<and> \<not> ((\<forall>l\<in>set ls. money_currency l = money_currency charge)
               \<and> money_value charge + sum_list (map money_value ls) \<le> MAX_MINOR)"
proof (cases "ls = [] \<or> 32 < length ls")
  case True
  then show ?thesis by (simp add: checked_order_total_def MAX_PRICED_LINES_def)
next
  case False
  let ?c = "money_currency charge"
  show ?thesis
  proof (cases "try_fold Money_checked_add charge ls")
    case (Inl e)
    have "\<not> ((\<forall>l\<in>set ls. money_currency l = ?c)
        \<and> money_value charge + sum_list (map money_value ls) \<le> MAX_MINOR)"
      using money_sum.fold_fits [of charge ?c ls] charge lines Inl by auto
    with False Inl money_fold_error [OF Inl charge lines] show ?thesis
      by (auto simp: checked_order_total_def MAX_PRICED_LINES_def)
  next
    case (Inr t)
    have cur: "\<forall>l\<in>set ls. money_currency l = ?c" by (rule money_fold_currency [OF Inr])
    from money_sum.fold_Inr [of charge ls t ?c] Inr charge lines cur False show ?thesis
      by (auto simp: checked_order_total_def MAX_PRICED_LINES_def Suc_le_eq)
  qed
qed

section \<open>Measured prices\<close>

definition wf_VariableWeight :: "VariableWeight \<Rightarrow> bool" where
  "wf_VariableWeight v \<longleftrightarrow> wf_PositiveDecimal (vw_minimum v) \<and> wf_PositiveDecimal (vw_maximum v)
     \<and> wf_Money (vw_rate v) \<and> wf_PositiveDecimal (vw_basis v) \<and> wf_Money (vw_maximum_total v)
     \<and> micros (pd_amount (vw_minimum v)) \<le> micros (pd_amount (vw_maximum v))
     \<and> wf_Quantity \<lparr>qty_amount = pd_amount (vw_minimum v), qty_unit = vw_measurement_unit v\<rparr>
     \<and> wf_Quantity \<lparr>qty_amount = pd_amount (vw_maximum v), qty_unit = vw_measurement_unit v\<rparr>
     \<and> money_currency (vw_rate v) = money_currency (vw_maximum_total v)
     \<and> \<not> isl (VariableWeight_total v (vw_minimum v))"

lemma not_isl_Quantity_new: "\<not> isl (Quantity_new d u) \<longleftrightarrow> (u = Each \<longrightarrow> scale d = 0)"
  by (simp add: Quantity_new_def)

lemma VariableWeight_new_Inr:
  assumes "wf_PositiveDecimal minimum" and "wf_PositiveDecimal maximum" and "wf_Money rate"
    and "wf_PositiveDecimal basis" and "wf_Money cap"
  shows "VariableWeight_new unit minimum maximum rate basis cap = Inr v \<longleftrightarrow>
    wf_VariableWeight v \<and> v = \<lparr>vw_measurement_unit = unit, vw_minimum = minimum, vw_maximum = maximum,
      vw_rate = rate, vw_basis = basis, vw_maximum_total = cap\<rparr>"
  using assms
  by (auto simp: VariableWeight_new_def wf_VariableWeight_def Let_def result_simps not_isl_iff
      wf_Quantity_def wf_PositiveDecimal_def not_isl_Quantity_new [unfolded not_isl_iff]
      Quantity_new_def split: if_splits)

lemma wf_DiscountBps_NONE [simp]: "wf_DiscountBps DiscountBps_NONE"
  by (simp add: wf_DiscountBps_def DiscountBps_NONE_def)

lemma VariableWeight_total_spec:
  assumes v: "wf_Money (vw_rate v)" "wf_PositiveDecimal (vw_basis v)" "wf_Money (vw_maximum_total v)"
    and a: "wf_PositiveDecimal a"
  defines "h \<equiv> half_even (line_numerator (money_minor (vw_rate v)) a (vw_basis v) DiscountBps_NONE)
      (line_denominator a (vw_basis v))"
  shows "VariableWeight_total v a =
    (if MAX_MINOR < h then Inl (MoneyFailure MinorOutOfRange)
     else if money_value (vw_maximum_total v) < h then Inl CapExceeded
     else Inr (Money_new (money_currency (vw_rate v)) (MinorAmount h)))"
  using net_line_minor_spec [of "money_minor (vw_rate v)" a "vw_basis v" DiscountBps_NONE] v a
  by (auto simp: VariableWeight_total_def h_def wf_Money_def)

lemma VariableWeight_total_mono:
  assumes v: "wf_VariableWeight v" and a: "wf_PositiveDecimal a" and b: "wf_PositiveDecimal b"
    and le: "micros (pd_amount a) \<le> micros (pd_amount b)"
    and tb: "VariableWeight_total v b = Inr tb"
  shows "\<exists>ta. VariableWeight_total v a = Inr ta \<and> money_value ta \<le> money_value tb"
proof -
  let ?n = "\<lambda>x. line_numerator (money_minor (vw_rate v)) x (vw_basis v) DiscountBps_NONE"
  let ?d = "\<lambda>x. line_denominator x (vw_basis v)"
  have wv: "wf_Money (vw_rate v)" "wf_PositiveDecimal (vw_basis v)" "wf_Money (vw_maximum_total v)"
    using v by (simp_all add: wf_VariableWeight_def)
  have rate: "wf_MinorAmount (money_minor (vw_rate v))" using wv(1) by (simp add: wf_Money_def)
  have "real (?n a) / real (?d a) \<le> real (?n b) / real (?d b)"
    unfolding line_fraction [OF wv(2) wf_DiscountBps_NONE]
    by (rule exact_line_mono [OF a b wf_DiscountBps_NONE le])
  then have "half_even (?n a) (?d a) \<le> half_even (?n b) (?d b)"
    using line_bounds(6) [OF rate a wv(2)] line_bounds(6) [OF rate b wv(2)]
    by (intro half_even_mono)
  then show ?thesis
    using tb VariableWeight_total_spec [OF wv a] VariableWeight_total_spec [OF wv b]
    by (auto simp: Money_new_def split: if_splits)
qed

lemma VariableWeight_total_at_spec:
  assumes v: "wf_VariableWeight v" and m: "wf_Quantity m"
  shows "VariableWeight_total_at v m =
    (if qty_unit m \<noteq> vw_measurement_unit v then Inl MeasurementUnitMismatch
     else if micros (qty_amount m) < micros (pd_amount (vw_minimum v))
          \<or> micros (pd_amount (vw_maximum v)) < micros (qty_amount m) then Inl MeasurementOutOfRange
     else VariableWeight_total v (PositiveDecimal (qty_amount m)))"
proof -
  have wf: "wf_Decimal (qty_amount m)" "wf_Decimal (pd_amount (vw_minimum v))"
    "wf_Decimal (pd_amount (vw_maximum v))" and pos: "0 < micros (pd_amount (vw_minimum v))"
    using v m by (auto simp: wf_VariableWeight_def wf_Quantity_def wf_PositiveDecimal_micros
        wf_PositiveDecimal_def)
  have "coefficient (qty_amount m) \<noteq> 0" if "micros (pd_amount (vw_minimum v)) \<le> micros (qty_amount m)"
  proof -
    have "0 < micros (qty_amount m)" using that pos by linarith
    then show ?thesis by (simp add: micros_def)
  qed
  then show ?thesis
    using wf by (auto simp: VariableWeight_total_at_def PositiveDecimal_new_def Decimal_is_zero_def
        not_less)
qed

section \<open>Properties\<close>

text \<open>C7: one priced line is the exact discounted price rounded half to even, once. On
  admitted inputs no intermediate operation overflows: the only failure is a result above the
  money bound, and then the exact price itself is above it.\<close>

theorem net_line_half_even:
  assumes "wf_MinorAmount rate" and "wf_PositiveDecimal amount" and "wf_PositiveDecimal basis"
    and "wf_DiscountBps discount"
  shows "case net_line_minor rate amount basis discount of
      Inr m \<Rightarrow> wf_MinorAmount m
        \<and> \<bar>real (minor_get m) - exact_line rate amount basis discount\<bar> \<le> 1 / 2
        \<and> (\<bar>real (minor_get m) - exact_line rate amount basis discount\<bar> = 1 / 2 \<longrightarrow> even (minor_get m))
    | Inl e \<Rightarrow> e = MoneyFailure MinorOutOfRange
        \<and> real MAX_MINOR + 1 / 2 \<le> exact_line rate amount basis discount"
proof -
  let ?n = "line_numerator rate amount basis discount" and ?d = "line_denominator amount basis"
  let ?x = "exact_line rate amount basis discount"
  have d: "0 < ?d" by (rule line_bounds(6) [OF assms(1-3)])
  note near = half_even_nearest [OF d, of ?n, unfolded line_fraction [OF assms(3,4)]]
  have "real MAX_MINOR + 1 / 2 \<le> ?x" if "MAX_MINOR < half_even ?n ?d"
  proof -
    have "real MAX_MINOR + 1 \<le> real (half_even ?n ?d)" using that by linarith
    then show ?thesis using near(1) by linarith
  qed
  then show ?thesis
    using near by (auto simp: net_line_minor_spec [OF assms] wf_MinorAmount_def)
qed

theorem net_line_half_even_witness:
  "net_line_minor (MinorAmount 5) (PositiveDecimal \<lparr>coefficient = 5, scale = 1\<rparr>)
      (PositiveDecimal \<lparr>coefficient = 1, scale = 0\<rparr>) (DiscountBps 0) = Inr (MinorAmount 2)
    \<and> \<bar>real 2 - exact_line (MinorAmount 5) (PositiveDecimal \<lparr>coefficient = 5, scale = 1\<rparr>)
        (PositiveDecimal \<lparr>coefficient = 1, scale = 0\<rparr>) (DiscountBps 0)\<bar> \<le> 1 / 2"
proof -
  let ?a = "PositiveDecimal \<lparr>coefficient = 5, scale = 1\<rparr>"
  let ?b = "PositiveDecimal \<lparr>coefficient = 1, scale = 0\<rparr>"
  have wf: "wf_MinorAmount (MinorAmount 5)" "wf_PositiveDecimal ?a" "wf_PositiveDecimal ?b"
    "wf_DiscountBps (DiscountBps 0)" by code_simp+
  note line = net_line_half_even [OF wf]
  have "net_line_minor (MinorAmount 5) ?a ?b (DiscountBps 0) = Inr (MinorAmount 2)"
    by (subst net_line_minor_spec [OF wf]) (simp add: line_eval)
  with line show ?thesis by simp
qed

text \<open>C29: a fixed price selects the tier with the greatest threshold not above the purchased
  amount, or the base rate when every threshold is above it, and totals that rate in the
  price's own currency; the line retains the selected threshold and rate.\<close>

theorem FixedPrice_line_selects:
  assumes "wf_FixedPrice p" and "wf_PositiveDecimal amount"
    and "FixedPrice_line p amount = Inr l"
  shows "(case lp_selected_tier_from l of
        None \<Rightarrow> lp_rate l = fp_rate p
          \<and> (\<forall>t\<in>set (fp_tiers p). micros (pd_amount amount) < micros (tier_from t))
      | Some threshold \<Rightarrow> micros threshold \<le> micros (pd_amount amount)
          \<and> \<lparr>tier_from = threshold, tier_rate = lp_rate l\<rparr> \<in> set (fp_tiers p)
          \<and> (\<forall>t\<in>set (fp_tiers p). micros (tier_from t) \<le> micros (pd_amount amount)
              \<longrightarrow> micros (tier_from t) \<le> micros threshold))
    \<and> wf_Money (lp_total l) \<and> money_currency (lp_total l) = money_currency (fp_rate p)
    \<and> net_line_minor (money_minor (lp_rate l)) amount (fp_basis p) (fp_discount_bps p) =
        Inr (money_minor (lp_total l))"
  by (rule line_selection [OF assms])

theorem FixedPrice_line_selects_witness:
  "\<exists>l. FixedPrice_line \<lparr>fp_rate = Money_new usd (MinorAmount 400),
        fp_basis = PositiveDecimal \<lparr>coefficient = 1, scale = 0\<rparr>, fp_discount_bps = DiscountBps 0,
        fp_tiers = [\<lparr>tier_from = \<lparr>coefficient = 10, scale = 0\<rparr>,
                     tier_rate = Money_new usd (MinorAmount 300)\<rparr>]\<rparr>
      (PositiveDecimal \<lparr>coefficient = 12, scale = 0\<rparr>) = Inr l
    \<and> lp_selected_tier_from l = Some \<lparr>coefficient = 10, scale = 0\<rparr>
    \<and> money_currency (lp_total l) = usd \<and> money_value (lp_total l) = 3600"
proof -
  let ?t = "\<lparr>tier_from = \<lparr>coefficient = 10, scale = 0\<rparr>, tier_rate = Money_new usd (MinorAmount 300)\<rparr>"
  let ?b = "PositiveDecimal \<lparr>coefficient = 1, scale = 0\<rparr>"
  let ?a = "PositiveDecimal \<lparr>coefficient = 12, scale = 0\<rparr>"
  let ?p = "\<lparr>fp_rate = Money_new usd (MinorAmount 400), fp_basis = ?b, fp_discount_bps = DiscountBps 0,
    fp_tiers = [?t]\<rparr>"
  have wf: "wf_PositiveDecimal ?b" "wf_PositiveDecimal ?a" "wf_Decimal \<lparr>coefficient = 10, scale = 0\<rparr>"
    by code_simp+
  have "wf_Money (Money_new usd (MinorAmount n))" if "n \<le> 400" for n
    using that by (simp add: wf_Money_def Money_new_def wf_MinorAmount_def MAX_MINOR_def wf_usd)
  then have p: "wf_FixedPrice ?p"
    using wf by (simp add: wf_FixedPrice_def wf_PriceTier_def wf_DiscountBps_def MAX_TIERS_def Money_new_def)
  have "Decimal_le \<lparr>coefficient = 10, scale = 0\<rparr> \<lparr>coefficient = 12, scale = 0\<rparr>"
    by code_simp
  moreover have "net_line_minor (MinorAmount 300) ?a ?b (DiscountBps 0) = Inr (MinorAmount 3600)"
    using wf by (subst net_line_minor_spec)
      (simp_all add: line_eval wf_MinorAmount_def wf_DiscountBps_def)
  ultimately have line: "FixedPrice_line ?p ?a = Inr \<lparr>lp_rate = Money_new usd (MinorAmount 300), lp_basis = ?b,
      lp_discount_bps = DiscountBps 0, lp_selected_tier_from = Some \<lparr>coefficient = 10, scale = 0\<rparr>,
      lp_total = Money_new usd (MinorAmount 3600)\<rparr>"
    by (simp add: FixedPrice_line_def Money_new_def del: One_nat_def)
  from FixedPrice_line_selects [OF p wf(2) line] line show ?thesis by (simp add: Money_new_def)
qed

text \<open>An order total is the exact sum of one to thirty-two line totals and the
  fulfillment charge in a single currency; every refusal is for the line count, a currency
  mismatch or a sum above the money bound, never for an intermediate sum.\<close>

theorem order_total_exact:
  assumes "wf_Money charge" and "\<forall>l\<in>set ls. wf_Money l"
  shows "case checked_order_total ls charge of
      Inr t \<Rightarrow> 1 \<le> length ls \<and> length ls \<le> 32 \<and> wf_Money t
        \<and> (\<forall>l\<in>set ls. money_currency l = money_currency t) \<and> money_currency charge = money_currency t
        \<and> money_value t = money_value charge + sum_list (map money_value ls)
    | Inl e \<Rightarrow>
        if ls = [] \<or> 32 < length ls then e = InvalidLineCount
        else e \<in> {MoneyFailure CurrencyMismatch, MoneyFailure MinorOutOfRange}
          \<and> \<not> ((\<forall>l\<in>set ls. money_currency l = money_currency charge)
               \<and> money_value charge + sum_list (map money_value ls) \<le> MAX_MINOR)"
  by (rule checked_order_total_spec [OF assms])

theorem order_total_exact_witness:
  "checked_order_total [Money_new usd (MinorAmount 250), Money_new usd (MinorAmount 175)]
      (Money_new usd (MinorAmount 0)) = Inr (Money_new usd (MinorAmount 425))
    \<and> money_value (Money_new usd (MinorAmount 425)) = 0 + (250 + 175)"
proof -
  let ?ls = "[Money_new usd (MinorAmount 250), Money_new usd (MinorAmount 175)]"
  let ?z = "Money_new usd (MinorAmount 0)"
  have wf: "wf_Money ?z" "\<forall>l\<in>set ?ls. wf_Money l"
    by (simp_all add: wf_Money_def Money_new_def wf_MinorAmount_def MAX_MINOR_def wf_usd)
  have "checked_order_total ?ls ?z = Inr (Money_new usd (MinorAmount 425))"
    by (simp add: checked_order_total_def MAX_PRICED_LINES_def Money_checked_add_spec wf_Money_def
        Money_new_def wf_MinorAmount_def MAX_MINOR_def wf_usd)
  with order_total_exact [OF wf] show ?thesis by (simp add: Money_new_def)
qed

text \<open>C30: a measured price never exceeds its monetary cap and is only given for a measurement
  in the authorized unit and inclusive range; it is in the currency of the cap. The minimum
  measurement of a constructed price is always payable, and whenever a measurement is payable
  every smaller authorized one is too, for no more.\<close>

theorem VariableWeight_capped_monotone:
  assumes new: "VariableWeight_new unit minimum maximum rate basis cap = Inr v"
    and wf: "wf_PositiveDecimal minimum" "wf_PositiveDecimal maximum" "wf_Money rate"
      "wf_PositiveDecimal basis" "wf_Money cap"
    and m: "wf_Quantity m"
  shows "(case VariableWeight_total_at v m of
        Inr t \<Rightarrow> money_value t \<le> money_value cap \<and> money_currency t = money_currency cap
          \<and> qty_unit m = unit \<and> micros (pd_amount minimum) \<le> micros (qty_amount m)
          \<and> micros (qty_amount m) \<le> micros (pd_amount maximum)
          \<and> (\<forall>n. wf_Quantity n \<and> qty_unit n = unit \<and> micros (pd_amount minimum) \<le> micros (qty_amount n)
                \<and> micros (qty_amount n) \<le> micros (qty_amount m)
              \<longrightarrow> (\<exists>u. VariableWeight_total_at v n = Inr u \<and> money_value u \<le> money_value t))
      | Inl e \<Rightarrow> True)
    \<and> \<not> isl (VariableWeight_total_at v \<lparr>qty_amount = pd_amount minimum, qty_unit = unit\<rparr>)"
proof -
  have v: "wf_VariableWeight v"
    and fields: "vw_measurement_unit v = unit" "vw_minimum v = minimum" "vw_maximum v = maximum"
      "vw_rate v = rate" "vw_basis v = basis" "vw_maximum_total v = cap"
    using new VariableWeight_new_Inr [OF wf] by auto
  have pos: "wf_PositiveDecimal (PositiveDecimal (qty_amount n))"
    if "wf_Quantity n" "micros (pd_amount minimum) \<le> micros (qty_amount n)" for n
  proof -
    have "0 < micros (qty_amount n)" using that(2) wf_PositiveDecimal_micros [OF wf(1)] by linarith
    then show ?thesis using that(1) by (simp add: wf_PositiveDecimal_def wf_Quantity_def micros_def)
  qed
  have first: "\<not> isl (VariableWeight_total_at v \<lparr>qty_amount = pd_amount minimum, qty_unit = unit\<rparr>)"
    using VariableWeight_total_at_spec [OF v, of "\<lparr>qty_amount = pd_amount minimum, qty_unit = unit\<rparr>"] v
    by (auto simp: wf_VariableWeight_def fields)
  show ?thesis
  proof (cases "VariableWeight_total_at v m")
    case (Inl e)
    with first show ?thesis by simp
  next
    case (Inr t)
    have range: "qty_unit m = unit" "micros (pd_amount minimum) \<le> micros (qty_amount m)"
      "micros (qty_amount m) \<le> micros (pd_amount maximum)"
      and total: "VariableWeight_total v (PositiveDecimal (qty_amount m)) = Inr t"
      using Inr VariableWeight_total_at_spec [OF v m] by (auto simp: fields split: if_splits)
    have "money_value t \<le> money_value cap" and "money_currency t = money_currency cap"
      using total VariableWeight_total_spec [of v "PositiveDecimal (qty_amount m)"] pos [OF m range(2)] v
      by (auto simp: wf_VariableWeight_def fields Money_new_def split: if_splits)
    moreover have "\<exists>u. VariableWeight_total_at v n = Inr u \<and> money_value u \<le> money_value t"
      if n: "wf_Quantity n" "qty_unit n = unit" "micros (pd_amount minimum) \<le> micros (qty_amount n)"
        "micros (qty_amount n) \<le> micros (qty_amount m)" for n
      using VariableWeight_total_mono [OF v pos [OF n(1,3)] pos [OF m range(2)] _ total] n range(3)
        VariableWeight_total_at_spec [OF v n(1)]
      by (simp add: fields)
    ultimately show ?thesis using Inr range first by simp
  qed
qed

theorem VariableWeight_capped_monotone_witness:
  "\<exists>v t. VariableWeight_new Kilogram (PositiveDecimal \<lparr>coefficient = 1, scale = 0\<rparr>)
      (PositiveDecimal \<lparr>coefficient = 2, scale = 0\<rparr>) (Money_new usd (MinorAmount 400))
      (PositiveDecimal \<lparr>coefficient = 1, scale = 0\<rparr>) (Money_new usd (MinorAmount 700)) = Inr v
    \<and> VariableWeight_total_at v \<lparr>qty_amount = \<lparr>coefficient = 15, scale = 1\<rparr>, qty_unit = Kilogram\<rparr> = Inr t
    \<and> money_value t = 600 \<and> money_value t \<le> money_value (Money_new usd (MinorAmount 700))"
proof -
  let ?p = "\<lambda>c. PositiveDecimal \<lparr>coefficient = c, scale = 0\<rparr>"
  let ?v = "\<lparr>vw_measurement_unit = Kilogram, vw_minimum = ?p 1, vw_maximum = ?p 2,
    vw_rate = Money_new usd (MinorAmount 400), vw_basis = ?p 1,
    vw_maximum_total = Money_new usd (MinorAmount 700)\<rparr>"
  let ?m = "\<lparr>qty_amount = \<lparr>coefficient = 15, scale = 1\<rparr>, qty_unit = Kilogram\<rparr>"
  have wf: "wf_PositiveDecimal (?p 1)" "wf_PositiveDecimal (?p 2)" "wf_Quantity ?m" by code_simp+
  have money: "wf_Money (Money_new usd (MinorAmount 400))" "wf_Money (Money_new usd (MinorAmount 700))"
    by (simp_all add: wf_Money_def Money_new_def wf_MinorAmount_def MAX_MINOR_def wf_usd)
  have lines: "net_line_minor (MinorAmount 400) (?p 1) (?p 1) DiscountBps_NONE = Inr (MinorAmount 400)"
    "net_line_minor (MinorAmount 400) (PositiveDecimal \<lparr>coefficient = 15, scale = 1\<rparr>) (?p 1)
      DiscountBps_NONE = Inr (MinorAmount 600)"
    using wf by (subst net_line_minor_spec;
        simp add: line_eval DiscountBps_NONE_def wf_MinorAmount_def wf_DiscountBps_def
          wf_PositiveDecimal_def wf_Quantity_def)+
  have cmp: "\<not> Decimal_lt \<lparr>coefficient = 2, scale = 0\<rparr> \<lparr>coefficient = 1, scale = 0\<rparr>"
    "\<not> Decimal_lt \<lparr>coefficient = 15, scale = 1\<rparr> \<lparr>coefficient = 1, scale = 0\<rparr>"
    "\<not> Decimal_lt \<lparr>coefficient = 2, scale = 0\<rparr> \<lparr>coefficient = 15, scale = 1\<rparr>"
    by code_simp+
  have new: "VariableWeight_new Kilogram (?p 1) (?p 2) (Money_new usd (MinorAmount 400)) (?p 1)
      (Money_new usd (MinorAmount 700)) = Inr ?v"
    by (simp add: VariableWeight_new_def Quantity_new_def VariableWeight_total_def lines cmp Money_new_def
        Let_def del: One_nat_def)
  have total: "VariableWeight_total_at ?v ?m = Inr (Money_new usd (MinorAmount 600))"
    by (simp add: VariableWeight_total_at_def VariableWeight_total_def PositiveDecimal_new_def
        Decimal_is_zero_def lines cmp Money_new_def del: One_nat_def)
  have "money_value (Money_new usd (MinorAmount 600)) \<le> money_value (Money_new usd (MinorAmount 700))"
    using VariableWeight_capped_monotone [OF new wf(1,2) money(1) wf(1) money(2) wf(3)] total by simp
  with new total show ?thesis by (simp add: Money_new_def)
qed

end
