(* ===== verification/Listing.thy ===== *)
theory Listing
  imports Pricing Descriptors
begin

text \<open>
  Public offers of \<open>crates/domain/src/listing.rs\<close> and its submodules \<open>price.rs\<close>, \<open>media.rs\<close>,
  \<open>reference.rs\<close> and \<open>view.rs\<close>: bounded text, sale units, options with purchase rules, complete
  listing terms, and the coordinate and revision references.
\<close>

section \<open>Errors and text\<close>

datatype ListingError =
    InvalidIdentifier
  | InvalidText
  | InvalidQuantity
  | InvalidOptions
  | InvalidFulfillment
  | InvalidDuration
  | InvalidTime
  | NotFixedPrice
  | PricingFailure PricingError
  | InvalidMediaDigest
  | TooManyMedia

definition listing_text :: "string \<Rightarrow> nat \<Rightarrow> bool \<Rightarrow> ListingError + unit" where
  "listing_text v maximum allow_empty =
     (if (\<not> allow_empty \<and> v = []) \<or> min (maximum * 4) (2 ^ 64 - 1) < length v
         \<or> maximum < chars_count v
      then Inl InvalidText else Inr ())"

section \<open>Identifiers, durations, states\<close>

datatype ListingId = ListingId (listing_bytes: "8 word list")

text \<open>The digit closure shared by the listing identifier and the media digest.\<close>

definition listing_digit :: "ListingError \<Rightarrow> char \<Rightarrow> ListingError + 8 word" where
  "listing_digit e b =
     (if 48 \<le> byte_of b \<and> byte_of b \<le> 57 then Inr (of_nat (byte_of b - 48))
      else if 97 \<le> byte_of b \<and> byte_of b \<le> 102 then Inr (of_nat (byte_of b - 97 + 10))
      else Inl e)"

fun listing_pairs :: "ListingError \<Rightarrow> string \<Rightarrow> ListingError + 8 word list" where
  "listing_pairs e (a # b # rest) =
     bindE (listing_digit e a) (\<lambda>h. bindE (listing_digit e b) (\<lambda>l.
       map_ok (\<lambda>bs. (h * 16 + l) # bs) (listing_pairs e rest)))"
| "listing_pairs e _ = Inr []"

definition ListingId_from_str :: "string \<Rightarrow> ListingError + ListingId" where
  "ListingId_from_str v =
     (if length v \<noteq> 32 then Inl InvalidIdentifier
      else map_ok ListingId (listing_pairs InvalidIdentifier v))"

definition ListingId_to_string :: "ListingId \<Rightarrow> string" where
  "ListingId_to_string x = concat (map hex_byte (listing_bytes x))"

definition wf_ListingId :: "ListingId \<Rightarrow> bool" where
  "wf_ListingId x \<longleftrightarrow> length (listing_bytes x) = 16"

datatype LeadSeconds = LeadSeconds (lead_get: Sequence)

definition LeadSeconds_new :: "u64 \<Rightarrow> ListingError + LeadSeconds" where
  "LeadSeconds_new v = map_ok LeadSeconds (map_err (\<lambda>_. InvalidDuration) (Sequence_new v))"

datatype ListingState = Active | Paused | Withdrawn

section \<open>Sale units, supply, products\<close>

datatype SaleUnit = Measured MeasurementUnit | Package string ContentMeasure

definition SaleUnit_package :: "string \<Rightarrow> ContentMeasure \<Rightarrow> ListingError + SaleUnit" where
  "SaleUnit_package label contents =
     bindE (listing_text label 80 False) (\<lambda>_. Inr (Package label contents))"

fun SaleUnit_contents :: "SaleUnit \<Rightarrow> ContentMeasure option" where
  "SaleUnit_contents (Package _ contents) = Some contents"
| "SaleUnit_contents (Measured _) = None"

fun SaleUnit_label :: "SaleUnit \<Rightarrow> string" where
  "SaleUnit_label (Measured unit) = MeasurementUnit_symbol unit"
| "SaleUnit_label (Package label _) = label"

fun SaleUnit_integral :: "SaleUnit \<Rightarrow> bool" where
  "SaleUnit_integral (Package _ _) = True"
| "SaleUnit_integral (Measured unit) = (unit = Each)"

datatype Supply = UnknownSupply | Available Decimal | EstimatedSupply Decimal "Window option"

fun supply_amount :: "Supply \<Rightarrow> Decimal option" where
  "supply_amount UnknownSupply = None"
| "supply_amount (Available amount) = Some amount"
| "supply_amount (EstimatedSupply amount _) = Some amount"

record Product =
  pr_name :: string
  pr_description :: string
  pr_producer :: "PublicKey option"
  pr_origin_summary :: "string option"

definition Product_new ::
  "string \<Rightarrow> string \<Rightarrow> PublicKey option \<Rightarrow> string option \<Rightarrow> ListingError + Product" where
  "Product_new name description producer origin_summary =
     bindE (listing_text name 160 False) (\<lambda>_.
     bindE (listing_text description 4096 True) (\<lambda>_.
     bindE (case origin_summary of None \<Rightarrow> Inr () | Some origin \<Rightarrow> listing_text origin 160 True) (\<lambda>_.
       Inr \<lparr>pr_name = name, pr_description = description, pr_producer = producer,
            pr_origin_summary = origin_summary\<rparr>)))"

section \<open>Options\<close>

datatype Price = PriceFixed FixedPrice | QuoteRequired | PriceVariable VariableWeight

record ListingOption =
  op_id :: ListingOptionId
  op_label :: string
  op_unit :: SaleUnit
  op_increment :: PositiveDecimal
  op_minimum :: PositiveDecimal
  op_price :: Price
  op_supply :: Supply
  op_lead_seconds :: LeadSeconds

definition align_to :: "u8 \<Rightarrow> Decimal \<Rightarrow> i128 option" where
  "align_to s amount =
     Option.bind (checked_pow_i 128 10 (sub_u 8 s (scale amount)))
       (checked_mul_i 128 (int (coefficient amount)))"

definition exact_multiple :: "Decimal \<Rightarrow> Decimal \<Rightarrow> bool" where
  "exact_multiple v increment =
     (let s = max (scale v) (scale increment) in
      Option.bind (align_to s v) (\<lambda>v. Option.bind (align_to s increment) (checked_rem_i 128 v)) = Some 0)"

definition ListingOption_new ::
  "ListingOptionId \<Rightarrow> string \<Rightarrow> SaleUnit \<Rightarrow> PositiveDecimal \<Rightarrow> PositiveDecimal \<Rightarrow> Price \<Rightarrow> Supply
    \<Rightarrow> LeadSeconds \<Rightarrow> ListingError + ListingOption" where
  "ListingOption_new oid label unit increment minimum price supply lead_seconds =
     bindE (listing_text label 120 False) (\<lambda>_.
     let inc = pd_amount increment; mini = pd_amount minimum in
     if \<not> exact_multiple mini inc
        \<or> (SaleUnit_integral unit \<and>
            (scale inc \<noteq> 0 \<or> scale mini \<noteq> 0
             \<or> (case supply_amount supply of None \<Rightarrow> False | Some amount \<Rightarrow> scale amount \<noteq> 0)))
     then Inl InvalidQuantity
     else Inr \<lparr>op_id = oid, op_label = label, op_unit = unit, op_increment = increment,
               op_minimum = minimum, op_price = price, op_supply = supply,
               op_lead_seconds = lead_seconds\<rparr>)"

definition ListingOption_quote_required ::
  "ListingOptionId \<Rightarrow> string \<Rightarrow> SaleUnit \<Rightarrow> PositiveDecimal \<Rightarrow> PositiveDecimal \<Rightarrow> Supply \<Rightarrow> LeadSeconds
    \<Rightarrow> ListingError + ListingOption" where
  "ListingOption_quote_required oid label unit increment minimum supply lead_seconds =
     ListingOption_new oid label unit increment minimum QuoteRequired supply lead_seconds"

definition ListingOption_validate_amount :: "ListingOption \<Rightarrow> PositiveDecimal \<Rightarrow> ListingError + unit" where
  "ListingOption_validate_amount opt amount =
     (let amount = pd_amount amount in
      if Decimal_lt amount (pd_amount (op_minimum opt))
         \<or> \<not> exact_multiple amount (pd_amount (op_increment opt))
         \<or> (SaleUnit_integral (op_unit opt) \<and> scale amount \<noteq> 0)
      then Inl InvalidQuantity else Inr ())"

definition ListingOption_fixed_line :: "ListingOption \<Rightarrow> PositiveDecimal \<Rightarrow> ListingError + LinePrice" where
  "ListingOption_fixed_line opt amount =
     bindE (ListingOption_validate_amount opt amount) (\<lambda>_.
       case op_price opt of
         PriceFixed v \<Rightarrow> map_err PricingFailure (FixedPrice_line v amount)
       | QuoteRequired \<Rightarrow> Inl NotFixedPrice
       | PriceVariable _ \<Rightarrow> Inl NotFixedPrice)"

section \<open>Fulfillment, media, terms\<close>

datatype FulfillmentMode = Pickup | Delivery

record PublicFulfillment =
  pf_modes :: "FulfillmentMode list"
  pf_area :: string
  pf_lead_seconds :: LeadSeconds

definition PublicFulfillment_new ::
  "FulfillmentMode list \<Rightarrow> string \<Rightarrow> LeadSeconds \<Rightarrow> ListingError + PublicFulfillment" where
  "PublicFulfillment_new modes area lead_seconds =
     (if modes = [] \<or> 2 < length modes \<or> (length modes = 2 \<and> modes ! 0 = modes ! 1)
      then Inl InvalidFulfillment
      else bindE (listing_text area 160 True) (\<lambda>_.
        Inr \<lparr>pf_modes = modes, pf_area = area, pf_lead_seconds = lead_seconds\<rparr>))"

record Media =
  md_url :: string
  md_sha256 :: "8 word list"
  md_mime :: string
  md_alt :: string

definition Media_new :: "string \<Rightarrow> 8 word list \<Rightarrow> string \<Rightarrow> string \<Rightarrow> ListingError + Media" where
  "Media_new url sha256 mime alt =
     bindE (listing_text url 2048 False) (\<lambda>_.
     bindE (listing_text mime 80 False) (\<lambda>_.
     bindE (listing_text alt 240 True) (\<lambda>_.
       Inr \<lparr>md_url = url, md_sha256 = sha256, md_mime = mime, md_alt = alt\<rparr>)))"

definition Media_from_hex_digest :: "string \<Rightarrow> string \<Rightarrow> string \<Rightarrow> string \<Rightarrow> ListingError + Media" where
  "Media_from_hex_digest url sha256 mime alt =
     (if length sha256 \<noteq> 64 then Inl InvalidMediaDigest
      else bindE (listing_pairs InvalidMediaDigest sha256) (\<lambda>digest. Media_new url digest mime alt))"

definition MAX_MEDIA :: nat where
  "MAX_MEDIA = 8"

record ListingTerms =
  lt_state :: ListingState
  lt_product :: Product
  lt_default_option :: ListingOptionId
  lt_options :: "ListingOption list"
  lt_fulfillment :: PublicFulfillment
  lt_authority :: "AuthorityRef option"
  lt_media :: "Media list"
  lt_default_index :: nat

text \<open>\<open>Iterator::position\<close>.\<close>

fun position :: "('a \<Rightarrow> bool) \<Rightarrow> 'a list \<Rightarrow> nat option" where
  "position P [] = None"
| "position P (x # xs) = (if P x then Some 0 else map_option Suc (position P xs))"

definition ListingTerms_new ::
  "ListingState \<Rightarrow> Product \<Rightarrow> ListingOptionId \<Rightarrow> ListingOption list \<Rightarrow> PublicFulfillment
    \<Rightarrow> AuthorityRef option \<Rightarrow> Media list \<Rightarrow> ListingError + ListingTerms" where
  "ListingTerms_new state goods default_option options fulfillment authority media =
     (if MAX_MEDIA < length media then Inl TooManyMedia
      else if options = [] \<or> 16 < length options \<or> has_duplicate op_id options then Inl InvalidOptions
      else bindE (ok_or InvalidOptions (position (\<lambda>opt. op_id opt = default_option) options))
        (\<lambda>default_index.
          Inr \<lparr>lt_state = state, lt_product = goods, lt_default_option = default_option,
               lt_options = options, lt_fulfillment = fulfillment, lt_authority = authority,
               lt_media = media, lt_default_index = default_index\<rparr>))"

text \<open>Indexing panics outside the slice; that outcome is \<open>None\<close>.\<close>

definition ListingTerms_default_option :: "ListingTerms \<Rightarrow> ListingOption option" where
  "ListingTerms_default_option t =
     (if lt_default_index t < length (lt_options t) then Some (lt_options t ! lt_default_index t)
      else None)"

section \<open>References and views\<close>

record ListingCoordinate =
  co_author :: PublicKey
  co_d :: ListingId

definition ListingCoordinate_kind :: "ListingCoordinate \<Rightarrow> u16" where
  "ListingCoordinate_kind c = 30402"

text \<open>The closed wire object: kind, author and discriminator, each already decoded.\<close>

definition ListingCoordinate_from_wire :: "u16 \<Rightarrow> PublicKey \<Rightarrow> ListingId \<Rightarrow> ListingCoordinate option" where
  "ListingCoordinate_from_wire kind author d =
     (if kind \<noteq> 30402 then None else Some \<lparr>co_author = author, co_d = d\<rparr>)"

record ListingRevision =
  rev_coordinate :: ListingCoordinate
  rev_event_id :: EnvelopeEventId

record ListingText =
  tx_title :: string
  tx_summary :: string
  tx_description_markdown :: string

definition ListingText_new :: "string \<Rightarrow> string \<Rightarrow> string \<Rightarrow> ListingError + ListingText" where
  "ListingText_new title summary description_markdown =
     bindE (listing_text title 160 False) (\<lambda>_.
     bindE (listing_text summary 280 False) (\<lambda>_.
     bindE (listing_text description_markdown 16384 True) (\<lambda>_.
       Inr \<lparr>tx_title = title, tx_summary = summary,
            tx_description_markdown = description_markdown\<rparr>)))"

record Listing =
  ls_id :: ListingId
  ls_author :: PublicKey
  ls_revision :: EnvelopeEventId
  ls_created_at :: UnixSeconds
  ls_published_at :: UnixSeconds
  ls_text :: ListingText
  ls_terms :: ListingTerms

definition Listing_new ::
  "ListingId \<Rightarrow> PublicKey \<Rightarrow> EnvelopeEventId \<Rightarrow> UnixSeconds \<Rightarrow> UnixSeconds \<Rightarrow> ListingText \<Rightarrow> ListingTerms
    \<Rightarrow> ListingError + Listing" where
  "Listing_new lid author revision created_at published_at txt terms =
     (if seconds_get created_at < seconds_get published_at then Inl InvalidTime
      else Inr \<lparr>ls_id = lid, ls_author = author, ls_revision = revision, ls_created_at = created_at,
                ls_published_at = published_at, ls_text = txt, ls_terms = terms\<rparr>)"

definition Listing_source :: "Listing \<Rightarrow> ListingRevision" where
  "Listing_source l =
     \<lparr>rev_coordinate = \<lparr>co_author = ls_author l, co_d = ls_id l\<rparr>, rev_event_id = ls_revision l\<rparr>"

section \<open>Hexadecimal identifiers\<close>

lemma times_16_plus:
  assumes "h < (16 :: 8 word)" and "l < 16"
  shows "h * 16 + l = or (push_bit 4 h) l"
proof -
  have "take_bit 4 l = l"
  proof -
    have "unat l < 2 ^ 4" using assms(2) by (simp add: word_less_nat_alt)
    then show ?thesis by (simp add: word_unat_eq_iff unsigned_take_bit_eq take_bit_nat_eq_self)
  qed
  moreover have "and (push_bit 4 h) (take_bit 4 l) = 0"
    by (rule bit_eqI) (auto simp: bit_simps)
  ultimately have "push_bit 4 h + l = or (push_bit 4 h) l"
    using word_plus_and_or [of "push_bit 4 h" l] by simp
  then show ?thesis by (simp add: push_bit_eq_mult)
qed

lemma listing_digit_nibble: "listing_digit e c = map_err (\<lambda>_. e) (nibble c)"
  by (simp add: listing_digit_def nibble_def)

lemma listing_pairs_eq: "listing_pairs e s = map_err (\<lambda>_. e) (parse_pairs s)"
proof (induction e s rule: listing_pairs.induct)
  case (1 e a b rest)
  show ?case
  proof (cases "nibble a")
    case (Inr h)
    show ?thesis
    proof (cases "nibble b")
      case (Inr l)
      with \<open>nibble a = Inr h\<close> have "h * 16 + l = or (push_bit 4 h) l"
        by (intro times_16_plus nibble_Inr(1))
      with 1 Inr \<open>nibble a = Inr h\<close> show ?thesis
        by (cases "parse_pairs rest") (simp_all add: listing_digit_nibble)
    qed (simp add: listing_digit_nibble Inr)
  qed (simp add: listing_digit_nibble)
qed simp_all

interpretation listing_codec: canonical_codec wf_ListingId ListingId_to_string ListingId_from_str
proof
  fix x assume "wf_ListingId x"
  then show "ListingId_from_str (ListingId_to_string x) = Inr x"
    by (cases x) (simp add: ListingId_from_str_def ListingId_to_string_def wf_ListingId_def
        length_render listing_pairs_eq parse_pairs_render)
next
  fix s x assume "ListingId_from_str s = Inr x"
  then have "length s = 32" and "parse_pairs s = Inr (listing_bytes x)"
    by (auto simp: ListingId_from_str_def listing_pairs_eq result_simps)
  with render_parse_pairs [of s "listing_bytes x"]
  show "wf_ListingId x \<and> ListingId_to_string x = s"
    by (simp add: wf_ListingId_def ListingId_to_string_def)
qed

section \<open>Purchase rules\<close>

lemma align_to_eq:
  assumes "wf_Decimal d" and "scale d \<le> s" and "s \<le> 6"
  shows "align_to s d = Some (int (Decimal_aligned d s))"
proof -
  note al = aligned_exact [OF assms]
  have "coefficient d * 10 ^ (s - scale d) < 2 ^ 127"
    using al(2) by (simp add: al(3) MAX_COEFFICIENT_def)
  from checked_mul_nat [OF this] checked_pow_nat [of "s - scale d"] assms(2,3)
  show ?thesis by (simp add: align_to_def sub_u_def al(3))
qed

lemma exact_multiple_iff:
  assumes "wf_Decimal v" and "wf_Decimal i" and "0 < micros i"
  shows "exact_multiple v i \<longleftrightarrow> micros i dvd micros v"
proof -
  define s where "s = max (scale v) (scale i)"
  have s: "s \<le> 6" "scale v \<le> s" "scale i \<le> s"
    using max_scale_le [OF assms(1,2)] by (auto simp: s_def)
  note av = aligned_exact(1) [OF assms(1) s(2,1)] and ai = aligned_exact(1) [OF assms(2) s(3,1)]
  have pos: "0 < Decimal_aligned i s" using assms(3) ai by (metis mult_0 neq0_conv)
  have "exact_multiple v i \<longleftrightarrow> Decimal_aligned v s mod Decimal_aligned i s = 0"
    by (simp add: exact_multiple_def Let_def s_def [symmetric] align_to_eq [OF assms(1) s(2,1)]
        align_to_eq [OF assms(2) s(3,1)] checked_rem_nat [OF pos])
  also have "\<dots> \<longleftrightarrow> Decimal_aligned i s dvd Decimal_aligned v s" by (rule mod_eq_0_iff_dvd)
  also have "\<dots> \<longleftrightarrow> Decimal_aligned i s * 10 ^ (6 - s) dvd Decimal_aligned v s * 10 ^ (6 - s)" by simp
  finally show ?thesis by (simp only: av ai)
qed

fun wf_Price :: "Price \<Rightarrow> bool" where
  "wf_Price (PriceFixed p) = wf_FixedPrice p"
| "wf_Price QuoteRequired = True"
| "wf_Price (PriceVariable v) = wf_VariableWeight v"

definition wf_ListingOption :: "ListingOption \<Rightarrow> bool" where
  "wf_ListingOption opt \<longleftrightarrow> wf_PositiveDecimal (op_increment opt) \<and> wf_PositiveDecimal (op_minimum opt)
     \<and> micros (pd_amount (op_increment opt)) dvd micros (pd_amount (op_minimum opt))
     \<and> (SaleUnit_integral (op_unit opt) \<longrightarrow>
          scale (pd_amount (op_increment opt)) = 0 \<and> scale (pd_amount (op_minimum opt)) = 0)
     \<and> wf_Price (op_price opt)"

lemma ListingOption_new_wf:
  assumes "ListingOption_new oid label unit increment minimum price supply lead = Inr opt"
    and "wf_PositiveDecimal increment" and "wf_PositiveDecimal minimum" and "wf_Price price"
  shows "wf_ListingOption opt" and "op_increment opt = increment" and "op_minimum opt = minimum"
    and "op_unit opt = unit" and "op_id opt = oid"
  using assms exact_multiple_iff [of "pd_amount minimum" "pd_amount increment"]
    wf_PositiveDecimal_micros [OF assms(2)]
  by (auto simp: ListingOption_new_def Let_def result_simps wf_ListingOption_def wf_PositiveDecimal_def)

lemma validate_amount_iff:
  assumes "wf_ListingOption opt" and "wf_PositiveDecimal a"
  shows "ListingOption_validate_amount opt a = Inr () \<longleftrightarrow>
    micros (pd_amount (op_minimum opt)) \<le> micros (pd_amount a)
    \<and> micros (pd_amount (op_increment opt)) dvd micros (pd_amount a)
    \<and> (SaleUnit_integral (op_unit opt) \<longrightarrow> scale (pd_amount a) = 0)"
  using assms exact_multiple_iff [of "pd_amount a" "pd_amount (op_increment opt)"]
    wf_PositiveDecimal_micros [of "op_increment opt"]
  by (auto simp: ListingOption_validate_amount_def Let_def wf_ListingOption_def wf_PositiveDecimal_def)

lemma validate_amount_error:
  "ListingOption_validate_amount opt a = Inl e \<Longrightarrow> e = InvalidQuantity"
  by (auto simp: ListingOption_validate_amount_def Let_def split: if_splits)

section \<open>Terms\<close>

lemma position_Some:
  "position P xs = Some i \<longleftrightarrow> i < length xs \<and> P (xs ! i) \<and> (\<forall>j<i. \<not> P (xs ! j))"
proof (induction xs arbitrary: i)
  case Nil
  then show ?case by simp
next
  case (Cons x xs)
  then show ?case by (cases i) (auto simp: less_Suc_eq_0_disj)
qed

lemma position_None: "position P xs = None \<longleftrightarrow> (\<forall>x\<in>set xs. \<not> P x)"
  by (induction xs) auto

section \<open>Properties\<close>

text \<open>Listing identifiers and measurement units have exactly one accepted spelling.\<close>

theorem listing_codecs_canonical:
  "(ListingId_from_str s = Inr x \<longleftrightarrow> wf_ListingId x \<and> ListingId_to_string x = s)
    \<and> (MeasurementUnit_visit_str s = Some u \<longleftrightarrow> MeasurementUnit_symbol u = s)"
  using listing_codec.parse_iff [of s x] unit_codec.parse_iff [of s u] by (simp add: result_simps)

text \<open>C35: an amount may be purchased from a constructed option exactly when it is at least the
  minimum, a whole multiple of the increment as an exact value, and a whole number if the sale
  unit is counted. The advertised minimum itself is always purchasable.\<close>

theorem ListingOption_purchase_rules:
  assumes new: "ListingOption_new oid label unit increment minimum price supply lead = Inr opt"
    and wf: "wf_PositiveDecimal increment" "wf_PositiveDecimal minimum" "wf_Price price"
    and a: "wf_PositiveDecimal amount"
  shows "(ListingOption_validate_amount opt amount = Inr () \<longleftrightarrow>
      micros (pd_amount minimum) \<le> micros (pd_amount amount)
      \<and> micros (pd_amount increment) dvd micros (pd_amount amount)
      \<and> (SaleUnit_integral unit \<longrightarrow> scale (pd_amount amount) = 0))
    \<and> ListingOption_validate_amount opt minimum = Inr ()"
proof -
  note opt = ListingOption_new_wf [OF new wf]
  show ?thesis
    using validate_amount_iff [OF opt(1) a] validate_amount_iff [OF opt(1) wf(2)] opt
    by (auto simp: wf_ListingOption_def)
qed

theorem ListingOption_purchase_rules_witness:
  "\<exists>opt. ListingOption_new (from_bytes (replicate 32 7)) ''eggs'' (Measured Each) (PositiveDecimal \<lparr>coefficient = 6, scale = 0\<rparr>)
      (PositiveDecimal \<lparr>coefficient = 12, scale = 0\<rparr>) QuoteRequired UnknownSupply (LeadSeconds (Sequence 0)) = Inr opt
    \<and> ListingOption_validate_amount opt (PositiveDecimal \<lparr>coefficient = 18, scale = 0\<rparr>) = Inr ()
    \<and> ListingOption_validate_amount opt (PositiveDecimal \<lparr>coefficient = 12, scale = 0\<rparr>) = Inr ()"
proof -
  let ?p = "\<lambda>c. PositiveDecimal \<lparr>coefficient = c, scale = 0\<rparr>"
  let ?new = "ListingOption_new (from_bytes (replicate 32 7)) ''eggs'' (Measured Each) (?p 6) (?p 12) QuoteRequired
    UnknownSupply (LeadSeconds (Sequence 0))"
  have wf: "wf_PositiveDecimal (?p 6)" "wf_PositiveDecimal (?p 12)" "wf_PositiveDecimal (?p 18)"
    "wf_Price QuoteRequired" by code_simp+
  have "exact_multiple \<lparr>coefficient = 12, scale = 0\<rparr> \<lparr>coefficient = 6, scale = 0\<rparr>"
    using wf by (subst exact_multiple_iff) (simp_all add: wf_PositiveDecimal_def micros_def)
  moreover have "listing_text ''eggs'' 120 False = Inr ()" by code_simp
  ultimately obtain opt where opt: "?new = Inr opt" by (simp add: ListingOption_new_def)
  from ListingOption_purchase_rules [OF opt wf(1,2,4,3)] opt show ?thesis
    by (simp add: micros_def)
qed

text \<open>Complete listing terms are admitted exactly for at most eight media, one to sixteen
  options with distinct identities and a default among them; reading the default option of
  admitted terms never fails and returns the option with the declared identity.\<close>

theorem ListingTerms_default_member:
  "case ListingTerms_new state goods dflt options fulfillment authority media of
      Inr t \<Rightarrow> length media \<le> 8 \<and> options \<noteq> [] \<and> length options \<le> 16 \<and> distinct (map op_id options)
        \<and> lt_options t = options \<and> lt_default_option t = dflt
        \<and> (\<exists>opt. ListingTerms_default_option t = Some opt \<and> opt \<in> set options \<and> op_id opt = dflt)
    | Inl e \<Rightarrow> (if 8 < length media then e = TooManyMedia
        else e = InvalidOptions \<and> \<not> (options \<noteq> [] \<and> length options \<le> 16 \<and> distinct (map op_id options)
          \<and> dflt \<in> op_id ` set options))"
proof (cases "position (\<lambda>opt. op_id opt = dflt) options")
  case None
  then have "\<forall>opt\<in>set options. op_id opt \<noteq> dflt" by (simp add: position_None)
  with None show ?thesis by (auto simp: ListingTerms_new_def MAX_MEDIA_def)
next
  case (Some i)
  then have "i < length options" and "op_id (options ! i) = dflt" by (simp_all add: position_Some)
  then show ?thesis
    using Some by (auto simp: ListingTerms_new_def MAX_MEDIA_def ListingTerms_default_option_def)
qed

end
