(* ===== verification/Option_Mapping.thy ===== *)
theory Option_Mapping
  imports Stock Listing
begin

text \<open>
  Private option-to-pool mappings of \<open>crates/domain/src/stock/mapping.rs\<close>: the exact draw of
  one sale unit on a pool, the draw of a purchase, and the wire object that carries its
  derived ticks.
\<close>

section \<open>Definitions\<close>

datatype MappingError =
    InvalidVersion
  | ZeroDraw
  | MappingQuantity QuantityError
  | MappingStock StockError

record OptionMappingKey =
  mk_listing :: ListingCoordinate
  mk_option :: ListingOptionId

record OptionPoolMapping =
  mp_key :: OptionMappingKey
  mp_pool :: PoolId
  mp_unit :: PoolUnit
  mp_per_sale_unit :: Quantity
  mp_per_sale_ticks :: StockTicks
  mp_version :: Sequence

definition OptionPoolMapping_new ::
  "OptionMappingKey \<Rightarrow> PoolId \<Rightarrow> PoolUnit \<Rightarrow> Quantity \<Rightarrow> Sequence \<Rightarrow> MappingError + OptionPoolMapping" where
  "OptionPoolMapping_new key pool unit per_sale_unit version =
     (if sequence_get version = 0 then Inl InvalidVersion
      else if Decimal_is_zero (qty_amount per_sale_unit) then Inl ZeroDraw
      else bindE (map_err MappingQuantity (Quantity_convert per_sale_unit (pu_unit unit))) (\<lambda>normalized.
       bindE (map_err MappingStock (PoolUnit_ticks_for unit normalized)) (\<lambda>per_sale_ticks.
         if per_sale_ticks = StockTicks_ZERO then Inl ZeroDraw
         else Inr \<lparr>mp_key = key, mp_pool = pool, mp_unit = unit, mp_per_sale_unit = per_sale_unit,
                   mp_per_sale_ticks = per_sale_ticks, mp_version = version\<rparr>)))"

definition draw_for_sales :: "OptionPoolMapping \<Rightarrow> PositiveDecimal \<Rightarrow> MappingError + StockTicks" where
  "draw_for_sales m sales =
     (let amount = pd_amount sales in
      bindE (ok_or (MappingStock OutOfRange)
        (checked_mul_u 128 (ticks_get (mp_per_sale_ticks m)) (coefficient amount))) (\<lambda>numerator.
      let denominator = pow_u 128 10 (scale amount) in
      if \<not> denominator dvd numerator then Inl (MappingStock PrecisionLoss)
      else bindE (ok_or (MappingStock OutOfRange) (fits_u 64 (numerator div denominator))) (\<lambda>ticks.
        map_err MappingStock (StockTicks_new ticks))))"

text \<open>The closed wire object; its fields are decoded by their own codecs.\<close>

record OptionPoolMappingWire =
  mw_listing :: ListingCoordinate
  mw_option_id :: ListingOptionId
  mw_pool_id :: PoolId
  mw_pool_unit :: PoolUnit
  mw_per_sale_unit :: Quantity
  mw_per_sale_ticks :: StockTicks
  mw_version :: Sequence

datatype MappingWireError = MappingRejected MappingError | TickConversionDiffers

definition OptionPoolMapping_serialize :: "OptionPoolMapping \<Rightarrow> OptionPoolMappingWire" where
  "OptionPoolMapping_serialize m =
     \<lparr>mw_listing = mk_listing (mp_key m), mw_option_id = mk_option (mp_key m), mw_pool_id = mp_pool m,
      mw_pool_unit = mp_unit m, mw_per_sale_unit = mp_per_sale_unit m,
      mw_per_sale_ticks = mp_per_sale_ticks m, mw_version = mp_version m\<rparr>"

definition OptionPoolMapping_deserialize ::
  "OptionPoolMappingWire \<Rightarrow> MappingWireError + OptionPoolMapping" where
  "OptionPoolMapping_deserialize w =
     bindE (map_err MappingRejected
       (OptionPoolMapping_new \<lparr>mk_listing = mw_listing w, mk_option = mw_option_id w\<rparr>
         (mw_pool_id w) (mw_pool_unit w) (mw_per_sale_unit w) (mw_version w))) (\<lambda>v.
     if mp_per_sale_ticks v \<noteq> mw_per_sale_ticks w then Inl TickConversionDiffers
     else Inr v)"

section \<open>The physical value of ticks\<close>

text \<open>
  \<open>ticks_base u t\<close> is the physical value of \<open>t\<close> ticks in millionths of the base unit of the
  dimension, the scale on which \<open>base_value\<close> measures quantities.
\<close>

definition ticks_base :: "PoolUnit \<Rightarrow> StockTicks \<Rightarrow> nat" where
  "ticks_base u t = base_factor (pu_unit u) * (ticks_get t * 10 ^ (6 - pu_scale u))"

definition wf_Mapping :: "OptionPoolMapping \<Rightarrow> bool" where
  "wf_Mapping m \<longleftrightarrow> wf_PoolUnit (mp_unit m) \<and> wf_Quantity (mp_per_sale_unit m)
     \<and> sequence_get (mp_version m) \<noteq> 0
     \<and> (\<exists>r. Quantity_convert (mp_per_sale_unit m) (pu_unit (mp_unit m)) = Inr r
         \<and> PoolUnit_ticks_for (mp_unit m) r = Inr (mp_per_sale_ticks m))
     \<and> mp_per_sale_ticks m \<noteq> StockTicks_ZERO"

lemma base_factor_pos [simp]: "0 < base_factor u"
  by (cases u) simp_all

lemma ticks_base_inject: "ticks_base u s = ticks_base u t \<Longrightarrow> s = t"
  by (cases s; cases t) (simp add: ticks_base_def less_imp_neq [OF base_factor_pos, symmetric])

lemma ticks_base_zero: "ticks_base u t = 0 \<longleftrightarrow> t = StockTicks_ZERO"
  by (simp add: ticks_base_def ticks_eq_ZERO less_imp_neq [OF base_factor_pos, symmetric])

lemma base_value_zero: "base_value q = 0 \<longleftrightarrow> Decimal_is_zero (qty_amount q)"
  by (simp add: base_value_def micros_def Decimal_is_zero_def
      less_imp_neq [OF base_factor_pos, symmetric])

lemma convert_ticks:
  assumes q: "wf_Quantity q" and u: "wf_PoolUnit u"
    and r: "Quantity_convert q (pu_unit u) = Inr r" and t: "PoolUnit_ticks_for u r = Inr t"
  shows "ticks_base u t = base_value q" and "wf_Ticks t"
    and "dimension_of (pu_unit u) = dimension_of (qty_unit q)"
proof -
  note conv = convert_exact_Inr [OF q r]
  then have wr: "wf_Quantity r" and unit: "qty_unit r = pu_unit u" by simp_all
  from t have "micros (qty_amount r) = ticks_get t * 10 ^ (6 - pu_scale u)"
    by (simp add: ticks_for_Inr [OF wr u])
  with conv unit show "ticks_base u t = base_value q"
    by (simp add: ticks_base_def base_value_def [of r, symmetric] base_value_def [of r])
  show "wf_Ticks t" by (rule ticks_for_wf [OF wr u t])
  show "dimension_of (pu_unit u) = dimension_of (qty_unit q)" using conv by simp
qed

lemma OptionPoolMapping_new_Inr:
  assumes q: "wf_Quantity q" and u: "wf_PoolUnit u"
  shows "OptionPoolMapping_new k p u q v = Inr m \<longleftrightarrow>
    wf_Mapping m \<and> mp_key m = k \<and> mp_pool m = p \<and> mp_unit m = u \<and> mp_per_sale_unit m = q
    \<and> mp_version m = v"
  (is "?l \<longleftrightarrow> ?r")
proof
  assume ?l
  then show ?r using assms
    by (auto simp: OptionPoolMapping_new_def wf_Mapping_def result_simps)
next
  assume ?r
  then obtain r where r: "Quantity_convert q (pu_unit u) = Inr r"
    and t: "PoolUnit_ticks_for u r = Inr (mp_per_sale_ticks m)"
    and pos: "mp_per_sale_ticks m \<noteq> StockTicks_ZERO"
    by (auto simp: wf_Mapping_def)
  have "\<not> Decimal_is_zero (qty_amount q)"
    using convert_ticks(1) [OF q u r t] pos by (metis base_value_zero ticks_base_zero)
  with r t pos \<open>?r\<close> show ?l
    by (cases m) (auto simp: OptionPoolMapping_new_def wf_Mapping_def)
qed

lemma wf_Mapping_facts:
  assumes "wf_Mapping m"
  shows "ticks_base (mp_unit m) (mp_per_sale_ticks m) = base_value (mp_per_sale_unit m)"
    and "wf_Ticks (mp_per_sale_ticks m)" and "wf_PoolUnit (mp_unit m)"
  using assms convert_ticks by (auto simp: wf_Mapping_def)

lemma OptionPoolMapping_deserialize_Inr:
  assumes "wf_Quantity (mw_per_sale_unit w)" and "wf_PoolUnit (mw_pool_unit w)"
  shows "OptionPoolMapping_deserialize w = Inr m \<longleftrightarrow>
    wf_Mapping m \<and> OptionPoolMapping_serialize m = w"
  using assms
  by (cases w; cases m; cases "mp_key m")
    (auto simp: OptionPoolMapping_deserialize_def OptionPoolMapping_serialize_def result_simps
      OptionPoolMapping_new_Inr)

section \<open>Draws\<close>

lemma draw_numerator_bound:
  assumes "wf_Ticks t" and "wf_Decimal d"
  shows "ticks_get t * coefficient d < 2 ^ 128"
proof -
  have "ticks_get t * coefficient d \<le> MAX_TICKS * MAX_COEFFICIENT"
    using assms by (intro mult_le_mono) (auto simp: wf_Ticks_def wf_Decimal_def)
  then show ?thesis by (simp add: MAX_TICKS_def MAX_COEFFICIENT_def)
qed

lemma draw_for_sales_spec:
  assumes m: "wf_Ticks (mp_per_sale_ticks m)" and s: "wf_Decimal (pd_amount sales)"
  defines "n \<equiv> ticks_get (mp_per_sale_ticks m) * coefficient (pd_amount sales)"
    and "d \<equiv> 10 ^ scale (pd_amount sales)"
  shows "draw_for_sales m sales =
    (if \<not> d dvd n then Inl (MappingStock PrecisionLoss)
     else if MAX_TICKS < n div d then Inl (MappingStock OutOfRange)
     else Inr (StockTicks (n div d)))"
proof -
  have "(10 :: nat) ^ scale (pd_amount sales) \<le> 10 ^ 6"
    using s by (intro power_increasing) (auto simp: wf_Decimal_def MAX_SCALE_def)
  then have "pow_u 128 10 (scale (pd_amount sales)) = d" by (simp add: pow_u_def d_def)
  moreover have "checked_mul_u 128 (ticks_get (mp_per_sale_ticks m)) (coefficient (pd_amount sales)) = Some n"
    using draw_numerator_bound [OF m s] by (simp add: checked_mul_u_def fits_u_def n_def)
  ultimately show ?thesis
    by (auto simp: draw_for_sales_def fits_u_def StockTicks_new_def MAX_TICKS_def)
qed

text \<open>Division by the sale amount's scale is the same as scaling to millionths.\<close>

lemma micros_scaled:
  assumes "wf_Decimal d"
  shows "t * 10 ^ 6 = n * micros d \<longleftrightarrow> t * 10 ^ scale d = n * coefficient d"
proof -
  have "scale d \<le> 6" using assms by (simp add: wf_Decimal_def MAX_SCALE_def)
  then have "(10 :: nat) ^ 6 = 10 ^ scale d * 10 ^ (6 - scale d)"
    by (simp only: power_add [symmetric]) simp
  then have "t * 10 ^ 6 = n * micros d \<longleftrightarrow>
      (t * 10 ^ scale d) * 10 ^ (6 - scale d) = (n * coefficient d) * 10 ^ (6 - scale d)"
    by (simp only: micros_def mult.assoc)
  then show ?thesis by simp
qed

lemma draw_for_sales_Inr:
  assumes m: "wf_Ticks (mp_per_sale_ticks m)" and s: "wf_Decimal (pd_amount sales)"
  shows "draw_for_sales m sales = Inr t \<longleftrightarrow>
    wf_Ticks t \<and> ticks_get t * 10 ^ 6 = ticks_get (mp_per_sale_ticks m) * micros (pd_amount sales)"
proof -
  have "ticks_get t * 10 ^ scale (pd_amount sales) =
      ticks_get (mp_per_sale_ticks m) * coefficient (pd_amount sales)
    \<longleftrightarrow> 10 ^ scale (pd_amount sales) dvd
        ticks_get (mp_per_sale_ticks m) * coefficient (pd_amount sales)
      \<and> ticks_get t = ticks_get (mp_per_sale_ticks m) * coefficient (pd_amount sales)
        div 10 ^ scale (pd_amount sales)"
    by (metis dvd_div_mult_self dvd_triv_right nonzero_mult_div_cancel_right power_not_zero
        zero_neq_numeral)
  then show ?thesis
    unfolding micros_scaled [OF s] draw_for_sales_spec [OF m s]
    by (cases t) (auto simp: wf_Ticks_def)
qed

lemma draw_for_sales_value:
  assumes wf: "wf_Mapping m" and s: "wf_Decimal (pd_amount sales)"
  shows "draw_for_sales m sales = Inr t \<longleftrightarrow>
    wf_Ticks t \<and> ticks_base (mp_unit m) t * 10 ^ 6 =
      base_value (mp_per_sale_unit m) * micros (pd_amount sales)"
proof -
  note facts = wf_Mapping_facts [OF wf]
  let ?f = "base_factor (pu_unit (mp_unit m)) * 10 ^ (6 - pu_scale (mp_unit m))"
  have "ticks_base (mp_unit m) t * 10 ^ 6 = base_value (mp_per_sale_unit m) * micros (pd_amount sales) \<longleftrightarrow>
      ?f * (ticks_get t * 10 ^ 6) = ?f * (ticks_get (mp_per_sale_ticks m) * micros (pd_amount sales))"
    unfolding facts(1) [symmetric] ticks_base_def by (simp only: ac_simps)
  also have "\<dots> \<longleftrightarrow> ticks_get t * 10 ^ 6 = ticks_get (mp_per_sale_ticks m) * micros (pd_amount sales)"
    using base_factor_pos [of "pu_unit (mp_unit m)"] by (simp del: base_factor_pos)
  finally show ?thesis by (simp add: draw_for_sales_Inr [OF facts(2) s])
qed

section \<open>Properties\<close>

text \<open>C28: a mapping admitted for a positive version and a nonzero quantity draws, for a
  purchase, exactly its declared quantity times the purchased amount as physical value. It
  succeeds precisely when that value is a whole number of pool ticks within the tick bound;
  otherwise it reports the loss of precision or the excess, never a rounded draw.\<close>

theorem mapping_draw_exact:
  assumes "wf_Quantity q" and "wf_PoolUnit u" and "wf_PositiveDecimal sales"
    and "OptionPoolMapping_new k p u q v = Inr m"
  shows "(draw_for_sales m sales = Inr t \<longleftrightarrow>
      wf_Ticks t \<and> ticks_base u t * 10 ^ 6 = base_value q * micros (pd_amount sales))
    \<and> (\<forall>e. draw_for_sales m sales = Inl e \<longrightarrow>
      e = MappingStock PrecisionLoss \<or> e = MappingStock OutOfRange)"
proof -
  from assms have wf: "wf_Mapping m" and m: "mp_unit m = u" "mp_per_sale_unit m = q"
    by (simp_all add: OptionPoolMapping_new_Inr)
  have s: "wf_Decimal (pd_amount sales)" using assms(3) by (simp add: wf_PositiveDecimal_def)
  have "wf_Ticks (mp_per_sale_ticks m)" by (rule wf_Mapping_facts(2) [OF wf])
  then show ?thesis
    using draw_for_sales_value [OF wf s, unfolded m]
    by (simp add: draw_for_sales_spec [OF _ s])
qed

definition sample_mapping_key :: OptionMappingKey where
  "sample_mapping_key =
     \<lparr>mk_listing = \<lparr>co_author = from_bytes (replicate 32 2), co_d = ListingId (replicate 16 3)\<rparr>,
      mk_option = from_bytes (replicate 32 1)\<rparr>"

definition sample_mapping :: OptionPoolMapping where
  "sample_mapping = \<lparr>mp_key = sample_mapping_key, mp_pool = from_bytes (replicate 32 7),
     mp_unit = sample_unit, mp_per_sale_unit = sample_weight, mp_per_sale_ticks = StockTicks 2500,
     mp_version = Sequence 1\<rparr>"

lemma sample_mapping_new:
  "OptionPoolMapping_new sample_mapping_key (from_bytes (replicate 32 7)) sample_unit sample_weight
     (Sequence 1) = Inr sample_mapping"
  by code_simp

lemma sample_quantities: "wf_Quantity sample_weight" "wf_PoolUnit sample_unit"
  by code_simp+

theorem mapping_draw_exact_witness:
  "draw_for_sales sample_mapping (PositiveDecimal \<lparr>coefficient = 15, scale = 1\<rparr>) = Inr (StockTicks 3750)"
proof -
  have "wf_PositiveDecimal (PositiveDecimal \<lparr>coefficient = 15, scale = 1\<rparr>)" by code_simp
  moreover have "wf_Ticks (StockTicks 3750) \<and> ticks_base sample_unit (StockTicks 3750) * 10 ^ 6 =
      base_value sample_weight * micros (pd_amount (PositiveDecimal \<lparr>coefficient = 15, scale = 1\<rparr>))"
    by code_simp
  ultimately show ?thesis
    using mapping_draw_exact [OF sample_quantities _ sample_mapping_new] by blast
qed

text \<open>The wire object of a mapping carries its derived ticks redundantly, and decoding
  accepts exactly the objects that encode an admitted mapping: altered ticks, a zero version or
  a zero draw are refused, and decoding inverts encoding.\<close>

theorem mapping_wire_canonical:
  assumes "wf_Quantity (mw_per_sale_unit w)" and "wf_PoolUnit (mw_pool_unit w)"
  shows "OptionPoolMapping_deserialize w = Inr m \<longleftrightarrow>
    wf_Mapping m \<and> OptionPoolMapping_serialize m = w"
  by (rule OptionPoolMapping_deserialize_Inr [OF assms])

theorem mapping_wire_canonical_witness:
  "OptionPoolMapping_deserialize (OptionPoolMapping_serialize sample_mapping) = Inr sample_mapping
   \<and> OptionPoolMapping_deserialize
       ((OptionPoolMapping_serialize sample_mapping)\<lparr>mw_per_sale_ticks := StockTicks 2501\<rparr>)
     \<noteq> Inr sample_mapping"
proof -
  have fields: "mw_per_sale_unit (OptionPoolMapping_serialize sample_mapping) = sample_weight"
    "mw_pool_unit (OptionPoolMapping_serialize sample_mapping) = sample_unit"
    by (simp_all add: OptionPoolMapping_serialize_def sample_mapping_def)
  have "wf_Mapping sample_mapping"
    using sample_mapping_new by (simp add: OptionPoolMapping_new_Inr sample_quantities)
  then show ?thesis
    using mapping_wire_canonical [of "OptionPoolMapping_serialize sample_mapping" sample_mapping]
      mapping_wire_canonical [of "(OptionPoolMapping_serialize sample_mapping)
        \<lparr>mw_per_sale_ticks := StockTicks 2501\<rparr>" sample_mapping]
    by (simp add: fields sample_quantities)
      (simp add: OptionPoolMapping_serialize_def sample_mapping_def)
qed

end
