(* ===== verification/Agreement.thy ===== *)
theory Agreement
  imports Listing
begin

text \<open>
  Bilateral terms of \<open>crates/domain/src/agreement.rs\<close> with the private fulfillment data of
  \<open>fulfillment.rs\<close>: agreed prices, agreement lines recomputed from their price, and complete
  terms with their cross-references and totals.
\<close>

section \<open>Private fulfillment\<close>

datatype FulfillmentError = FulfillmentInvalidText

definition fulfillment_text :: "string \<Rightarrow> nat \<Rightarrow> FulfillmentError + unit" where
  "fulfillment_text v maximum =
     (if maximum * 4 < length v \<or> maximum < chars_count v then Inl FulfillmentInvalidText else Inr ())"

record PrivateFulfillment =
  prf_mode :: FulfillmentMode
  prf_window :: Window
  prf_address :: string
  prf_instructions :: string
  prf_contact :: "string option"

definition PrivateFulfillment_new ::
  "FulfillmentMode \<Rightarrow> Window \<Rightarrow> string \<Rightarrow> string \<Rightarrow> string option
    \<Rightarrow> FulfillmentError + PrivateFulfillment" where
  "PrivateFulfillment_new mode window address instructions contact =
     bindE (fulfillment_text address 2048) (\<lambda>_.
     bindE (fulfillment_text instructions 2048) (\<lambda>_.
     bindE (case contact of None \<Rightarrow> Inr () | Some c \<Rightarrow> fulfillment_text c 256) (\<lambda>_.
       Inr \<lparr>prf_mode = mode, prf_window = window, prf_address = address,
            prf_instructions = instructions, prf_contact = contact\<rparr>)))"

section \<open>Agreed prices\<close>

datatype TermsError =
    PartiesCoincide
  | InvalidLineCount
  | InvalidFulfillmentCount
  | DuplicateLine
  | DuplicateFulfillment
  | UnknownFulfillment
  | OptionMismatch
  | SellerMismatch
  | InvalidText
  | InvalidSelectedTier
  | TotalMismatch
  | Purchase ListingError
  | TermsPricing PricingError

definition terms_text :: "string \<Rightarrow> nat \<Rightarrow> bool \<Rightarrow> TermsError + unit" where
  "terms_text v maximum nonempty =
     (if (nonempty \<and> v = []) \<or> maximum * 4 < length v \<or> maximum < chars_count v
      then Inl InvalidText else Inr ())"

record AgreedFixedPrice =
  af_rate :: Money
  af_basis :: PositiveDecimal
  af_discount_bps :: DiscountBps
  af_selected_tier_from :: "Decimal option"

definition AgreedFixedPrice_from_line :: "LinePrice \<Rightarrow> AgreedFixedPrice" where
  "AgreedFixedPrice_from_line v =
     \<lparr>af_rate = lp_rate v, af_basis = lp_basis v, af_discount_bps = lp_discount_bps v,
      af_selected_tier_from = lp_selected_tier_from v\<rparr>"

definition AgreedFixedPrice_total :: "AgreedFixedPrice \<Rightarrow> PositiveDecimal \<Rightarrow> TermsError + Money" where
  "AgreedFixedPrice_total p amount =
     (if (case af_selected_tier_from p of
            None \<Rightarrow> False
          | Some threshold \<Rightarrow> Decimal_lt (pd_amount amount) threshold)
      then Inl InvalidSelectedTier
      else bindE (map_err TermsPricing
          (net_line_minor (money_minor (af_rate p)) amount (af_basis p) (af_discount_bps p)))
        (\<lambda>minor. Inr (Money_new (money_currency (af_rate p)) minor)))"

datatype AgreementPrice = AgreementFixed AgreedFixedPrice | AgreementVariable VariableWeight

fun AgreementPrice_maximum_total :: "AgreementPrice \<Rightarrow> PositiveDecimal \<Rightarrow> TermsError + Money" where
  "AgreementPrice_maximum_total (AgreementFixed v) amount = AgreedFixedPrice_total v amount"
| "AgreementPrice_maximum_total (AgreementVariable v) amount = Inr (vw_maximum_total v)"

section \<open>Lines, groups, terms\<close>

record AgreementLine =
  al_id :: AgreementLineId
  al_source :: ListingRevision
  al_product :: Product
  al_option :: ListingOption
  al_amount :: PositiveDecimal
  al_fulfillment_group :: FulfillmentGroupId
  al_source_lot_label :: "string option"
  al_price :: AgreementPrice
  al_maximum_line_total :: Money

definition AgreementLine_new ::
  "AgreementLineId \<Rightarrow> ListingRevision \<Rightarrow> ListingOptionId \<Rightarrow> Product \<Rightarrow> ListingOption \<Rightarrow> PositiveDecimal
    \<Rightarrow> FulfillmentGroupId \<Rightarrow> string option \<Rightarrow> AgreementPrice \<Rightarrow> Money \<Rightarrow> TermsError + AgreementLine" where
  "AgreementLine_new lid source option_id goods opt amount fulfillment_group source_lot_label price maximum_line_total =
     (if option_id \<noteq> op_id opt then Inl OptionMismatch
      else bindE (map_err Purchase (ListingOption_validate_amount opt amount)) (\<lambda>_.
       bindE (case source_lot_label of None \<Rightarrow> Inr () | Some label \<Rightarrow> terms_text label 120 False) (\<lambda>_.
       bindE (AgreementPrice_maximum_total price amount) (\<lambda>total.
         if total \<noteq> maximum_line_total then Inl TotalMismatch
         else Inr \<lparr>al_id = lid, al_source = source, al_product = goods, al_option = opt,
                   al_amount = amount, al_fulfillment_group = fulfillment_group,
                   al_source_lot_label = source_lot_label, al_price = price,
                   al_maximum_line_total = maximum_line_total\<rparr>))))"

record FulfillmentGroup =
  fg_id :: FulfillmentGroupId
  fg_terms :: PrivateFulfillment

record FuturePromise =
  fu_expected_window :: Window
  fu_risk_disclosure :: string

definition FuturePromise_new :: "Window \<Rightarrow> string \<Rightarrow> TermsError + FuturePromise" where
  "FuturePromise_new expected_window risk_disclosure =
     bindE (terms_text risk_disclosure 512 True) (\<lambda>_.
       Inr \<lparr>fu_expected_window = expected_window, fu_risk_disclosure = risk_disclosure\<rparr>)"

datatype SupplyCommitment = StockBacked | FuturePromised FuturePromise

definition MAX_FULFILLMENT_GROUPS :: nat where
  "MAX_FULFILLMENT_GROUPS = 8"

record Terms =
  tm_buyer :: PublicKey
  tm_seller :: PublicKey
  tm_lines :: "AgreementLine list"
  tm_fulfillment :: "FulfillmentGroup list"
  tm_fulfillment_charge :: Money
  tm_maximum_total :: Money
  tm_supply :: SupplyCommitment

text \<open>The loop over the lines; the third argument is \<open>lines[..index]\<close>.\<close>

fun check_lines ::
  "PublicKey \<Rightarrow> FulfillmentGroup list \<Rightarrow> AgreementLine list \<Rightarrow> AgreementLine list \<Rightarrow> TermsError + unit" where
  "check_lines seller groups seen [] = Inr ()"
| "check_lines seller groups seen (line # rest) =
     (if \<exists>prior\<in>set seen. al_id prior = al_id line then Inl DuplicateLine
      else if co_author (rev_coordinate (al_source line)) \<noteq> seller then Inl SellerMismatch
      else if \<not> (\<exists>g\<in>set groups. fg_id g = al_fulfillment_group line) then Inl UnknownFulfillment
      else check_lines seller groups (seen @ [line]) rest)"

definition Terms_new ::
  "PublicKey \<Rightarrow> PublicKey \<Rightarrow> AgreementLine list \<Rightarrow> FulfillmentGroup list \<Rightarrow> Money \<Rightarrow> Money
    \<Rightarrow> SupplyCommitment \<Rightarrow> TermsError + Terms" where
  "Terms_new buyer seller lines groups charge maximum_total supply =
     (if buyer = seller then Inl PartiesCoincide
      else if lines = [] \<or> MAX_PRICED_LINES < length lines then Inl InvalidLineCount
      else if groups = [] \<or> MAX_FULFILLMENT_GROUPS < length groups then Inl InvalidFulfillmentCount
      else if has_duplicate fg_id groups then Inl DuplicateFulfillment
      else bindE (check_lines seller groups [] lines) (\<lambda>_.
       bindE (map_err TermsPricing (checked_order_total (map al_maximum_line_total lines) charge))
        (\<lambda>recomputed.
         if recomputed \<noteq> maximum_total then Inl TotalMismatch
         else Inr \<lparr>tm_buyer = buyer, tm_seller = seller, tm_lines = lines, tm_fulfillment = groups,
                   tm_fulfillment_charge = charge, tm_maximum_total = maximum_total,
                   tm_supply = supply\<rparr>)))"

section \<open>Laws\<close>

lemma check_lines_Inr:
  "check_lines seller groups seen ls = Inr () \<longleftrightarrow>
    distinct (map al_id ls) \<and> al_id ` set seen \<inter> al_id ` set ls = {}
    \<and> (\<forall>l\<in>set ls. co_author (rev_coordinate (al_source l)) = seller
        \<and> al_fulfillment_group l \<in> fg_id ` set groups)"
proof (induction seller groups seen ls rule: check_lines.induct)
  case (1 seller groups seen)
  then show ?case by simp
next
  case (2 seller groups seen line rest)
  show ?case
  proof (cases "(\<exists>prior\<in>set seen. al_id prior = al_id line)
      \<or> co_author (rev_coordinate (al_source line)) \<noteq> seller
      \<or> \<not> (\<exists>g\<in>set groups. fg_id g = al_fulfillment_group line)")
    case True
    then show ?thesis by (auto simp: image_iff) metis
  next
    case False
    then have step: "check_lines seller groups seen (line # rest) =
        check_lines seller groups (seen @ [line]) rest" by auto
    have IH: "check_lines seller groups (seen @ [line]) rest = Inr () \<longleftrightarrow>
        distinct (map al_id rest) \<and> al_id ` set (seen @ [line]) \<inter> al_id ` set rest = {}
        \<and> (\<forall>l\<in>set rest. co_author (rev_coordinate (al_source l)) = seller
            \<and> al_fulfillment_group l \<in> fg_id ` set groups)"
      using False by (intro "2.IH") auto
    have "al_id line \<notin> al_id ` set seen" and "al_fulfillment_group line \<in> fg_id ` set groups"
      using False by force+
    with False show ?thesis unfolding step IH by auto
  qed
qed

definition wf_AgreementLine :: "AgreementLine \<Rightarrow> bool" where
  "wf_AgreementLine l \<longleftrightarrow> wf_ListingOption (al_option l) \<and> wf_PositiveDecimal (al_amount l)
     \<and> wf_Money (al_maximum_line_total l)
     \<and> ListingOption_validate_amount (al_option l) (al_amount l) = Inr ()
     \<and> AgreementPrice_maximum_total (al_price l) (al_amount l) = Inr (al_maximum_line_total l)"

lemma Terms_new_Inr:
  "Terms_new buyer seller ls groups charge maxi supply = Inr t \<longleftrightarrow>
    buyer \<noteq> seller \<and> 1 \<le> length ls \<and> length ls \<le> 32 \<and> 1 \<le> length groups \<and> length groups \<le> 8
    \<and> distinct (map fg_id groups) \<and> distinct (map al_id ls)
    \<and> (\<forall>l\<in>set ls. co_author (rev_coordinate (al_source l)) = seller
        \<and> al_fulfillment_group l \<in> fg_id ` set groups)
    \<and> checked_order_total (map al_maximum_line_total ls) charge = Inr maxi
    \<and> t = \<lparr>tm_buyer = buyer, tm_seller = seller, tm_lines = ls, tm_fulfillment = groups,
           tm_fulfillment_charge = charge, tm_maximum_total = maxi, tm_supply = supply\<rparr>"
  by (auto simp: Terms_new_def result_simps check_lines_Inr MAX_PRICED_LINES_def
      MAX_FULFILLMENT_GROUPS_def Suc_le_eq)

lemma AgreementLine_new_Inr:
  "AgreementLine_new lid src oid goods opt a grp lot price tot = Inr l \<longleftrightarrow>
    oid = op_id opt \<and> ListingOption_validate_amount opt a = Inr ()
    \<and> (\<forall>label. lot = Some label \<longrightarrow> terms_text label 120 False = Inr ())
    \<and> AgreementPrice_maximum_total price a = Inr tot
    \<and> l = \<lparr>al_id = lid, al_source = src, al_product = goods, al_option = opt, al_amount = a,
           al_fulfillment_group = grp, al_source_lot_label = lot, al_price = price,
           al_maximum_line_total = tot\<rparr>"
  by (auto simp: AgreementLine_new_def result_simps split: option.splits)

section \<open>Sample values\<close>

text \<open>A listing option at 4.00 per piece and an agreement on three pieces, used by witnesses.\<close>

definition sample_pieces :: "nat \<Rightarrow> PositiveDecimal" where
  "sample_pieces n = PositiveDecimal \<lparr>coefficient = n, scale = 0\<rparr>"

definition sample_option :: ListingOption where
  "sample_option = \<lparr>op_id = from_bytes (replicate 32 1), op_label = ''eggs'', op_unit = Measured Each,
     op_increment = sample_pieces 1, op_minimum = sample_pieces 2,
     op_price = PriceFixed \<lparr>fp_rate = Money_new usd (MinorAmount 400), fp_basis = sample_pieces 1,
       fp_discount_bps = DiscountBps 0, fp_tiers = []\<rparr>,
     op_supply = UnknownSupply, op_lead_seconds = LeadSeconds (Sequence 0)\<rparr>"

definition sample_key :: "8 word \<Rightarrow> PublicKey" where
  "sample_key b = from_bytes (replicate 32 b)"

definition sample_source :: ListingRevision where
  "sample_source = \<lparr>rev_coordinate = \<lparr>co_author = sample_key 2, co_d = ListingId (replicate 16 3)\<rparr>,
     rev_event_id = from_bytes (replicate 32 4)\<rparr>"

definition sample_line :: AgreementLine where
  "sample_line = \<lparr>al_id = from_bytes (replicate 32 5), al_source = sample_source,
     al_product = \<lparr>pr_name = ''eggs'', pr_description = [], pr_producer = None, pr_origin_summary = None\<rparr>,
     al_option = sample_option, al_amount = sample_pieces 3,
     al_fulfillment_group = from_bytes (replicate 32 6), al_source_lot_label = None,
     al_price = AgreementFixed \<lparr>af_rate = Money_new usd (MinorAmount 400), af_basis = sample_pieces 1,
       af_discount_bps = DiscountBps 0, af_selected_tier_from = None\<rparr>,
     al_maximum_line_total = Money_new usd (MinorAmount 1200)\<rparr>"

definition sample_group :: FulfillmentGroup where
  "sample_group = \<lparr>fg_id = from_bytes (replicate 32 6),
     fg_terms = \<lparr>prf_mode = Pickup,
       prf_window = \<lparr>win_start = UnixSeconds 1000, win_end = UnixSeconds 2000, win_timezone = TimeZoneId ''UTC''\<rparr>,
       prf_address = [], prf_instructions = [], prf_contact = None\<rparr>\<rparr>"

lemma sample_money: "n \<le> 1200 \<Longrightarrow> wf_Money (Money_new usd (MinorAmount n))"
  by (simp add: wf_Money_def Money_new_def wf_MinorAmount_def MAX_MINOR_def wf_usd)

lemma sample_pieces_wf: "0 < n \<Longrightarrow> n \<le> 1000 \<Longrightarrow> wf_PositiveDecimal (sample_pieces n)"
  by (simp add: sample_pieces_def wf_PositiveDecimal_def wf_Decimal_def MAX_COEFFICIENT_def)

lemma sample_option_wf: "wf_ListingOption sample_option"
  by (simp add: sample_option_def wf_ListingOption_def wf_FixedPrice_def sample_pieces_wf sample_money
      wf_DiscountBps_def) (simp add: sample_pieces_def micros_def)

lemma sample_net:
  "net_line_minor (MinorAmount 400) (sample_pieces 3) (sample_pieces 1) (DiscountBps 0) = Inr (MinorAmount 1200)"
  using sample_pieces_wf [of 3] sample_pieces_wf [of 1]
  by (subst net_line_minor_spec)
    (simp_all add: wf_MinorAmount_def wf_DiscountBps_def line_eval sample_pieces_def)

lemma sample_valid: "ListingOption_validate_amount sample_option (sample_pieces 3) = Inr ()"
  using validate_amount_iff [OF sample_option_wf sample_pieces_wf [of 3]]
  by (simp add: sample_option_def sample_pieces_def micros_def)

section \<open>Properties\<close>

text \<open>C25: complete terms are admitted exactly for two distinct parties, one to thirty-two
  lines with distinct identities that all name the seller as listing author and refer to a
  declared group, one to eight distinct groups, and a declared maximum that equals the exact
  sum of the line maxima and the fulfillment charge in one currency.\<close>

theorem Terms_new_exact:
  assumes "wf_Money charge" and "\<forall>l\<in>set ls. wf_Money (al_maximum_line_total l)"
  shows "(\<exists>t. Terms_new buyer seller ls groups charge maxi supply = Inr t) \<longleftrightarrow>
    buyer \<noteq> seller \<and> 1 \<le> length ls \<and> length ls \<le> 32 \<and> 1 \<le> length groups \<and> length groups \<le> 8
    \<and> distinct (map fg_id groups) \<and> distinct (map al_id ls)
    \<and> (\<forall>l\<in>set ls. co_author (rev_coordinate (al_source l)) = seller
        \<and> al_fulfillment_group l \<in> fg_id ` set groups)
    \<and> (\<forall>l\<in>set ls. money_currency (al_maximum_line_total l) = money_currency charge)
    \<and> money_currency maxi = money_currency charge \<and> money_value maxi \<le> MAX_MINOR
    \<and> money_value maxi = money_value charge + (\<Sum>l\<leftarrow>ls. money_value (al_maximum_line_total l))"
proof -
  let ?totals = "map al_maximum_line_total ls"
  have wf: "\<forall>m\<in>set ?totals. wf_Money m" using assms(2) by simp
  have "checked_order_total ?totals charge = Inr maxi \<longleftrightarrow>
      1 \<le> length ls \<and> length ls \<le> 32
      \<and> (\<forall>l\<in>set ls. money_currency (al_maximum_line_total l) = money_currency charge)
      \<and> money_currency maxi = money_currency charge \<and> money_value maxi \<le> MAX_MINOR
      \<and> money_value maxi = money_value charge + (\<Sum>l\<leftarrow>ls. money_value (al_maximum_line_total l))"
    (is "?l \<longleftrightarrow> ?r")
  proof (cases "checked_order_total ?totals charge")
    case (Inl e)
    with checked_order_total_spec [OF assms(1) wf] show ?thesis
      by (auto simp: comp_def split: if_splits)
  next
    case (Inr m)
    have m: "1 \<le> length ls" "length ls \<le> 32" "wf_Money m"
      "\<forall>l\<in>set ls. money_currency (al_maximum_line_total l) = money_currency charge"
      "money_currency m = money_currency charge"
      "money_value m = money_value charge + (\<Sum>l\<leftarrow>ls. money_value (al_maximum_line_total l))"
      using checked_order_total_spec [OF assms(1) wf] Inr by (auto simp: comp_def)
    have le: "money_value m \<le> MAX_MINOR" using m(3) by (simp add: wf_Money_def wf_MinorAmount_def)
    have eq: "m = maxi" if "money_currency m = money_currency maxi" "money_value m = money_value maxi"
      using that by (cases m; cases maxi) (simp add: MinorAmount.expand)
    show ?thesis
    proof
      assume ?l
      with Inr have "maxi = m" by simp
      with m le show ?r by simp
    next
      assume r: ?r
      have "m = maxi" by (rule eq) (simp_all only: m(5,6) r)
      with Inr show ?l by simp
    qed
  qed
  then show ?thesis by (auto simp: Terms_new_Inr)
qed

theorem Terms_new_exact_witness:
  "\<exists>t. Terms_new (sample_key 1) (sample_key 2) [sample_line] [sample_group]
    (Money_new usd (MinorAmount 0)) (Money_new usd (MinorAmount 1200)) StockBacked = Inr t"
proof -
  have "wf_Money (Money_new usd (MinorAmount 0))" by (rule sample_money) simp
  moreover have "\<forall>l\<in>set [sample_line]. wf_Money (al_maximum_line_total l)"
    by (simp add: sample_line_def sample_money)
  moreover have "sample_key 1 \<noteq> sample_key 2" by (simp add: sample_key_def from_bytes_def)
  ultimately show ?thesis
    by (subst Terms_new_exact)
      (simp_all add: sample_line_def sample_group_def sample_source_def Money_new_def MAX_MINOR_def)
qed

text \<open>C36: a line priced by its own listing option can be agreed as priced: if the option's
  fixed price gives a line price for the amount, the agreement line built from the retained
  rate, basis, discount and threshold is admitted with that total, and with no other.\<close>

theorem quoted_line_agreeable:
  assumes opt: "wf_ListingOption opt" and a: "wf_PositiveDecimal a"
    and quote: "ListingOption_fixed_line opt a = Inr lp"
  shows "(\<exists>l. AgreementLine_new lid src (op_id opt) goods opt a grp None
        (AgreementFixed (AgreedFixedPrice_from_line lp)) tot = Inr l) \<longleftrightarrow> tot = lp_total lp"
proof -
  obtain p where p: "op_price opt = PriceFixed p" and valid: "ListingOption_validate_amount opt a = Inr ()"
    and line: "FixedPrice_line p a = Inr lp"
    using quote by (auto simp: ListingOption_fixed_line_def result_simps split: Price.splits)
  have wp: "wf_FixedPrice p" using opt p by (simp add: wf_ListingOption_def)
  have basis: "lp_basis lp = fp_basis p" "lp_discount_bps lp = fp_discount_bps p"
    using line by (auto simp: FixedPrice_line_def Let_def result_simps)
  have sel: "(case lp_selected_tier_from lp of None \<Rightarrow> False
      | Some threshold \<Rightarrow> Decimal_lt (pd_amount a) threshold) = False"
    and net: "net_line_minor (money_minor (lp_rate lp)) a (fp_basis p) (fp_discount_bps p) =
      Inr (money_minor (lp_total lp))"
    and cur: "money_currency (lp_total lp) = money_currency (lp_rate lp)"
    using FixedPrice_line_facts [OF wp a line] a by (auto split: option.splits)
  have "AgreedFixedPrice_total (AgreedFixedPrice_from_line lp) a = Inr (lp_total lp)"
    using sel net cur by (simp add: AgreedFixedPrice_total_def AgreedFixedPrice_from_line_def basis
        Money_new_def)
  then show ?thesis using valid by (auto simp: AgreementLine_new_Inr)
qed

theorem quoted_line_agreeable_witness:
  "\<exists>lp l. ListingOption_fixed_line sample_option (sample_pieces 3) = Inr lp
    \<and> AgreementLine_new (from_bytes (replicate 32 5)) sample_source (op_id sample_option)
        (al_product sample_line) sample_option (sample_pieces 3) (fg_id sample_group) None
        (AgreementFixed (AgreedFixedPrice_from_line lp)) (lp_total lp) = Inr l
    \<and> money_value (lp_total lp) = 1200"
proof -
  obtain lp where lp: "ListingOption_fixed_line sample_option (sample_pieces 3) = Inr lp"
    and total: "lp_total lp = Money_new usd (MinorAmount 1200)"
    using sample_valid sample_net
    by (auto simp: ListingOption_fixed_line_def sample_option_def FixedPrice_line_def Money_new_def)
  from quoted_line_agreeable [OF sample_option_wf sample_pieces_wf lp] lp total
  show ?thesis by (simp add: Money_new_def)
qed

end
