(* ===== verification/Allocation.thy ===== *)
theory Allocation
  imports Option_Mapping Stock_Wire Agreement "HOL-Library.Product_Lexorder" "HOL-Library.Multiset"
begin

text \<open>
  Complete stock allocation of \<open>crates/domain/src/stock/allocation.rs\<close>: claims, draws, hold
  proposals, the resolution of agreed terms into draws on observed pools, and the plan of
  holds that would acquire them.
\<close>

section \<open>Claims, draws and holds\<close>

datatype AllocationPlanError = InvalidInput | StaleState | Unsupported | Capacity

record AllocationClaim =
  ac_line :: AgreementLineId
  ac_pool :: PoolId
  ac_quantity :: Quantity
  ac_expected :: Sequence

definition AllocationClaim_new ::
  "AgreementLineId \<Rightarrow> PoolId \<Rightarrow> Quantity \<Rightarrow> Sequence \<Rightarrow> AllocationPlanError + AllocationClaim" where
  "AllocationClaim_new line pool quantity ex =
     (if Decimal_is_zero (qty_amount quantity) \<or> sequence_get ex = 0 then Inl InvalidInput
      else Inr \<lparr>ac_line = line, ac_pool = pool, ac_quantity = quantity, ac_expected = ex\<rparr>)"

record StockAllocation =
  sa_line :: AgreementLineId
  sa_pool :: PoolId
  sa_ticks :: StockTicks

definition StockAllocation_new ::
  "AgreementLineId \<Rightarrow> PoolId \<Rightarrow> StockTicks \<Rightarrow> AllocationPlanError + StockAllocation" where
  "StockAllocation_new line pool ticks =
     (if ticks = StockTicks_ZERO then Inl InvalidInput
      else Inr \<lparr>sa_line = line, sa_pool = pool, sa_ticks = ticks\<rparr>)"

record PoolHoldProposal =
  hp_before :: PoolSnapshot
  hp_after :: PoolSnapshot
  hp_quantity :: StockTicks

definition PoolHoldProposal_new :: "PoolSnapshot \<Rightarrow> StockTicks \<Rightarrow> AllocationPlanError + PoolHoldProposal" where
  "PoolHoldProposal_new before quantity =
     (if sequence_get (ps_version before) = 0 \<or> quantity = StockTicks_ZERO then Inl InvalidInput
      else bindE (map_err (\<lambda>_. StaleState) (PoolBalances_hold_available (ps_balances before) quantity))
       (\<lambda>balances.
       bindE (ok_or Capacity (checked_add_u 64 (sequence_get (ps_version before)) 1)) (\<lambda>next_version.
       bindE (map_err (\<lambda>_. Capacity) (Sequence_new next_version)) (\<lambda>version.
         Inr \<lparr>hp_before = before,
              hp_after = \<lparr>ps_id = ps_id before, ps_unit = ps_unit before, ps_balances = balances,
                          ps_version = version\<rparr>,
              hp_quantity = quantity\<rparr>))))"

datatype HoldWireError = HoldRejected AllocationPlanError | HoldDiffers

text \<open>The closed wire objects of a draw and of a hold proposal, with decoded fields.\<close>

definition StockAllocation_deserialize ::
  "AgreementLineId \<times> PoolId \<times> StockTicks \<Rightarrow> AllocationPlanError + StockAllocation" where
  "StockAllocation_deserialize w = (case w of (line, pool, ticks) \<Rightarrow> StockAllocation_new line pool ticks)"

definition PoolHoldProposal_deserialize ::
  "PoolSnapshot \<times> PoolSnapshot \<times> StockTicks \<Rightarrow> HoldWireError + PoolHoldProposal" where
  "PoolHoldProposal_deserialize w =
     (case w of (before, after, quantity) \<Rightarrow>
        bindE (map_err HoldRejected (PoolHoldProposal_new before quantity)) (\<lambda>v.
          if hp_after v \<noteq> after then Inl HoldDiffers else Inr v))"

section \<open>Resolution\<close>

text \<open>\<open>available.insert(pool.id(), pool)\<close> over the observations, refusing repeats and version zero.\<close>

definition observe_pool ::
  "(PoolId, PoolSnapshot) btree_map \<Rightarrow> PoolSnapshot \<Rightarrow> AllocationPlanError + (PoolId, PoolSnapshot) btree_map" where
  "observe_pool m pool =
     (if sequence_get (ps_version pool) = 0 \<or> bt_get m (ps_id pool) \<noteq> None then Inl InvalidInput
      else Inr (bt_insert (ps_id pool) pool m))"

definition observe_pools :: "PoolSnapshot list \<Rightarrow> AllocationPlanError + (PoolId, PoolSnapshot) btree_map" where
  "observe_pools pools = try_fold observe_pool [] pools"

definition required_draw :: "AgreementLine \<Rightarrow> OptionPoolMapping \<Rightarrow> AllocationPlanError + StockTicks" where
  "required_draw line mapping =
     (case al_price line of
        AgreementFixed _ \<Rightarrow> map_err (\<lambda>_. InvalidInput) (draw_for_sales mapping (al_amount line))
      | AgreementVariable weight \<Rightarrow>
          bindE (map_err (\<lambda>_. InvalidInput)
            (bindE (Quantity_new (pd_amount (vw_maximum weight)) (vw_measurement_unit weight))
              (\<lambda>v. Quantity_convert v (pu_unit (mp_unit mapping))))) (\<lambda>quantity.
          map_err (\<lambda>_. InvalidInput) (PoolUnit_ticks_for (mp_unit mapping) quantity)))"

text \<open>The loop over the claims of one line; the state is \<open>covered\<close> and \<open>result\<close>.\<close>

definition claim_step ::
  "(PoolId, PoolSnapshot) btree_map \<Rightarrow> AgreementLine \<Rightarrow> OptionPoolMapping
    \<Rightarrow> StockTicks \<times> StockAllocation list \<Rightarrow> AllocationClaim
    \<Rightarrow> AllocationPlanError + StockTicks \<times> StockAllocation list" where
  "claim_step available_pools line mapping state choice =
     (case state of (covered, result) \<Rightarrow>
      bindE (ok_or StaleState (bt_get available_pools (ac_pool choice))) (\<lambda>pool.
      if ps_version pool \<noteq> ac_expected choice then Inl StaleState
      else bindE (map_err (\<lambda>_. InvalidInput)
            (Quantity_convert (ac_quantity choice) (pu_unit (mp_unit mapping)))) (\<lambda>normalized.
      bindE (map_err (\<lambda>_. InvalidInput) (PoolUnit_ticks_for (mp_unit mapping) normalized)) (\<lambda>part.
      bindE (map_err (\<lambda>_. Capacity) (StockTicks_checked_add covered part)) (\<lambda>covered.
      bindE (map_err (\<lambda>_. InvalidInput)
            (Quantity_convert (ac_quantity choice) (pu_unit (ps_unit pool)))) (\<lambda>quantity.
      bindE (map_err (\<lambda>_. InvalidInput) (PoolUnit_ticks_for (ps_unit pool) quantity)) (\<lambda>ticks.
        Inr (covered, result @ [\<lparr>sa_line = al_id line, sa_pool = ps_id pool, sa_ticks = ticks\<rparr>]))))))))"

text \<open>The body of the loop over lines and mappings.\<close>

definition line_step ::
  "(PoolId, PoolSnapshot) btree_map \<Rightarrow> AllocationClaim list option
    \<Rightarrow> StockAllocation list \<Rightarrow> AgreementLine \<times> OptionPoolMapping
    \<Rightarrow> AllocationPlanError + StockAllocation list" where
  "line_step available_pools explicit result lm =
     (case lm of (line, mapping) \<Rightarrow>
      if mp_key mapping \<noteq> \<lparr>mk_listing = rev_coordinate (al_source line), mk_option = op_id (al_option line)\<rparr>
         \<or> (case bt_get available_pools (mp_pool mapping) of None \<Rightarrow> True
            | Some pool \<Rightarrow> ps_unit pool \<noteq> mp_unit mapping)
      then Inl StaleState
      else bindE (required_draw line mapping) (\<lambda>required.
       if required = StockTicks_ZERO then Inl InvalidInput
       else case explicit of
          Some choices \<Rightarrow>
            bindE (try_fold (claim_step available_pools line mapping) (StockTicks_ZERO, result)
              (filter (\<lambda>c. ac_line c = al_id line) choices)) (\<lambda>(covered, result).
            if covered \<noteq> required then Inl InvalidInput else Inr result)
        | None \<Rightarrow>
            Inr (result @ [\<lparr>sa_line = al_id line, sa_pool = mp_pool mapping, sa_ticks = required\<rparr>])))"

definition resolve_allocations ::
  "Terms \<Rightarrow> OptionPoolMapping list \<Rightarrow> PoolSnapshot list \<Rightarrow> AllocationClaim list option
    \<Rightarrow> AllocationPlanError + StockAllocation list" where
  "resolve_allocations terms mappings pools explicit =
     (case tm_supply terms of
        FuturePromised _ \<Rightarrow>
          if explicit \<noteq> None \<or> mappings \<noteq> [] \<or> pools \<noteq> [] then Inl InvalidInput else Inr []
      | StockBacked \<Rightarrow>
          if length mappings \<noteq> length (tm_lines terms) \<or> 96 < length pools then Inl InvalidInput
          else if (case explicit of None \<Rightarrow> False
                   | Some choices \<Rightarrow> choices = [] \<or> 64 < length choices
                       \<or> has_duplicate (\<lambda>c. (ac_line c, ac_pool c)) choices)
          then Inl InvalidInput
          else bindE (observe_pools pools) (\<lambda>available_pools.
           bindE (try_fold (line_step available_pools explicit) [] (zip (tm_lines terms) mappings)) (\<lambda>result.
           if (case explicit of None \<Rightarrow> False | Some choices \<Rightarrow> length result \<noteq> length choices)
           then Inl InvalidInput
           else if result = [] \<or> 64 < length result then Inl InvalidInput
           else Inr (sort_key (\<lambda>v. (sa_pool v, sa_line v)) result))))"

section \<open>Plans\<close>

definition capacity_add :: "StockTicks \<Rightarrow> StockTicks \<Rightarrow> AllocationPlanError + StockTicks" where
  "capacity_add a b = map_err (\<lambda>_. Capacity) (StockTicks_checked_add a b)"

definition pool_totals :: "StockAllocation list \<Rightarrow> AllocationPlanError + (PoolId, StockTicks) btree_map" where
  "pool_totals result =
     try_fold (accumulate capacity_add StockTicks_ZERO) [] (map (\<lambda>a. (sa_pool a, sa_ticks a)) result)"

text \<open>
  The loop that proposes one hold per pool. Indexing a map with an absent key panics, which is
  the outcome \<open>None\<close>.
\<close>

fun hold_effects ::
  "(PoolId, PoolSnapshot) btree_map \<Rightarrow> (PoolId \<times> StockTicks) list
    \<Rightarrow> (AllocationPlanError + PoolHoldProposal list) option" where
  "hold_effects pools [] = Some (Inr [])"
| "hold_effects pools ((pid, quantity) # rest) =
     (case bt_get pools pid of
        None \<Rightarrow> None
      | Some pool \<Rightarrow>
          (case PoolHoldProposal_new pool quantity of
             Inl e \<Rightarrow> Some (Inl e)
           | Inr h \<Rightarrow> map_option (map_ok (\<lambda>hs. h # hs)) (hold_effects pools rest)))"

definition plan_allocations ::
  "Terms \<Rightarrow> OptionPoolMapping list \<Rightarrow> PoolSnapshot list \<Rightarrow> AllocationClaim list option
    \<Rightarrow> (AllocationPlanError + StockAllocation list \<times> PoolHoldProposal list) option" where
  "plan_allocations terms mappings pools explicit =
     (case resolve_allocations terms mappings pools explicit of
        Inl e \<Rightarrow> Some (Inl e)
      | Inr result \<Rightarrow>
          (case pool_totals result of
             Inl e \<Rightarrow> Some (Inl e)
           | Inr totals \<Rightarrow>
               map_option (map_ok (\<lambda>effects. (result, effects)))
                 (hold_effects (bt_collect (map (\<lambda>pool. (ps_id pool, pool)) pools)) totals)))"

section \<open>Observed pools\<close>

abbreviation pool_entries :: "PoolSnapshot list \<Rightarrow> (PoolId \<times> PoolSnapshot) list" where
  "pool_entries pools \<equiv> map (\<lambda>pool. (ps_id pool, pool)) pools"

interpretation observe:
  fresh_inserts observe_pool ps_id "\<lambda>p. p" "\<lambda>p. sequence_get (ps_version p) \<noteq> 0"
  by unfold_locales (auto simp: observe_pool_def)

lemma observe_pools_iff:
  "observe_pools pools = Inr m \<longleftrightarrow> distinct (map ps_id pools)
    \<and> (\<forall>p\<in>set pools. sequence_get (ps_version p) \<noteq> 0) \<and> m = bt_collect (pool_entries pools)"
  unfolding observe_pools_def by (rule observe.inserts_iff)

lemma observe_pools_Inr:
  assumes "observe_pools pools = Inr m"
  shows "m = bt_collect (pool_entries pools)" and "distinct (map ps_id pools)"
    and "\<forall>p\<in>set pools. sequence_get (ps_version p) \<noteq> 0"
    and "map_of m k = Some p \<longleftrightarrow> p \<in> set pools \<and> ps_id p = k"
  using assms observe.inserts_get [of pools m k p]
  by (auto simp: observe_pools_iff observe_pools_def [symmetric])

section \<open>The physical value of draws\<close>

text \<open>
  \<open>draw_value\<close> is the physical value of a draw in the unit of its pool, in millionths of the
  base unit; \<open>need_value\<close> is what a line needs, in millionths of that.
\<close>

definition draw_value :: "(PoolId, PoolSnapshot) btree_map \<Rightarrow> StockAllocation \<Rightarrow> nat" where
  "draw_value pools a =
     (case bt_get pools (sa_pool a) of None \<Rightarrow> 0 | Some pool \<Rightarrow> ticks_base (ps_unit pool) (sa_ticks a))"

definition need_value :: "AgreementLine \<Rightarrow> OptionPoolMapping \<Rightarrow> nat" where
  "need_value line mapping =
     (case al_price line of
        AgreementFixed _ \<Rightarrow> base_value (mp_per_sale_unit mapping) * micros (pd_amount (al_amount line))
      | AgreementVariable w \<Rightarrow>
          base_value \<lparr>qty_amount = pd_amount (vw_maximum w), qty_unit = vw_measurement_unit w\<rparr> * 10 ^ 6)"

definition wf_Claim :: "AllocationClaim \<Rightarrow> bool" where
  "wf_Claim c \<longleftrightarrow> wf_Quantity (ac_quantity c) \<and> \<not> Decimal_is_zero (qty_amount (ac_quantity c))"

definition wf_line_amounts :: "AgreementLine \<Rightarrow> bool" where
  "wf_line_amounts l \<longleftrightarrow> wf_PositiveDecimal (al_amount l)
     \<and> (case al_price l of AgreementFixed _ \<Rightarrow> True | AgreementVariable w \<Rightarrow> wf_VariableWeight w)"

definition observed :: "(PoolId, PoolSnapshot) btree_map \<Rightarrow> bool" where
  "observed pools \<longleftrightarrow> (\<forall>k p. map_of pools k = Some p \<longrightarrow> ps_id p = k \<and> wf_Snapshot p)"

lemma required_draw_value:
  assumes l: "wf_line_amounts line" and m: "wf_Mapping mapping"
    and t: "required_draw line mapping = Inr t"
  shows "wf_Ticks t" and "ticks_base (mp_unit mapping) t * 10 ^ 6 = need_value line mapping"
proof -
  note facts = wf_Mapping_facts [OF m]
  have "wf_Ticks t \<and> ticks_base (mp_unit mapping) t * 10 ^ 6 = need_value line mapping"
  proof (cases "al_price line")
    case (AgreementFixed f)
    with t have "draw_for_sales mapping (al_amount line) = Inr t"
      by (simp add: required_draw_def result_simps)
    moreover have "wf_Decimal (pd_amount (al_amount line))"
      using l by (simp add: wf_line_amounts_def wf_PositiveDecimal_def)
    ultimately show ?thesis
      using AgreementFixed by (simp add: need_value_def draw_for_sales_value [OF m])
  next
    case (AgreementVariable w)
    let ?q = "\<lparr>qty_amount = pd_amount (vw_maximum w), qty_unit = vw_measurement_unit w\<rparr>"
    have q: "wf_Quantity ?q"
      using l AgreementVariable by (simp add: wf_line_amounts_def wf_VariableWeight_def)
    then have "Quantity_new (pd_amount (vw_maximum w)) (vw_measurement_unit w) = Inr ?q"
      by (simp add: Quantity_new_def wf_Quantity_def)
    with t AgreementVariable obtain r where "Quantity_convert ?q (pu_unit (mp_unit mapping)) = Inr r"
      and "PoolUnit_ticks_for (mp_unit mapping) r = Inr t"
      by (auto simp: required_draw_def result_simps)
    from convert_ticks [OF q facts(3) this] AgreementVariable show ?thesis
      by (simp add: need_value_def)
  qed
  then show "wf_Ticks t" and "ticks_base (mp_unit mapping) t * 10 ^ 6 = need_value line mapping"
    by simp_all
qed

section \<open>Draws of one line\<close>

text \<open>
  What one iteration appends: positive draws of this line on distinct observed pools, worth
  exactly what the line needs.
\<close>

definition line_draw :: "(PoolId, PoolSnapshot) btree_map \<Rightarrow> AgreementLine \<Rightarrow> StockAllocation \<Rightarrow> bool" where
  "line_draw pools line d \<longleftrightarrow> sa_line d = al_id line \<and> sa_pool d \<in> dom (map_of pools)
     \<and> wf_Ticks (sa_ticks d) \<and> sa_ticks d \<noteq> StockTicks_ZERO"

definition line_draws ::
  "(PoolId, PoolSnapshot) btree_map \<Rightarrow> AgreementLine \<times> OptionPoolMapping \<Rightarrow> StockAllocation list \<Rightarrow> bool" where
  "line_draws pools lm ds \<longleftrightarrow> (\<forall>d\<in>set ds. line_draw pools (fst lm) d) \<and> distinct (map sa_pool ds)
     \<and> (\<Sum>d\<leftarrow>ds. draw_value pools d) * 10 ^ 6 = need_value (fst lm) (snd lm)"

lemma claim_step_Inr:
  assumes obs: "observed pools" and m: "wf_PoolUnit (mp_unit mapping)" and c: "wf_Claim choice"
    and covered: "wf_Ticks (fst s)"
    and step: "claim_step pools line mapping s choice = Inr s'"
  shows "\<exists>d. snd s' = snd s @ [d] \<and> line_draw pools line d \<and> sa_pool d = ac_pool choice
    \<and> draw_value pools d = base_value (ac_quantity choice) \<and> wf_Ticks (fst s')
    \<and> ticks_base (mp_unit mapping) (fst s') =
        ticks_base (mp_unit mapping) (fst s) + draw_value pools d"
proof -
  obtain pool r part t r' cov where
    pool: "map_of pools (ac_pool choice) = Some pool"
    and r: "Quantity_convert (ac_quantity choice) (pu_unit (mp_unit mapping)) = Inr r"
    and part: "PoolUnit_ticks_for (mp_unit mapping) r = Inr part"
    and cov: "StockTicks_checked_add (fst s) part = Inr cov"
    and r': "Quantity_convert (ac_quantity choice) (pu_unit (ps_unit pool)) = Inr r'"
    and t: "PoolUnit_ticks_for (ps_unit pool) r' = Inr t"
    and s': "s' = (cov, snd s @ [\<lparr>sa_line = al_id line, sa_pool = ps_id pool, sa_ticks = t\<rparr>])"
    using step by (cases s) (auto simp: claim_step_def result_simps)
  have q: "wf_Quantity (ac_quantity choice)" and pos: "base_value (ac_quantity choice) \<noteq> 0"
    using c by (simp_all add: wf_Claim_def base_value_zero)
  have p: "ps_id pool = ac_pool choice" "wf_PoolUnit (ps_unit pool)"
    using obs pool by (auto simp: observed_def wf_Snapshot_def)
  note mine = convert_ticks [OF q m r part] and theirs = convert_ticks [OF q p(2) r' t]
  note sum = ticks.add_Inr [OF cov covered mine(2)]
  have "t \<noteq> StockTicks_ZERO" using theirs(1) pos by (metis ticks_base_zero)
  then show ?thesis
    using pool p(1) mine(1) theirs(1,2) sum(1,2) s'
    by (intro exI [of _ "\<lparr>sa_line = al_id line, sa_pool = ps_id pool, sa_ticks = t\<rparr>"])
      (simp add: line_draw_def draw_value_def domIff ticks_base_def algebra_simps)
qed

lemma claim_steps_Inr:
  assumes obs: "observed pools" and m: "wf_PoolUnit (mp_unit mapping)"
    and "\<forall>c\<in>set choices. wf_Claim c" and "wf_Ticks (fst s)"
    and "try_fold (claim_step pools line mapping) s choices = Inr s'"
  shows "\<exists>ds. snd s' = snd s @ ds \<and> (\<forall>d\<in>set ds. line_draw pools line d)
    \<and> map sa_pool ds = map ac_pool choices \<and> wf_Ticks (fst s')
    \<and> ticks_base (mp_unit mapping) (fst s') =
        ticks_base (mp_unit mapping) (fst s) + (\<Sum>d\<leftarrow>ds. draw_value pools d)"
  using assms(3-)
proof (induction choices arbitrary: s)
  case Nil
  then show ?case by simp
next
  case (Cons c choices)
  then obtain u where u: "claim_step pools line mapping s c = Inr u"
    and rest: "try_fold (claim_step pools line mapping) u choices = Inr s'"
    by (auto simp: result_simps)
  from Cons.prems have "wf_Claim c" by simp
  from claim_step_Inr [OF obs m this Cons.prems(2) u] obtain d where
    d: "snd u = snd s @ [d]" "line_draw pools line d" "sa_pool d = ac_pool c" "wf_Ticks (fst u)"
      "ticks_base (mp_unit mapping) (fst u) = ticks_base (mp_unit mapping) (fst s) + draw_value pools d"
    by blast
  from Cons.IH [OF _ d(4) rest] Cons.prems(1) obtain ds where
    "snd s' = snd u @ ds" "\<forall>d\<in>set ds. line_draw pools line d" "map sa_pool ds = map ac_pool choices"
    "wf_Ticks (fst s')" "ticks_base (mp_unit mapping) (fst s') =
        ticks_base (mp_unit mapping) (fst u) + (\<Sum>d\<leftarrow>ds. draw_value pools d)"
    by auto
  with d show ?case by (intro exI [of _ "d # ds"]) auto
qed

lemma line_step_Inr:
  assumes obs: "observed pools" and l: "wf_line_amounts line" and m: "wf_Mapping mapping"
    and ex: "\<forall>choices. explicit = Some choices \<longrightarrow>
      (\<forall>c\<in>set choices. wf_Claim c) \<and> distinct (map (\<lambda>c. (ac_line c, ac_pool c)) choices)"
    and step: "line_step pools explicit result (line, mapping) = Inr result'"
  shows "\<exists>ds. result' = result @ ds \<and> line_draws pools (line, mapping) ds"
proof -
  obtain t pool where t: "required_draw line mapping = Inr t" and nz: "t \<noteq> StockTicks_ZERO"
    and pool: "map_of pools (mp_pool mapping) = Some pool" "ps_unit pool = mp_unit mapping"
    using step by (auto simp: line_step_def result_simps split: option.splits if_splits)
  note need = required_draw_value [OF l m t]
  show ?thesis
  proof (cases explicit)
    case None
    with step t nz pool have "result' = result @ [\<lparr>sa_line = al_id line, sa_pool = mp_pool mapping, sa_ticks = t\<rparr>]"
      by (auto simp: line_step_def split: if_splits)
    with need nz pool show ?thesis
      by (auto simp: line_draws_def line_draw_def draw_value_def domIff)
  next
    case (Some choices)
    let ?mine = "filter (\<lambda>c. ac_line c = al_id line) choices"
    from step Some t nz pool have
      steps: "try_fold (claim_step pools line mapping) (StockTicks_ZERO, result) ?mine = Inr (t, result')"
      by (auto simp: line_step_def result_simps split: if_splits)
    have claims: "\<forall>c\<in>set ?mine. wf_Claim c" using ex Some by auto
    obtain ds where ds: "result' = result @ ds" "\<forall>d\<in>set ds. line_draw pools line d"
      "map sa_pool ds = map ac_pool ?mine"
      "ticks_base (mp_unit mapping) t = (\<Sum>d\<leftarrow>ds. draw_value pools d)"
      using claim_steps_Inr [OF obs wf_Mapping_facts(3) [OF m] claims _ steps]
      by (auto simp: ticks_base_zero [THEN iffD2])
    have "distinct (map (\<lambda>c. (ac_line c, ac_pool c)) choices)" using ex Some by simp
    then have "distinct (map ac_pool ?mine)"
      by (induction choices) (auto simp: image_iff)
    with ds need show ?thesis by (auto simp: line_draws_def)
  qed
qed

lemma line_steps_Inr:
  assumes obs: "observed pools"
    and ex: "\<forall>choices. explicit = Some choices \<longrightarrow>
      (\<forall>c\<in>set choices. wf_Claim c) \<and> distinct (map (\<lambda>c. (ac_line c, ac_pool c)) choices)"
    and "\<forall>lm\<in>set lms. wf_line_amounts (fst lm) \<and> wf_Mapping (snd lm)"
    and "try_fold (line_step pools explicit) result lms = Inr result'"
  shows "\<exists>dss. result' = result @ concat dss \<and> list_all2 (line_draws pools) lms dss"
  using assms(3-)
proof (induction lms arbitrary: result)
  case Nil
  then show ?case by simp
next
  case (Cons lm lms)
  then obtain r where r: "line_step pools explicit result lm = Inr r"
    and rest: "try_fold (line_step pools explicit) r lms = Inr result'"
    by (auto simp: result_simps)
  obtain line mapping where lm: "lm = (line, mapping)" by (cases lm)
  from Cons.prems(1) have "wf_line_amounts line" "wf_Mapping mapping" by (auto simp: lm)
  from line_step_Inr [OF obs this ex r [unfolded lm]] obtain ds
    where ds: "r = result @ ds" "line_draws pools lm ds" by (auto simp: lm)
  from Cons.IH [OF _ rest] Cons.prems(1) obtain dss
    where "result' = r @ concat dss" "list_all2 (line_draws pools) lms dss" by auto
  with ds show ?case by (intro exI [of _ "ds # dss"]) auto
qed

section \<open>Draws of all lines\<close>

lemma sum_list_sort_key: "(\<Sum>x\<leftarrow>sort_key k xs. f x) = (\<Sum>x\<leftarrow>xs. (f x :: nat))"
proof -
  have "mset (map f (sort_key k xs)) = mset (map f xs)" by simp
  then show ?thesis by (metis sum_mset_sum_list)
qed

lemma line_draws_filter:
  "line_draws pools lm ds \<Longrightarrow>
    filter (\<lambda>d. sa_line d = lid) ds = (if lid = al_id (fst lm) then ds else [])"
  by (auto simp: line_draws_def line_draw_def)

lemma line_draws_other:
  assumes "list_all2 (line_draws pools) lms dss" and "lid \<notin> (\<lambda>lm. al_id (fst lm)) ` set lms"
  shows "filter (\<lambda>d. sa_line d = lid) (concat dss) = []"
  using assms by (induction rule: list_all2_induct) (auto simp: line_draws_filter)

lemma line_draws_total:
  assumes "list_all2 (line_draws pools) lms dss" and "distinct (map (\<lambda>lm. al_id (fst lm)) lms)"
    and "lm \<in> set lms"
  shows "(\<Sum>d\<leftarrow>filter (\<lambda>d. sa_line d = al_id (fst lm)) (concat dss). draw_value pools d) * 10 ^ 6
    = need_value (fst lm) (snd lm)"
  using assms
proof (induction rule: list_all2_induct)
  case Nil
  then show ?case by simp
next
  case (Cons lm' lms ds dss)
  show ?case
  proof (cases "lm = lm'")
    case True
    then have "al_id (fst lm) \<notin> (\<lambda>lm. al_id (fst lm)) ` set lms" using Cons.prems(1) by simp
    from line_draws_other [OF Cons.hyps(2) this] Cons.hyps(1) True show ?thesis
      by (simp add: line_draws_filter) (simp add: line_draws_def)
  next
    case False
    with Cons.prems have mem: "lm \<in> set lms" by simp
    then have "al_id (fst lm) \<in> (\<lambda>lm. al_id (fst lm)) ` set lms" by (rule imageI)
    moreover have "al_id (fst lm') \<notin> (\<lambda>lm. al_id (fst lm)) ` set lms" using Cons.prems(1) by simp
    ultimately have "al_id (fst lm) \<noteq> al_id (fst lm')" by metis
    with Cons.IH Cons.prems mem Cons.hyps(1) show ?thesis by (simp add: line_draws_filter)
  qed
qed

lemma line_draws_line:
  assumes "list_all2 (line_draws pools) lms dss" and "d \<in> set (concat dss)"
  shows "\<exists>lm\<in>set lms. line_draw pools (fst lm) d"
  using assms by (induction rule: list_all2_induct) (auto simp: line_draws_def)

lemma line_draws_distinct:
  assumes "list_all2 (line_draws pools) lms dss" and "distinct (map (\<lambda>lm. al_id (fst lm)) lms)"
  shows "distinct (map (\<lambda>d. (sa_pool d, sa_line d)) (concat dss))"
  using assms
proof (induction rule: list_all2_induct)
  case Nil
  then show ?case by simp
next
  case (Cons lm lms ds dss)
  then have mine: "\<forall>d\<in>set ds. line_draw pools (fst lm) d" and "distinct (map sa_pool ds)"
    by (simp_all add: line_draws_def)
  then have "distinct (map (\<lambda>d. (sa_pool d, sa_line d)) ds)"
    by (auto simp: distinct_map inj_on_def)
  moreover have "(\<lambda>d. (sa_pool d, sa_line d)) ` set ds \<inter> (\<lambda>d. (sa_pool d, sa_line d)) ` set (concat dss) = {}"
    using mine line_draws_line [OF Cons.hyps(2)] Cons.prems by (fastforce simp: line_draw_def)
  ultimately show ?case using mine Cons.IH Cons.prems by auto
qed

definition wf_request ::
  "Terms \<Rightarrow> OptionPoolMapping list \<Rightarrow> PoolSnapshot list \<Rightarrow> AllocationClaim list option \<Rightarrow> bool" where
  "wf_request terms mappings pools explicit \<longleftrightarrow>
     distinct (map al_id (tm_lines terms)) \<and> (\<forall>l\<in>set (tm_lines terms). wf_line_amounts l)
     \<and> (\<forall>m\<in>set mappings. wf_Mapping m) \<and> (\<forall>p\<in>set pools. wf_Snapshot p)
     \<and> (case explicit of None \<Rightarrow> True | Some choices \<Rightarrow> \<forall>c\<in>set choices. wf_Claim c)"

lemma resolve_stock_backed:
  assumes wf: "wf_request terms mappings pools explicit" and stock: "tm_supply terms = StockBacked"
    and res: "resolve_allocations terms mappings pools explicit = Inr allocs"
  obtains dss where "length mappings = length (tm_lines terms)"
    "distinct (map ps_id pools)" "\<forall>p\<in>set pools. sequence_get (ps_version p) \<noteq> 0"
    "allocs = sort_key (\<lambda>v. (sa_pool v, sa_line v)) (concat dss)" "length (concat dss) \<le> 64"
    "list_all2 (line_draws (bt_collect (pool_entries pools))) (zip (tm_lines terms) mappings) dss"
proof -
  obtain m r where m: "observe_pools pools = Inr m" and len: "length mappings = length (tm_lines terms)"
    and ex: "\<forall>choices. explicit = Some choices \<longrightarrow> distinct (map (\<lambda>c. (ac_line c, ac_pool c)) choices)"
    and r: "try_fold (line_step m explicit) [] (zip (tm_lines terms) mappings) = Inr r"
    and allocs: "allocs = sort_key (\<lambda>v. (sa_pool v, sa_line v)) r" and "length r \<le> 64"
    using res stock by (auto simp: resolve_allocations_def result_simps split: option.splits if_splits)
  note obs = observe_pools_Inr [OF m]
  have "observed m" using wf obs(4) by (auto simp: observed_def wf_request_def)
  moreover have "\<forall>choices. explicit = Some choices \<longrightarrow>
      (\<forall>c\<in>set choices. wf_Claim c) \<and> distinct (map (\<lambda>c. (ac_line c, ac_pool c)) choices)"
    using wf ex by (auto simp: wf_request_def)
  moreover have "\<forall>lm\<in>set (zip (tm_lines terms) mappings). wf_line_amounts (fst lm) \<and> wf_Mapping (snd lm)"
    using wf by (auto simp: wf_request_def dest: set_zip_leftD set_zip_rightD)
  ultimately obtain dss where "r = concat dss"
    "list_all2 (line_draws m) (zip (tm_lines terms) mappings) dss"
    using line_steps_Inr [OF _ _ _ r] by auto
  with that len obs allocs \<open>length r \<le> 64\<close> show thesis by blast
qed

section \<open>Holds\<close>

lemma PoolHoldProposal_new_Inr:
  assumes p: "wf_Snapshot p" and q: "wf_Ticks q"
  shows "PoolHoldProposal_new p q = Inr h \<longleftrightarrow>
    sequence_get (ps_version p) \<noteq> 0 \<and> ticks_get q \<noteq> 0
    \<and> ticks_get q \<le> cell_amount (ps_balances p) CAvailable \<and> sequence_get (ps_version p) < MAX_SEQUENCE
    \<and> h = \<lparr>hp_before = p,
           hp_after = p\<lparr>ps_balances := moved CAvailable CPreparatory (ticks_get q) (ps_balances p),
                        ps_version := Sequence (sequence_get (ps_version p) + 1)\<rparr>,
           hp_quantity = q\<rparr>"
proof -
  have "wf_Pool (ps_balances p)" and "sequence_get (ps_version p) \<le> MAX_SEQUENCE"
    using p by (simp_all add: wf_Snapshot_def wf_Sequence_def)
  then show ?thesis
    by (auto simp: PoolHoldProposal_new_def ticks_eq_ZERO hold.op_spec [OF _ q] result_simps
        checked_defs fits_u_def Sequence_new_def exact_integer_new_def MAX_SEQUENCE_def)
qed

lemma hold_effects_total:
  assumes "fst ` set totals \<subseteq> dom (map_of pools)"
  shows "hold_effects pools totals \<noteq> None"
  using assms
proof (induction totals)
  case Nil
  then show ?case by simp
next
  case (Cons pq totals)
  then show ?case by (cases pq) (auto split: sum.splits)
qed

lemma hold_effects_Inr:
  "hold_effects pools totals = Some (Inr holds) \<longleftrightarrow>
    list_all2 (\<lambda>pq h. \<exists>pool. map_of pools (fst pq) = Some pool
      \<and> PoolHoldProposal_new pool (snd pq) = Inr h) totals holds"
proof (induction totals arbitrary: holds)
  case Nil
  then show ?case by auto
next
  case (Cons pq totals)
  obtain pid q where pq: "pq = (pid, q)" by (cases pq)
  show ?case
  proof (cases "map_of pools pid")
    case None
    then show ?thesis by (simp add: pq list_all2_Cons1)
  next
    case (Some pool)
    show ?thesis
      using Some Cons.IH
      by (cases "PoolHoldProposal_new pool q"; cases holds)
        (auto simp: pq map_ok_eq_Inr)
  qed
qed

interpretation capacity: checked_totals ticks_get MAX_TICKS wf_Ticks capacity_add StockTicks_ZERO
  by unfold_locales (auto simp: capacity_add_def StockTicks_checked_add_spec wf_Ticks_def)

text \<open>What the draws take from one pool.\<close>

definition drawn :: "StockAllocation list \<Rightarrow> PoolId \<Rightarrow> nat" where
  "drawn allocs pid = (\<Sum>a\<leftarrow>filter (\<lambda>a. sa_pool a = pid) allocs. ticks_get (sa_ticks a))"

lemma key_total_drawn: "key_total ticks_get (map (\<lambda>a. (sa_pool a, sa_ticks a)) allocs) pid = drawn allocs pid"
  by (induction allocs) (auto simp: drawn_def)

lemma pool_totals_Inr:
  assumes "pool_totals allocs = Inr totals" and "\<forall>a\<in>set allocs. wf_Ticks (sa_ticks a)"
  shows "bt_inv totals" and "fst ` set totals = sa_pool ` set allocs"
    and "(pid, t) \<in> set totals \<Longrightarrow> wf_Ticks t \<and> ticks_get t = drawn allocs pid"
proof -
  have valid: "\<forall>kx\<in>set (map (\<lambda>a. (sa_pool a, sa_ticks a)) allocs). wf_Ticks (snd kx)"
    using assms(2) by auto
  note all = capacity.totals [OF assms(1) [unfolded pool_totals_def] valid]
  show inv: "bt_inv totals" by (rule all(1))
  show "fst ` set totals = sa_pool ` set allocs"
    using all(2) by (simp add: dom_map_of_conv_image_fst image_image)
  show "wf_Ticks t \<and> ticks_get t = drawn allocs pid" if "(pid, t) \<in> set totals"
    using all(3) [of pid t] that bt_inv_distinct [OF inv] by (simp add: key_total_drawn)
qed

lemma pool_totals_fit:
  assumes "\<forall>a\<in>set allocs. wf_Ticks (sa_ticks a)" and "\<forall>pid. drawn allocs pid \<le> MAX_TICKS"
  shows "\<exists>totals. pool_totals allocs = Inr totals"
  unfolding pool_totals_def
  using assms by (intro capacity.totals_fit) (auto simp: capacity.good_def capacity.held_def key_total_drawn)

lemma resolve_draws:
  assumes wf: "wf_request terms mappings pools explicit"
    and res: "resolve_allocations terms mappings pools explicit = Inr allocs"
  shows "\<forall>a\<in>set allocs. wf_Ticks (sa_ticks a) \<and> sa_ticks a \<noteq> StockTicks_ZERO
    \<and> sa_pool a \<in> ps_id ` set pools \<and> sa_line a \<in> al_id ` set (tm_lines terms)"
proof (cases "tm_supply terms")
  case StockBacked
  from wf StockBacked res obtain dss where
    "allocs = sort_key (\<lambda>v. (sa_pool v, sa_line v)) (concat dss)" and
    all: "list_all2 (line_draws (bt_collect (pool_entries pools))) (zip (tm_lines terms) mappings) dss"
    by (rule resolve_stock_backed)
  then have set: "set allocs = set (concat dss)" by simp
  have "dom (map_of (bt_collect (pool_entries pools))) = ps_id ` set pools"
    by (simp add: dom_map_of_conv_image_fst set_keys_bt_collect image_image)
  moreover note line_draws_line [OF all]
  ultimately show ?thesis
    unfolding set by (fastforce simp: line_draw_def dest: set_zip_leftD)
next
  case (FuturePromised f)
  with res show ?thesis by (auto simp: resolve_allocations_def split: if_splits)
qed

lemma resolve_pools_distinct:
  assumes "resolve_allocations terms mappings pools explicit = Inr allocs"
  shows "distinct (map ps_id pools)" and "\<forall>p\<in>set pools. sequence_get (ps_version p) \<noteq> 0"
proof -
  have "(\<exists>m. observe_pools pools = Inr m) \<or> pools = []"
    using assms by (auto simp: resolve_allocations_def result_simps split: SupplyCommitment.splits if_splits)
  then show "distinct (map ps_id pools)" and "\<forall>p\<in>set pools. sequence_get (ps_version p) \<noteq> 0"
    using observe_pools_Inr(2,3) by auto
qed

lemma collected_pool:
  "distinct (map ps_id pools) \<Longrightarrow>
    map_of (bt_collect (pool_entries pools)) k = Some p \<longleftrightarrow> p \<in> set pools \<and> ps_id p = k"
  by (subst bt_collect_get) (auto simp: map_of_eq_Some_iff o_def rev_map [symmetric])

lemma plan_allocations_Inr:
  "plan_allocations terms mappings pools explicit = Some (Inr (allocs, holds)) \<longleftrightarrow>
    resolve_allocations terms mappings pools explicit = Inr allocs
    \<and> (\<exists>totals. pool_totals allocs = Inr totals
        \<and> hold_effects (bt_collect (pool_entries pools)) totals = Some (Inr holds))"
  by (auto simp: plan_allocations_def map_ok_eq_Inr split: sum.splits)

text \<open>The hold that serves all draws on one observed pool, and nothing else.\<close>

definition exact_hold :: "PoolSnapshot list \<Rightarrow> StockAllocation list \<Rightarrow> PoolHoldProposal \<Rightarrow> bool" where
  "exact_hold pools draws h \<longleftrightarrow> hp_before h \<in> set pools
     \<and> ticks_get (hp_quantity h) = drawn draws (ps_id (hp_before h))
     \<and> drawn draws (ps_id (hp_before h)) \<le> cell_amount (ps_balances (hp_before h)) CAvailable
     \<and> sequence_get (ps_version (hp_before h)) < MAX_SEQUENCE
     \<and> wf_Pool (ps_balances (hp_after h))
     \<and> hp_after h = (hp_before h)\<lparr>
         ps_balances := moved CAvailable CPreparatory (ticks_get (hp_quantity h)) (ps_balances (hp_before h)),
         ps_version := Sequence (sequence_get (ps_version (hp_before h)) + 1)\<rparr>"

lemma PoolHoldProposal_new_exact:
  assumes p: "p \<in> set pools" "wf_Snapshot p" and t: "wf_Ticks t" "ticks_get t = drawn draws (ps_id p)"
    and new: "PoolHoldProposal_new p t = Inr h"
  shows "hp_before h = p" and "exact_hold pools draws h"
proof -
  have fits: "ticks_get t \<le> cell_amount (ps_balances p) CAvailable" "sequence_get (ps_version p) < MAX_SEQUENCE"
    and h: "h = \<lparr>hp_before = p,
       hp_after = p\<lparr>ps_balances := moved CAvailable CPreparatory (ticks_get t) (ps_balances p),
                    ps_version := Sequence (sequence_get (ps_version p) + 1)\<rparr>,
       hp_quantity = t\<rparr>"
    using new by (simp_all add: PoolHoldProposal_new_Inr [OF p(2) t(1)])
  have "wf_Pool (moved CAvailable CPreparatory (ticks_get t) (ps_balances p))"
    using p(2) fits by (intro wf_moved) (simp_all add: wf_Snapshot_def)
  with p t fits show "hp_before h = p" and "exact_hold pools draws h"
    by (simp_all add: h exact_hold_def)
qed

lemma hold_effects_exact:
  assumes dist: "distinct (map ps_id pools)" and snap: "\<forall>p\<in>set pools. wf_Snapshot p"
    and inv: "bt_inv totals" and dom: "fst ` set totals = sa_pool ` set draws"
    and tot: "\<And>pid t. (pid, t) \<in> set totals \<Longrightarrow> wf_Ticks t \<and> ticks_get t = drawn draws pid"
    and eff: "hold_effects (bt_collect (pool_entries pools)) totals = Some (Inr holds)"
  shows "sorted_wrt (<) (map (\<lambda>h. ps_id (hp_before h)) holds)"
    and "(\<lambda>h. ps_id (hp_before h)) ` set holds = sa_pool ` set draws"
    and "\<forall>h\<in>set holds. exact_hold pools draws h"
proof -
  have len: "length totals = length holds" and nth: "i < length holds \<Longrightarrow>
      \<exists>pool. map_of (bt_collect (pool_entries pools)) (fst (totals ! i)) = Some pool
      \<and> PoolHoldProposal_new pool (snd (totals ! i)) = Inr (holds ! i)" for i
    using eff by (auto simp: hold_effects_Inr list_all2_conv_all_nth)
  have step: "ps_id (hp_before (holds ! i)) = fst (totals ! i) \<and> exact_hold pools draws (holds ! i)"
    if i: "i < length holds" for i
  proof -
    from nth [OF i] obtain pool where pool: "pool \<in> set pools" "ps_id pool = fst (totals ! i)"
      and new: "PoolHoldProposal_new pool (snd (totals ! i)) = Inr (holds ! i)"
      by (auto simp: collected_pool [OF dist])
    have "(fst (totals ! i), snd (totals ! i)) \<in> set totals" using i len by simp
    from tot [OF this] snap PoolHoldProposal_new_exact [OF pool(1) _ _ _ new] pool show ?thesis
      by auto
  qed
  then have ids: "map (\<lambda>h. ps_id (hp_before h)) holds = map fst totals"
    using len by (intro nth_equalityI) simp_all
  show "sorted_wrt (<) (map (\<lambda>h. ps_id (hp_before h)) holds)"
    using inv by (simp add: ids bt_inv_def)
  show "(\<lambda>h. ps_id (hp_before h)) ` set holds = sa_pool ` set draws"
    using ids dom by (metis image_set)
  show "\<forall>h\<in>set holds. exact_hold pools draws h"
    using step by (auto simp: in_set_conv_nth)
qed

lemma plan_allocations_total:
  assumes "wf_request terms mappings pools explicit"
  shows "plan_allocations terms mappings pools explicit \<noteq> None"
proof (cases "resolve_allocations terms mappings pools explicit")
  case (Inl e)
  then show ?thesis by (simp add: plan_allocations_def)
next
  case (Inr allocs)
  note draws = resolve_draws [OF assms Inr]
  show ?thesis
  proof (cases "pool_totals allocs")
    case (Inl e)
    with Inr show ?thesis by (simp add: plan_allocations_def)
  next
    case totals: (Inr totals)
    have "fst ` set totals = sa_pool ` set allocs"
      using pool_totals_Inr(2) [OF totals] draws by blast
    also have "\<dots> \<subseteq> ps_id ` set pools" using draws by blast
    also have "\<dots> = dom (map_of (bt_collect (pool_entries pools)))"
      by (simp add: dom_map_of_conv_image_fst set_keys_bt_collect image_image)
    finally show ?thesis
      using hold_effects_total Inr totals by (simp add: plan_allocations_def)
  qed
qed

lemma plan_allocations_facts:
  assumes "wf_request terms mappings pools explicit"
    and "plan_allocations terms mappings pools explicit = Some (Inr (allocs, holds))"
  shows "resolve_allocations terms mappings pools explicit = Inr allocs"
    and "sorted_wrt (<) (map (\<lambda>h. ps_id (hp_before h)) holds)"
    and "(\<lambda>h. ps_id (hp_before h)) ` set holds = sa_pool ` set allocs"
    and "\<forall>h\<in>set holds. exact_hold pools allocs h"
proof -
  obtain totals where res: "resolve_allocations terms mappings pools explicit = Inr allocs"
    and totals: "pool_totals allocs = Inr totals"
    and eff: "hold_effects (bt_collect (pool_entries pools)) totals = Some (Inr holds)"
    using assms(2) by (auto simp: plan_allocations_Inr)
  have "\<forall>a\<in>set allocs. wf_Ticks (sa_ticks a)" using resolve_draws [OF assms(1) res] by blast
  from hold_effects_exact [OF resolve_pools_distinct(1) [OF res] _ pool_totals_Inr [OF totals this] eff]
  show "resolve_allocations terms mappings pools explicit = Inr allocs"
    and "sorted_wrt (<) (map (\<lambda>h. ps_id (hp_before h)) holds)"
    and "(\<lambda>h. ps_id (hp_before h)) ` set holds = sa_pool ` set allocs"
    and "\<forall>h\<in>set holds. exact_hold pools allocs h"
    using assms(1) res by (simp_all add: wf_request_def)
qed

lemma list_all2_choice: "\<forall>x\<in>set xs. \<exists>y. R x y \<Longrightarrow> \<exists>ys. list_all2 R xs ys"
  by (induction xs) (auto simp: list_all2_Cons1)

lemma drawn_pos_iff:
  assumes "\<forall>a\<in>set draws. sa_ticks a \<noteq> StockTicks_ZERO"
  shows "0 < drawn draws pid \<longleftrightarrow> pid \<in> sa_pool ` set draws"
  using assms by (induction draws) (auto simp: drawn_def ticks_eq_ZERO)

lemma plan_allocations_enough:
  assumes wf: "wf_request terms mappings pools explicit"
    and res: "resolve_allocations terms mappings pools explicit = Inr allocs"
    and enough: "\<forall>p\<in>set pools. 0 < drawn allocs (ps_id p) \<longrightarrow>
      drawn allocs (ps_id p) \<le> cell_amount (ps_balances p) CAvailable
      \<and> sequence_get (ps_version p) < MAX_SEQUENCE"
  shows "\<exists>holds. plan_allocations terms mappings pools explicit = Some (Inr (allocs, holds))"
proof -
  note draws = resolve_draws [OF wf res] and obs = resolve_pools_distinct [OF res]
  have snap: "wf_Snapshot p" if "p \<in> set pools" for p using wf that by (simp add: wf_request_def)
  have pos: "0 < drawn allocs pid \<longleftrightarrow> pid \<in> sa_pool ` set allocs" for pid
    using draws by (intro drawn_pos_iff) blast
  have "drawn allocs pid \<le> MAX_TICKS" for pid
  proof (cases "pid \<in> ps_id ` set pools")
    case True
    then obtain p where p: "p \<in> set pools" "pid = ps_id p" by blast
    have "cell_amount (ps_balances p) CAvailable \<le> MAX_TICKS"
      using snap [OF p(1)] by (auto simp: wf_Snapshot_def wf_Pool_def wf_Physical_iff cell_amount_def
          wf_Ticks_def dest: spec [of _ CAvailable])
    with enough p show ?thesis by (cases "0 < drawn allocs pid") auto
  next
    case False
    then have "pid \<notin> sa_pool ` set allocs" using draws by auto
    then have "\<not> 0 < drawn allocs pid" by (simp only: pos not_False_eq_True)
    then show ?thesis by simp
  qed
  then obtain totals where totals: "pool_totals allocs = Inr totals"
    using pool_totals_fit draws by blast
  have "\<exists>h. \<exists>pool. map_of (bt_collect (pool_entries pools)) (fst pq) = Some pool
      \<and> PoolHoldProposal_new pool (snd pq) = Inr h" if pq: "pq \<in> set totals" for pq
  proof -
    have t: "wf_Ticks (snd pq)" "ticks_get (snd pq) = drawn allocs (fst pq)" and "fst pq \<in> sa_pool ` set allocs"
      using pool_totals_Inr(2) [OF totals] pool_totals_Inr(3) [OF totals, of "fst pq" "snd pq"] draws pq
      by auto
    with draws obtain p where p: "p \<in> set pools" "ps_id p = fst pq" by force
    with t pos \<open>fst pq \<in> _\<close> enough obs(2) have "\<exists>h. PoolHoldProposal_new p (snd pq) = Inr h"
      by (auto simp: PoolHoldProposal_new_Inr [OF snap [OF p(1)] t(1)])
    with p show ?thesis by (auto simp: collected_pool [OF obs(1)])
  qed
  then have "\<exists>holds. hold_effects (bt_collect (pool_entries pools)) totals = Some (Inr holds)"
    unfolding hold_effects_Inr by (intro list_all2_choice ballI)
  with res totals show ?thesis by (auto simp: plan_allocations_Inr)
qed

lemma zip_line_ids:
  "length mappings = length lines \<Longrightarrow> map (\<lambda>lm. al_id (fst lm)) (zip lines mappings) = map al_id lines"
  by (induction lines mappings rule: list_induct2') simp_all

lemma resolve_line_totals:
  assumes "wf_request terms mappings pools explicit" and "tm_supply terms = StockBacked"
    and "resolve_allocations terms mappings pools explicit = Inr allocs"
  shows "\<forall>lm\<in>set (zip (tm_lines terms) mappings).
    (\<Sum>a\<leftarrow>filter (\<lambda>a. sa_line a = al_id (fst lm)) allocs.
      draw_value (bt_collect (pool_entries pools)) a) * 10 ^ 6 = need_value (fst lm) (snd lm)"
proof
  fix lm assume lm: "lm \<in> set (zip (tm_lines terms) mappings)"
  obtain dss where len: "length mappings = length (tm_lines terms)"
    and allocs: "allocs = sort_key (\<lambda>v. (sa_pool v, sa_line v)) (concat dss)"
    and all: "list_all2 (line_draws (bt_collect (pool_entries pools))) (zip (tm_lines terms) mappings) dss"
    using assms by (rule resolve_stock_backed)
  have "distinct (map (\<lambda>lm. al_id (fst lm)) (zip (tm_lines terms) mappings))"
    using assms(1) len by (simp add: wf_request_def zip_line_ids)
  from line_draws_total [OF all this lm]
  show "(\<Sum>a\<leftarrow>filter (\<lambda>a. sa_line a = al_id (fst lm)) allocs.
      draw_value (bt_collect (pool_entries pools)) a) * 10 ^ 6 = need_value (fst lm) (snd lm)"
    unfolding allocs filter_sort sum_list_sort_key .
qed

lemma resolve_shape:
  assumes "wf_request terms mappings pools explicit" and "tm_supply terms = StockBacked"
    and "resolve_allocations terms mappings pools explicit = Inr allocs"
  shows "length mappings = length (tm_lines terms)
    \<and> sorted_wrt (<) (map (\<lambda>a. (sa_pool a, sa_line a)) allocs) \<and> length allocs \<le> 64"
proof -
  obtain dss where len: "length mappings = length (tm_lines terms)"
    and allocs: "allocs = sort_key (\<lambda>v. (sa_pool v, sa_line v)) (concat dss)" "length (concat dss) \<le> 64"
    and all: "list_all2 (line_draws (bt_collect (pool_entries pools))) (zip (tm_lines terms) mappings) dss"
    using assms by (rule resolve_stock_backed)
  have "distinct (map (\<lambda>lm. al_id (fst lm)) (zip (tm_lines terms) mappings))"
    using assms(1) len by (simp add: wf_request_def zip_line_ids)
  from line_draws_distinct [OF all this]
  have "distinct (map (\<lambda>a. (sa_pool a, sa_line a)) allocs)"
    by (simp only: allocs distinct_map distinct_sort set_sort)
  moreover have "sorted (map (\<lambda>a. (sa_pool a, sa_line a)) allocs)" by (simp add: allocs)
  ultimately have "sorted_wrt (<) (map (\<lambda>a. (sa_pool a, sa_line a)) allocs)"
    by (simp add: strict_sorted_iff)
  with len allocs show ?thesis by simp
qed

section \<open>Properties\<close>

text \<open>C8: resolving stock-backed terms allocates completely and exactly. The draws of every
  line, each measured in the unit of its own pool, are together worth exactly what the line
  needs: its mapped quantity times the purchased amount, or the agreed maximum weight. Every
  draw is positive and names an observed pool and an agreed line, no pair of pool and line
  occurs twice, and the draws come out ordered by pool and line.\<close>

theorem resolve_allocations_exact:
  assumes "wf_request terms mappings pools explicit" and "tm_supply terms = StockBacked"
    and "resolve_allocations terms mappings pools explicit = Inr allocs"
  shows "length mappings = length (tm_lines terms)
    \<and> (\<forall>lm\<in>set (zip (tm_lines terms) mappings).
        (\<Sum>a\<leftarrow>filter (\<lambda>a. sa_line a = al_id (fst lm)) allocs.
            draw_value (bt_collect (pool_entries pools)) a) * 10 ^ 6
          = need_value (fst lm) (snd lm))
    \<and> (\<forall>a\<in>set allocs. sa_ticks a \<noteq> StockTicks_ZERO \<and> sa_pool a \<in> ps_id ` set pools
        \<and> sa_line a \<in> al_id ` set (tm_lines terms))
    \<and> sorted_wrt (<) (map (\<lambda>a. (sa_pool a, sa_line a)) allocs) \<and> length allocs \<le> 64"
  using resolve_shape [OF assms] resolve_line_totals [OF assms] resolve_draws [OF assms(1,3)] by blast

definition sample_egg_unit :: PoolUnit where
  "sample_egg_unit = \<lparr>pu_unit = Each, pu_scale = 0\<rparr>"

definition sample_egg_mapping :: OptionPoolMapping where
  "sample_egg_mapping = \<lparr>mp_key = \<lparr>mk_listing = rev_coordinate sample_source, mk_option = op_id sample_option\<rparr>,
     mp_pool = from_bytes (replicate 32 7), mp_unit = sample_egg_unit,
     mp_per_sale_unit = \<lparr>qty_amount = \<lparr>coefficient = 12, scale = 0\<rparr>, qty_unit = Each\<rparr>,
     mp_per_sale_ticks = StockTicks 12, mp_version = Sequence 1\<rparr>"

definition sample_egg_pool :: PoolSnapshot where
  "sample_egg_pool = \<lparr>ps_id = from_bytes (replicate 32 7), ps_unit = sample_egg_unit,
     ps_balances = sample_pool 100 100 0 0, ps_version = Sequence 4\<rparr>"

definition sample_terms :: Terms where
  "sample_terms = \<lparr>tm_buyer = sample_key 1, tm_seller = sample_key 2, tm_lines = [sample_line],
     tm_fulfillment = [sample_group], tm_fulfillment_charge = Money_new usd (MinorAmount 0),
     tm_maximum_total = Money_new usd (MinorAmount 1200), tm_supply = StockBacked\<rparr>"

definition sample_draw :: StockAllocation where
  "sample_draw = \<lparr>sa_line = al_id sample_line, sa_pool = ps_id sample_egg_pool, sa_ticks = StockTicks 36\<rparr>"

lemma sample_request: "wf_request sample_terms [sample_egg_mapping] [sample_egg_pool] None"
proof -
  have "Quantity_convert (mp_per_sale_unit sample_egg_mapping) Each = Inr (mp_per_sale_unit sample_egg_mapping)"
    "PoolUnit_ticks_for sample_egg_unit (mp_per_sale_unit sample_egg_mapping) = Inr (StockTicks 12)"
    "wf_Quantity (mp_per_sale_unit sample_egg_mapping)" "wf_PoolUnit sample_egg_unit"
    by code_simp+
  then have "wf_Mapping sample_egg_mapping"
    by (auto simp: wf_Mapping_def sample_egg_mapping_def sample_egg_unit_def StockTicks_ZERO_def)
  moreover have "wf_line_amounts sample_line" and "wf_Snapshot sample_egg_pool" by code_simp+
  ultimately show ?thesis by (simp add: wf_request_def sample_terms_def)
qed

lemma sample_resolved:
  "resolve_allocations sample_terms [sample_egg_mapping] [sample_egg_pool] None = Inr [sample_draw]"
  by code_simp

theorem resolve_allocations_exact_witness:
  "draw_value (bt_collect (pool_entries [sample_egg_pool])) sample_draw * 10 ^ 6
    = need_value sample_line sample_egg_mapping"
  using resolve_allocations_exact [OF sample_request _ sample_resolved]
  by (simp add: sample_terms_def sample_draw_def)

text \<open>C9: a plan holds exactly what was resolved. There is one hold per drawn pool, in pool
  order, for the sum of the draws on that pool; it starts from the observed snapshot, moves that
  quantity from available to preparatory stock, advances the version by one and changes nothing
  else. The map lookup of the planner never fails.\<close>

theorem plan_allocations_holds:
  assumes "wf_request terms mappings pools explicit"
  shows "plan_allocations terms mappings pools explicit \<noteq> None
    \<and> (\<forall>allocs holds. plan_allocations terms mappings pools explicit = Some (Inr (allocs, holds)) \<longrightarrow>
        resolve_allocations terms mappings pools explicit = Inr allocs
        \<and> sorted_wrt (<) (map (\<lambda>h. ps_id (hp_before h)) holds)
        \<and> (\<lambda>h. ps_id (hp_before h)) ` set holds = sa_pool ` set allocs
        \<and> (\<forall>h\<in>set holds. exact_hold pools allocs h))"
  using plan_allocations_total [OF assms] plan_allocations_facts [OF assms] by blast

theorem plan_allocations_holds_witness:
  "\<exists>holds. plan_allocations sample_terms [sample_egg_mapping] [sample_egg_pool] None = Some (Inr ([sample_draw], holds))
    \<and> (\<lambda>h. ps_id (hp_before h)) ` set holds = {ps_id sample_egg_pool}"
proof -
  have "\<forall>p\<in>set [sample_egg_pool]. 0 < drawn [sample_draw] (ps_id p) \<longrightarrow>
      drawn [sample_draw] (ps_id p) \<le> cell_amount (ps_balances p) CAvailable
      \<and> sequence_get (ps_version p) < MAX_SEQUENCE" by code_simp
  from plan_allocations_enough [OF sample_request sample_resolved this] obtain holds
    where "plan_allocations sample_terms [sample_egg_mapping] [sample_egg_pool] None
      = Some (Inr ([sample_draw], holds))" by blast
  with plan_allocations_holds [OF sample_request] show ?thesis
    by (auto simp: sample_draw_def)
qed

text \<open>C10: a resolved allocation is plannable exactly when every drawn pool has the drawn quantity
  available and a version that can advance: the planner neither refuses a feasible plan nor
  oversells a pool, however many lines draw on it.\<close>

theorem plan_allocations_iff_available:
  assumes "wf_request terms mappings pools explicit"
    and "resolve_allocations terms mappings pools explicit = Inr allocs"
  shows "(\<exists>holds. plan_allocations terms mappings pools explicit = Some (Inr (allocs, holds))) \<longleftrightarrow>
    (\<forall>p\<in>set pools. 0 < drawn allocs (ps_id p) \<longrightarrow>
      drawn allocs (ps_id p) \<le> cell_amount (ps_balances p) CAvailable
      \<and> sequence_get (ps_version p) < MAX_SEQUENCE)"
  (is "?plan \<longleftrightarrow> ?enough")
proof
  assume ?enough
  then show ?plan by (rule plan_allocations_enough [OF assms])
next
  assume ?plan
  then obtain holds where plan: "plan_allocations terms mappings pools explicit = Some (Inr (allocs, holds))" ..
  note facts = plan_allocations_facts [OF assms(1) plan]
  have pos: "0 < drawn allocs pid \<longleftrightarrow> pid \<in> sa_pool ` set allocs" for pid
    using resolve_draws [OF assms] by (intro drawn_pos_iff) blast
  show ?enough
  proof (intro ballI impI)
    fix p assume p: "p \<in> set pools" and "0 < drawn allocs (ps_id p)"
    with pos facts(3) obtain h where h: "h \<in> set holds" "ps_id (hp_before h) = ps_id p" by (metis imageE)
    with facts(4) have exact: "exact_hold pools allocs h" by blast
    with p h resolve_pools_distinct(1) [OF assms(2)] have "hp_before h = p"
      by (auto simp: exact_hold_def distinct_map inj_on_def)
    with exact h show "drawn allocs (ps_id p) \<le> cell_amount (ps_balances p) CAvailable
        \<and> sequence_get (ps_version p) < MAX_SEQUENCE"
      by (simp add: exact_hold_def)
  qed
qed

theorem plan_allocations_iff_available_witness:
  "\<exists>holds. plan_allocations sample_terms [sample_egg_mapping] [sample_egg_pool] None
    = Some (Inr ([sample_draw], holds))"
proof -
  have "\<forall>p\<in>set [sample_egg_pool]. 0 < drawn [sample_draw] (ps_id p) \<longrightarrow>
      drawn [sample_draw] (ps_id p) \<le> cell_amount (ps_balances p) CAvailable
      \<and> sequence_get (ps_version p) < MAX_SEQUENCE" by code_simp
  then show ?thesis using plan_allocations_iff_available [OF sample_request sample_resolved] by blast
qed

end
