(* ===== verification/Replacement.thy ===== *)
theory Replacement
  imports Allocation
begin

text \<open>
  Replacement allocations of \<open>crates/domain/src/stock/replacement.rs\<close>: net changes between
  current and desired draws, holds for the positive ones only, and the resolution of amended
  terms that keeps the pools of existing draws.
\<close>

section \<open>Net changes\<close>

record ReplacementAllocationPlan =
  rp_additional :: "StockAllocation list"
  rp_releases :: "StockAllocation list"
  rp_holds :: "PoolHoldProposal list"

type_synonym draw_map = "(PoolId \<times> AgreementLineId, StockTicks) btree_map"

text \<open>One iteration of the loop that files draws under their pool and line.\<close>

definition file_draw ::
  "(PoolId, PoolSnapshot) btree_map \<Rightarrow> draw_map \<Rightarrow> StockAllocation \<Rightarrow> AllocationPlanError + draw_map" where
  "file_draw pools target v =
     (if bt_get pools (sa_pool v) = None then Inl StaleState
      else if bt_get target (sa_pool v, sa_line v) \<noteq> None then Inl InvalidInput
      else Inr (bt_insert (sa_pool v, sa_line v) (sa_ticks v) target))"

definition ticks_or_zero :: "draw_map \<Rightarrow> PoolId \<times> AgreementLineId \<Rightarrow> StockTicks" where
  "ticks_or_zero m k = (case bt_get m k of None \<Rightarrow> StockTicks_ZERO | Some t \<Rightarrow> t)"

text \<open>One iteration of the loop over the keys; the state is additional, releases, quantities.\<close>

definition delta_step ::
  "draw_map \<Rightarrow> draw_map \<Rightarrow> StockAllocation list \<times> StockAllocation list \<times> (PoolId, StockTicks) btree_map
    \<Rightarrow> PoolId \<times> AgreementLineId
    \<Rightarrow> AllocationPlanError + StockAllocation list \<times> StockAllocation list \<times> (PoolId, StockTicks) btree_map" where
  "delta_step before after state key =
     (case state of (additional, releases, quantities) \<Rightarrow>
      case key of (pool, line) \<Rightarrow>
      let old = ticks_or_zero before (pool, line); new = ticks_or_zero after (pool, line) in
      if ticks_get old < ticks_get new then
        bindE (map_err (\<lambda>_. InvalidInput) (StockTicks_checked_sub new old)) (\<lambda>quantity.
        bindE (StockAllocation_new line pool quantity) (\<lambda>a.
        bindE (accumulate capacity_add StockTicks_ZERO quantities (pool, quantity)) (\<lambda>quantities.
          Inr (additional @ [a], releases, quantities))))
      else if ticks_get new < ticks_get old then
        bindE (map_err (\<lambda>_. InvalidInput) (StockTicks_checked_sub old new)) (\<lambda>quantity.
        bindE (StockAllocation_new line pool quantity) (\<lambda>a.
          Inr (additional, releases @ [a], quantities)))
      else Inr (additional, releases, quantities))"

definition replacement_changes ::
  "StockAllocation list \<Rightarrow> StockAllocation list \<Rightarrow> PoolSnapshot list
    \<Rightarrow> AllocationPlanError + (PoolId, PoolSnapshot) btree_map
        \<times> StockAllocation list \<times> StockAllocation list \<times> (PoolId, StockTicks) btree_map" where
  "replacement_changes current desired pools =
     (if 64 < length current \<or> 64 < length desired \<or> 96 < length pools then Inl Capacity
      else bindE (observe_pools pools) (\<lambda>obs.
       bindE (try_fold (file_draw obs) [] current) (\<lambda>before.
       bindE (try_fold (file_draw obs) [] desired) (\<lambda>after.
       let keys = remdups_adj (sort (bt_keys before @ bt_keys after)) in
       bindE (try_fold (delta_step before after) ([], [], []) keys) (\<lambda>changes.
         Inr (obs, changes))))))"

definition plan_replacement_allocations ::
  "StockAllocation list \<Rightarrow> StockAllocation list \<Rightarrow> PoolSnapshot list
    \<Rightarrow> (AllocationPlanError + ReplacementAllocationPlan) option" where
  "plan_replacement_allocations current desired pools =
     (case replacement_changes current desired pools of
        Inl e \<Rightarrow> Some (Inl e)
      | Inr (obs, additional, releases, quantities) \<Rightarrow>
          map_option (map_ok (\<lambda>holds. \<lparr>rp_additional = additional, rp_releases = releases,
                                        rp_holds = holds\<rparr>))
            (hold_effects obs quantities))"

section \<open>Resolution of amended terms\<close>

text \<open>
  The quantity that a number of ticks stands for. The scale of a pool unit is at most six, so
  only the coefficient can be out of range.
\<close>

definition ticks_quantity :: "StockTicks \<Rightarrow> PoolUnit \<Rightarrow> AllocationPlanError + Quantity" where
  "ticks_quantity t u =
     bindE (map_err (\<lambda>_. Capacity) (Decimal_from_parts (ticks_get t) (pu_scale u))) (\<lambda>d.
       map_err (\<lambda>_. InvalidInput) (Quantity_new d (pu_unit u)))"

text \<open>One iteration of the loop that adds up the original draws of a line.\<close>

definition add_original ::
  "(PoolId, PoolSnapshot) btree_map \<Rightarrow> PoolSnapshot \<Rightarrow> Quantity \<Rightarrow> StockAllocation
    \<Rightarrow> AllocationPlanError + Quantity" where
  "add_original pools target_pool quantity original =
     bindE (ok_or StaleState (bt_get pools (sa_pool original))) (\<lambda>original_pool.
     bindE (map_err (\<lambda>_. Capacity)
         (Decimal_from_parts (ticks_get (sa_ticks original)) (pu_scale (ps_unit original_pool)))) (\<lambda>d.
     bindE (map_err (\<lambda>_. InvalidInput)
         (bindE (Quantity_new d (pu_unit (ps_unit original_pool)))
           (\<lambda>v. Quantity_convert v (pu_unit (ps_unit target_pool))))) (\<lambda>converted.
       map_err (\<lambda>_. Capacity) (Quantity_checked_add quantity converted))))"

text \<open>The body of the loop over the desired draws: what replaces one of them.\<close>

definition retain_pools ::
  "(PoolId, PoolSnapshot) btree_map \<Rightarrow> StockAllocation list \<Rightarrow> StockAllocation
    \<Rightarrow> AllocationPlanError + StockAllocation list" where
  "retain_pools pools current target =
     (let originals = filter (\<lambda>old. sa_line old = sa_line target) current in
      bindE (ok_or StaleState (bt_get pools (sa_pool target))) (\<lambda>target_pool.
      bindE (ticks_quantity (sa_ticks target) (ps_unit target_pool)) (\<lambda>quantity.
      case originals of
        [] \<Rightarrow> Inr [target]
      | [original] \<Rightarrow>
          bindE (ok_or StaleState (bt_get pools (sa_pool original))) (\<lambda>original_pool.
          bindE (map_err (\<lambda>_. InvalidInput)
              (Quantity_convert quantity (pu_unit (ps_unit original_pool)))) (\<lambda>converted.
          bindE (map_err (\<lambda>_. InvalidInput) (PoolUnit_ticks_for (ps_unit original_pool) converted)) (\<lambda>ticks.
          bindE (StockAllocation_new (sa_line target) (sa_pool original) ticks) (\<lambda>a. Inr [a]))))
      | _ \<Rightarrow>
          bindE (map_err (\<lambda>_. InvalidInput) (Decimal_from_parts 0 0)) (\<lambda>zero.
          bindE (map_err (\<lambda>_. InvalidInput) (Quantity_new zero (pu_unit (ps_unit target_pool)))) (\<lambda>start.
          bindE (try_fold (add_original pools target_pool) start originals) (\<lambda>quantity.
          bindE (map_err (\<lambda>_. InvalidInput) (PoolUnit_ticks_for (ps_unit target_pool) quantity)) (\<lambda>ticks.
            if ticks \<noteq> sa_ticks target then Inl Unsupported else Inr originals)))))))"

definition retain_step ::
  "(PoolId, PoolSnapshot) btree_map \<Rightarrow> StockAllocation list \<Rightarrow> StockAllocation list \<Rightarrow> StockAllocation
    \<Rightarrow> AllocationPlanError + StockAllocation list" where
  "retain_step pools current result target =
     map_ok (\<lambda>ds. result @ ds) (retain_pools pools current target)"

definition resolve_replacement_allocations ::
  "Terms \<Rightarrow> OptionPoolMapping list \<Rightarrow> PoolSnapshot list \<Rightarrow> AllocationClaim list option
    \<Rightarrow> StockAllocation list \<Rightarrow> (AllocationPlanError + StockAllocation list) option" where
  "resolve_replacement_allocations terms mappings pools explicit current =
     map_option (\<lambda>checked.
       bindE checked (\<lambda>_.
       let obs = (case tm_supply terms of FuturePromised _ \<Rightarrow> [] | StockBacked \<Rightarrow> pools) in
       bindE (resolve_allocations terms mappings obs explicit) (\<lambda>desired.
       if 64 < length current then Inl Capacity
       else if explicit \<noteq> None then Inr desired
       else bindE (try_fold (retain_step (bt_collect (pool_entries pools)) current) [] desired) (\<lambda>result.
         if 64 < length result then Inl Capacity
         else Inr (sort_key (\<lambda>v. (sa_pool v, sa_line v)) result)))))
     (plan_replacement_allocations current current pools)"

section \<open>Filed draws\<close>

abbreviation draw_key :: "StockAllocation \<Rightarrow> PoolId \<times> AgreementLineId" where
  "draw_key d \<equiv> (sa_pool d, sa_line d)"

interpretation filing:
  fresh_inserts "file_draw obs" draw_key sa_ticks "\<lambda>d. sa_pool d \<in> dom (map_of obs)"
  for obs
  by unfold_locales (auto simp: file_draw_def domIff)

text \<open>What a list of draws takes from one pool for one line.\<close>

definition draw_at :: "StockAllocation list \<Rightarrow> PoolId \<times> AgreementLineId \<Rightarrow> nat" where
  "draw_at ds k = (\<Sum>d\<leftarrow>filter (\<lambda>d. draw_key d = k) ds. ticks_get (sa_ticks d))"

lemma draw_at_simps [simp]:
  "draw_at [] k = 0"
  "draw_at (d # ds) k = (if draw_key d = k then ticks_get (sa_ticks d) else 0) + draw_at ds k"
  by (simp_all add: draw_at_def)

lemma draw_at_absent: "k \<notin> draw_key ` set ds \<Longrightarrow> draw_at ds k = 0"
  by (induction ds) auto

lemma draw_at_member:
  "distinct (map draw_key ds) \<Longrightarrow> d \<in> set ds \<Longrightarrow> draw_at ds (draw_key d) = ticks_get (sa_ticks d)"
  by (induction ds) (auto simp: draw_at_absent image_iff)

lemma filed_ticks:
  assumes "try_fold (file_draw obs) [] ds = Inr m"
  shows "ticks_get (ticks_or_zero m k) = draw_at ds k" and "set (map fst m) = draw_key ` set ds"
    and "(\<forall>d\<in>set ds. wf_Ticks (sa_ticks d)) \<Longrightarrow> wf_Ticks (ticks_or_zero m k)"
proof -
  note get = filing.inserts_get [OF assms]
  have dist: "distinct (map draw_key ds)" using assms by (simp add: filing.inserts_iff)
  show "ticks_get (ticks_or_zero m k) = draw_at ds k"
  proof (cases "map_of m k")
    case None
    then have "k \<notin> draw_key ` set ds" using get by force
    with None show ?thesis by (simp add: ticks_or_zero_def draw_at_absent)
  next
    case (Some t)
    then obtain d where "d \<in> set ds" "draw_key d = k" "sa_ticks d = t" using get by auto
    with Some dist draw_at_member show ?thesis by (auto simp: ticks_or_zero_def)
  qed
  show "set (map fst m) = draw_key ` set ds"
    using assms by (simp add: filing.inserts_iff set_keys_bt_collect image_image)
  show "wf_Ticks (ticks_or_zero m k)" if "\<forall>d\<in>set ds. wf_Ticks (sa_ticks d)"
    using get [of k] that by (auto simp: ticks_or_zero_def split: option.splits)
qed

section \<open>The deltas\<close>

definition gain :: "StockAllocation list \<Rightarrow> StockAllocation list \<Rightarrow> PoolId \<times> AgreementLineId \<Rightarrow> StockAllocation" where
  "gain from to k = \<lparr>sa_line = snd k, sa_pool = fst k, sa_ticks = StockTicks (draw_at to k - draw_at from k)\<rparr>"

definition gains ::
  "StockAllocation list \<Rightarrow> StockAllocation list \<Rightarrow> (PoolId \<times> AgreementLineId) list \<Rightarrow> StockAllocation list" where
  "gains from to ks = map (gain from to) (filter (\<lambda>k. draw_at from k < draw_at to k) ks)"

lemma draw_key_gain [simp]: "sa_pool (gain a b k) = fst k" "sa_line (gain a b k) = snd k"
  "ticks_get (sa_ticks (gain a b k)) = draw_at b k - draw_at a k"
  by (simp_all add: gain_def)

lemma gains_Cons: "gains a b (k # ks) = (if draw_at a k < draw_at b k then [gain a b k] else []) @ gains a b ks"
  by (simp add: gains_def)

lemma draw_at_gains:
  assumes "distinct ks"
  shows "draw_at (gains a b ks) k = (if k \<in> set ks then draw_at b k - draw_at a k else 0)"
  using assms by (induction ks) (auto simp: gains_Cons gains_def [of _ _ "[]"] draw_at_def)

lemma delta_step_spec:
  assumes b: "\<And>k. wf_Ticks (ticks_or_zero before k)" "\<And>k. ticks_get (ticks_or_zero before k) = draw_at cur k"
    and a: "\<And>k. wf_Ticks (ticks_or_zero after k)" "\<And>k. ticks_get (ticks_or_zero after k) = draw_at des k"
  shows "delta_step before after (additional, releases, quantities) k =
    (if draw_at cur k < draw_at des k then
       map_ok (\<lambda>qs. (additional @ [gain cur des k], releases, qs))
         (accumulate capacity_add StockTicks_ZERO quantities (fst k, sa_ticks (gain cur des k)))
     else if draw_at des k < draw_at cur k then Inr (additional, releases @ [gain des cur k], quantities)
     else Inr (additional, releases, quantities))"
proof -
  obtain pool line where k: "k = (pool, line)" by (cases k)
  have "StockTicks (n - m) \<noteq> StockTicks_ZERO" if "m < n" for m n
    using that by (simp add: StockTicks_ZERO_def)
  then show ?thesis
    by (cases "accumulate capacity_add StockTicks_ZERO quantities (pool, sa_ticks (gain cur des k))")
      (simp_all add: delta_step_def k Let_def StockTicks_checked_sub_spec [OF a(1)]
        StockTicks_checked_sub_spec [OF b(1)] b(2) a(2) StockAllocation_new_def gain_def)
qed

lemma delta_steps_Inr:
  assumes b: "\<And>k. wf_Ticks (ticks_or_zero before k)" "\<And>k. ticks_get (ticks_or_zero before k) = draw_at cur k"
    and a: "\<And>k. wf_Ticks (ticks_or_zero after k)" "\<And>k. ticks_get (ticks_or_zero after k) = draw_at des k"
  shows "try_fold (delta_step before after) (additional, releases, quantities) ks = Inr (ad, re, qs) \<longleftrightarrow>
    ad = additional @ gains cur des ks \<and> re = releases @ gains des cur ks
    \<and> try_fold (accumulate capacity_add StockTicks_ZERO) quantities
        (map (\<lambda>d. (sa_pool d, sa_ticks d)) (gains cur des ks)) = Inr qs"
proof (induction ks arbitrary: additional releases quantities)
  case Nil
  then show ?case by (auto simp: gains_def)
next
  case (Cons k ks)
  show ?case
  proof (cases "draw_at cur k < draw_at des k")
    case True
    then show ?thesis using Cons.IH
      by (cases "accumulate capacity_add StockTicks_ZERO quantities (fst k, sa_ticks (gain cur des k))")
        (auto simp: delta_step_spec [OF assms] gains_Cons)
  next
    case False
    then show ?thesis using Cons.IH
      by (auto simp: delta_step_spec [OF assms] gains_Cons)
  qed
qed

lemma sorted_remdups_adj_strict: "sorted (xs :: 'a::linorder list) \<Longrightarrow> sorted_wrt (<) (remdups_adj xs)"
  by (induction xs rule: remdups_adj.induct) (auto simp: order.order_iff_strict)

definition wf_draws :: "StockAllocation list \<Rightarrow> bool" where
  "wf_draws ds \<longleftrightarrow> (\<forall>d\<in>set ds. wf_Ticks (sa_ticks d) \<and> sa_ticks d \<noteq> StockTicks_ZERO)"

definition changed_keys :: "StockAllocation list \<Rightarrow> StockAllocation list \<Rightarrow> (PoolId \<times> AgreementLineId) list" where
  "changed_keys current desired = sorted_list_of_set (draw_key ` (set current \<union> set desired))"

lemma changed_keys [simp]: "set (changed_keys a b) = draw_key ` (set a \<union> set b)"
  "distinct (changed_keys a b)" "sorted_wrt (<) (changed_keys a b)"
  by (simp_all add: changed_keys_def)

text \<open>When the planner admits its inputs, and what it then computes.\<close>

definition replacement_admits :: "StockAllocation list \<Rightarrow> StockAllocation list \<Rightarrow> PoolSnapshot list \<Rightarrow> bool" where
  "replacement_admits current desired pools \<longleftrightarrow>
     length current \<le> 64 \<and> length desired \<le> 64 \<and> length pools \<le> 96
     \<and> distinct (map ps_id pools) \<and> (\<forall>p\<in>set pools. sequence_get (ps_version p) \<noteq> 0)
     \<and> distinct (map draw_key current) \<and> distinct (map draw_key desired)
     \<and> sa_pool ` (set current \<union> set desired) \<subseteq> ps_id ` set pools"

lemma dom_pools [simp]: "dom (map_of (bt_collect (pool_entries pools))) = ps_id ` set pools"
  by (simp add: dom_map_of_conv_image_fst set_keys_bt_collect image_image)

lemma replacement_changes_Inr:
  assumes cur: "wf_draws current" and des: "wf_draws desired"
  shows "replacement_changes current desired pools = Inr (obs, ad, re, qs) \<longleftrightarrow>
    replacement_admits current desired pools \<and> obs = bt_collect (pool_entries pools)
    \<and> ad = gains current desired (changed_keys current desired)
    \<and> re = gains desired current (changed_keys current desired) \<and> pool_totals ad = Inr qs"
  (is "?l \<longleftrightarrow> ?r")
proof -
  have fold: "try_fold (delta_step before after) ([], [], []) (remdups_adj (sort (bt_keys before @ bt_keys after)))
      = Inr (ad, re, qs) \<longleftrightarrow> ad = gains current desired (changed_keys current desired)
    \<and> re = gains desired current (changed_keys current desired) \<and> pool_totals ad = Inr qs"
    if b: "try_fold (file_draw obs) [] current = Inr before"
      and a: "try_fold (file_draw obs) [] desired = Inr after" for obs before after
  proof -
    note fb = filed_ticks [OF b] and fa = filed_ticks [OF a]
    have wf: "\<And>k. wf_Ticks (ticks_or_zero before k)" "\<And>k. wf_Ticks (ticks_or_zero after k)"
      using fb(3) fa(3) cur des by (auto simp: wf_draws_def)
    let ?ks = "remdups_adj (sort (bt_keys before @ bt_keys after))"
    have "set ?ks = draw_key ` (set current \<union> set desired)"
      using fb(2) fa(2) by (simp add: image_Un)
    moreover have "sorted_wrt (<) ?ks" by (simp add: sorted_remdups_adj_strict)
    ultimately have "?ks = changed_keys current desired"
      using changed_keys by (intro strict_sorted_equal) simp_all
    then show ?thesis
      unfolding delta_steps_Inr [OF wf(1) fb(1) wf(2) fa(1)] by (auto simp: pool_totals_def)
  qed
  show ?thesis
  proof
    assume ?l
    then obtain before after where "observe_pools pools = Inr obs"
      and b: "try_fold (file_draw obs) [] current = Inr before"
      and a: "try_fold (file_draw obs) [] desired = Inr after"
      and "try_fold (delta_step before after) ([], [], [])
        (remdups_adj (sort (bt_keys before @ bt_keys after))) = Inr (ad, re, qs)"
      and "length current \<le> 64" "length desired \<le> 64" "length pools \<le> 96"
      by (auto simp: replacement_changes_def result_simps Let_def)
    moreover from this have "obs = bt_collect (pool_entries pools)" by (simp add: observe_pools_iff)
    ultimately show ?r
      unfolding fold [OF b a] by (auto simp: replacement_admits_def observe_pools_iff filing.inserts_iff)
  next
    assume r: ?r
    then obtain before after where b: "try_fold (file_draw obs) [] current = Inr before"
      and a: "try_fold (file_draw obs) [] desired = Inr after"
      by (auto simp: replacement_admits_def filing.inserts_iff)
    have "observe_pools pools = Inr obs" using r by (simp add: observe_pools_iff replacement_admits_def)
    with r b a fold [OF b a] show ?l
      by (auto simp: replacement_changes_def replacement_admits_def)
  qed
qed

lemma wf_gains:
  assumes "wf_draws to" and "distinct (map draw_key to)"
  shows "wf_draws (gains from to ks)"
proof -
  have "draw_at to k \<le> MAX_TICKS" for k
    using assms draw_at_member [OF assms(2)] draw_at_absent [of k to]
    by (cases "k \<in> draw_key ` set to") (auto simp: wf_draws_def wf_Ticks_def)
  then have "draw_at to k - m \<le> MAX_TICKS" for k m by (meson diff_le_self order_trans)
  then show ?thesis by (auto simp: wf_draws_def gains_def gain_def StockTicks_ZERO_def)
qed

lemma gains_keys: "map draw_key (gains a b ks) = filter (\<lambda>k. draw_at a k < draw_at b k) ks"
  by (simp add: gains_def o_def)

lemma gains_sorted: "sorted_wrt (<) ks \<Longrightarrow> sorted_wrt (<) (map draw_key (gains a b ks))"
  by (simp only: gains_keys) (simp add: sorted_wrt_filter)

section \<open>Retained pools\<close>

lemma ticks_quantity_value:
  assumes u: "wf_PoolUnit u" and q: "ticks_quantity t u = Inr q"
  shows "wf_Quantity q" and "qty_unit q = pu_unit u" and "base_value q = ticks_base u t"
proof -
  obtain d where d: "Decimal_from_parts (ticks_get t) (pu_scale u) = Inr d"
    and new: "Quantity_new d (pu_unit u) = Inr q"
    using q by (auto simp: ticks_quantity_def result_simps)
  note parts = from_parts_wf [OF d]
  show "wf_Quantity q" and "qty_unit q = pu_unit u" and "base_value q = ticks_base u t"
    using new parts by (auto simp: Quantity_new_def wf_Quantity_def base_value_def ticks_base_def split: if_splits)
qed

lemma Quantity_checked_add_value:
  assumes "wf_Quantity a" and "wf_Quantity b" and "Quantity_checked_add a b = Inr c"
  shows "wf_Quantity c" and "qty_unit c = qty_unit a" and "base_value c = base_value a + base_value b"
proof -
  have wf: "wf_Decimal (qty_amount a)" "wf_Decimal (qty_amount b)"
    using assms by (simp_all add: wf_Quantity_def)
  obtain unit: "qty_unit a = qty_unit b"
    and rep: "representable (micros (qty_amount a) + micros (qty_amount b))"
    and new: "Quantity_new (of_micros (micros (qty_amount a) + micros (qty_amount b))) (qty_unit a) = Inr c"
    using assms(3) by (auto simp: Quantity_checked_add_def checked_add_spec [OF wf] result_simps split: if_splits)
  show "wf_Quantity c" and "qty_unit c = qty_unit a"
    using new wf_of_micros [OF rep] by (auto simp: Quantity_new_def wf_Quantity_def split: if_splits)
  show "base_value c = base_value a + base_value b"
    using new unit by (auto simp: Quantity_new_def base_value_def algebra_simps split: if_splits)
qed

lemma add_original_value:
  assumes obs: "observed pools" and q: "wf_Quantity q" "qty_unit q = pu_unit (ps_unit tp)"
    and add: "add_original pools tp q d = Inr q'"
  shows "wf_Quantity q' \<and> qty_unit q' = pu_unit (ps_unit tp)
    \<and> base_value q' = base_value q + draw_value pools d \<and> sa_pool d \<in> dom (map_of pools)"
proof -
  obtain p v r where p: "map_of pools (sa_pool d) = Some p"
    and v: "ticks_quantity (sa_ticks d) (ps_unit p) = Inr v"
    and r: "Quantity_convert v (pu_unit (ps_unit tp)) = Inr r" and sum: "Quantity_checked_add q r = Inr q'"
    using add by (auto simp: add_original_def ticks_quantity_def result_simps)
  have "wf_PoolUnit (ps_unit p)" using obs p by (auto simp: observed_def wf_Snapshot_def)
  note tq = ticks_quantity_value [OF this v]
  note conv = convert_exact_Inr [OF tq(1) r]
  with Quantity_checked_add_value [OF q(1) _ sum] tq p q show ?thesis
    by (auto simp: draw_value_def)
qed

lemma add_originals_value:
  assumes obs: "observed pools"
    and "try_fold (add_original pools tp) q ds = Inr q'"
    and "wf_Quantity q" and "qty_unit q = pu_unit (ps_unit tp)"
  shows "wf_Quantity q' \<and> qty_unit q' = pu_unit (ps_unit tp)
    \<and> base_value q' = base_value q + (\<Sum>d\<leftarrow>ds. draw_value pools d)
    \<and> (\<forall>d\<in>set ds. sa_pool d \<in> dom (map_of pools))"
  using assms(2-)
proof (induction ds arbitrary: q)
  case Nil
  then show ?case by simp
next
  case (Cons d ds)
  then obtain r where "add_original pools tp q d = Inr r" and rest: "try_fold (add_original pools tp) r ds = Inr q'"
    by (auto simp: result_simps)
  from add_original_value [OF obs Cons.prems(2,3) this(1)] Cons.IH [OF rest] show ?case by simp
qed

text \<open>
  What replaces one desired draw: draws of the same line and of the same physical value. A line that
  is not served yet keeps the desired draw, a line served by one pool keeps that pool, and a line
  served by several pools keeps its draws.
\<close>

definition replaces ::
  "(PoolId, PoolSnapshot) btree_map \<Rightarrow> StockAllocation list \<Rightarrow> StockAllocation \<Rightarrow> StockAllocation list \<Rightarrow> bool" where
  "replaces pools current target ds \<longleftrightarrow>
     (\<forall>d\<in>set ds. sa_line d = sa_line target \<and> sa_ticks d \<noteq> StockTicks_ZERO \<and> sa_pool d \<in> dom (map_of pools))
     \<and> (\<Sum>d\<leftarrow>ds. draw_value pools d) = draw_value pools target
     \<and> (let originals = filter (\<lambda>old. sa_line old = sa_line target) current in
        (originals = [] \<longrightarrow> ds = [target]) \<and> (originals \<noteq> [] \<longrightarrow> map sa_pool ds = map sa_pool originals)
        \<and> (1 < length originals \<longrightarrow> ds = originals))"

lemma retain_pools_replaces:
  assumes obs: "observed pools" and cur: "wf_draws current" and nz: "sa_ticks target \<noteq> StockTicks_ZERO"
    and ds: "retain_pools pools current target = Inr ds"
  shows "replaces pools current target ds"
proof -
  let ?originals = "filter (\<lambda>old. sa_line old = sa_line target) current"
  obtain tp q where tp: "map_of pools (sa_pool target) = Some tp"
    and q: "ticks_quantity (sa_ticks target) (ps_unit tp) = Inr q"
    using ds by (auto simp: retain_pools_def result_simps Let_def)
  have unit: "wf_PoolUnit (ps_unit p)" if "map_of pools k = Some p" for k p
    using obs that by (auto simp: observed_def wf_Snapshot_def)
  note tq = ticks_quantity_value [OF unit [OF tp] q]
  then have want: "draw_value pools target = base_value q" using tp by (simp add: draw_value_def)
  consider "?originals = []" | d where "?originals = [d]" | d e es where "?originals = d # e # es"
    by (metis list.exhaust)
  then show ?thesis
  proof cases
    case 1
    with ds tp q nz show ?thesis by (auto simp: retain_pools_def replaces_def)
  next
    case (2 d)
    with ds tp q obtain p r t where p: "map_of pools (sa_pool d) = Some p"
      and r: "Quantity_convert q (pu_unit (ps_unit p)) = Inr r"
      and t: "PoolUnit_ticks_for (ps_unit p) r = Inr t" and "t \<noteq> StockTicks_ZERO"
      and "ds = [\<lparr>sa_line = sa_line target, sa_pool = sa_pool d, sa_ticks = t\<rparr>]"
      by (auto simp: retain_pools_def result_simps StockAllocation_new_def)
    with convert_ticks(1) [OF tq(1) unit [OF p] r t] 2 want show ?thesis
      by (auto simp: replaces_def draw_value_def)
  next
    case (3 d e es)
    with ds tp q obtain z s v where z: "Decimal_from_parts 0 0 = Inr z"
      and s: "Quantity_new z (pu_unit (ps_unit tp)) = Inr s"
      and v: "try_fold (add_original pools tp) s ?originals = Inr v"
      and t: "PoolUnit_ticks_for (ps_unit tp) v = Inr (sa_ticks target)" and out: "ds = ?originals"
      by (auto simp: retain_pools_def result_simps)
    have s': "wf_Quantity s" "qty_unit s = pu_unit (ps_unit tp)" "base_value s = 0"
      using s from_parts_wf [OF z] by (auto simp: Quantity_new_def wf_Quantity_def base_value_def split: if_splits)
    note sum = add_originals_value [OF obs v s'(1,2)]
    then have "micros (qty_amount v) = ticks_get (sa_ticks target) * 10 ^ (6 - pu_scale (ps_unit tp))"
      using t ticks_for_Inr [OF _ unit [OF tp]] by blast
    with sum have "base_value v = ticks_base (ps_unit tp) (sa_ticks target)"
      by (simp add: base_value_def ticks_base_def)
    with sum s'(3) have "(\<Sum>d\<leftarrow>?originals. draw_value pools d) = draw_value pools target"
      using tp by (simp add: draw_value_def)
    moreover have "?originals \<noteq> []" by (simp add: 3)
    ultimately show ?thesis
      using sum out cur unfolding replaces_def Let_def by (simp add: wf_draws_def)
  qed
qed

lemma retain_step_Inr:
  "retain_step pools current result target = Inr result' \<longleftrightarrow>
    (\<exists>ds. retain_pools pools current target = Inr ds \<and> result' = result @ ds)"
  by (auto simp: retain_step_def result_simps)

lemma retain_steps_replace:
  assumes obs: "observed pools" and cur: "wf_draws current"
    and "\<forall>t\<in>set targets. sa_ticks t \<noteq> StockTicks_ZERO"
    and "try_fold (retain_step pools current) result targets = Inr result'"
  shows "\<exists>dss. result' = result @ concat dss \<and> list_all2 (replaces pools current) targets dss"
  using assms(3-)
proof (induction targets arbitrary: result)
  case Nil
  then show ?case by simp
next
  case (Cons t targets)
  then obtain ds where ds: "retain_pools pools current t = Inr ds"
    and rest: "try_fold (retain_step pools current) (result @ ds) targets = Inr result'"
    by (auto simp: bindE_eq_Inr retain_step_Inr)
  have "replaces pools current t ds"
    using Cons.prems(1) by (intro retain_pools_replaces [OF obs cur _ ds]) simp
  moreover from Cons.IH [OF _ rest] Cons.prems(1) obtain dss
    where "result' = (result @ ds) @ concat dss" "list_all2 (replaces pools current) targets dss" by auto
  ultimately show ?case by (intro exI [of _ "ds # dss"]) simp
qed

text \<open>What replaces the draws of one line.\<close>

lemma replaces_line:
  assumes "list_all2 (replaces pools current) targets dss"
  shows "\<exists>dss'. filter (\<lambda>d. sa_line d = lid) (concat dss) = concat dss'
    \<and> list_all2 (replaces pools current) (filter (\<lambda>t. sa_line t = lid) targets) dss'"
  using assms
proof (induction rule: list_all2_induct)
  case Nil
  show ?case by (rule exI [of _ "[]"]) simp
next
  case (Cons t targets ds dss)
  then obtain dss' where dss': "filter (\<lambda>d. sa_line d = lid) (concat dss) = concat dss'"
    "list_all2 (replaces pools current) (filter (\<lambda>t. sa_line t = lid) targets) dss'" by blast
  have "filter (\<lambda>d. sa_line d = lid) ds = (if sa_line t = lid then ds else [])"
    using Cons.hyps(1) by (auto simp: replaces_def)
  with dss' Cons.hyps(1) show ?case
    by (intro exI [of _ "if sa_line t = lid then ds # dss' else dss'"]) simp
qed

lemma replaces_members:
  assumes "list_all2 (replaces pools current) targets dss" and "d \<in> set (concat dss)"
  shows "sa_ticks d \<noteq> StockTicks_ZERO \<and> (\<exists>t\<in>set targets. sa_line t = sa_line d)"
  using assms by (induction rule: list_all2_induct) (auto simp: replaces_def)

lemma line_steps_automatic:
  "try_fold (line_step obs None) acc lms = Inr r \<Longrightarrow>
    map (\<lambda>a. (sa_line a, sa_pool a)) r =
      map (\<lambda>a. (sa_line a, sa_pool a)) acc @ map (\<lambda>lm. (al_id (fst lm), mp_pool (snd lm))) lms"
proof (induction lms arbitrary: acc)
  case Nil
  then show ?case by simp
next
  case (Cons lm lms)
  then obtain acc' where acc': "line_step obs None acc lm = Inr acc'"
    and rest: "try_fold (line_step obs None) acc' lms = Inr r" by (auto simp: bindE_eq_Inr)
  from acc' obtain t where "acc' = acc @ [\<lparr>sa_line = al_id (fst lm), sa_pool = mp_pool (snd lm), sa_ticks = t\<rparr>]"
    by (auto simp: line_step_def bindE_eq_Inr case_prod_unfold split: if_splits)
  with Cons.IH [OF rest] show ?case by simp
qed

lemma filter_unique_key: "distinct (map k xs) \<Longrightarrow> x \<in> set xs \<Longrightarrow> filter (\<lambda>y. k y = k x) xs = [x]"
  by (induction xs) (auto simp: filter_empty_conv image_iff)

text \<open>Without explicit choices every line has one desired draw, on the pool its mapping names.\<close>

lemma resolve_automatic:
  assumes "wf_request terms mappings pools None" and "tm_supply terms = StockBacked"
    and "resolve_allocations terms mappings pools None = Inr desired"
    and lm: "lm \<in> set (zip (tm_lines terms) mappings)"
  obtains t where "filter (\<lambda>a. sa_line a = al_id (fst lm)) desired = [t]"
    and "sa_line t = al_id (fst lm)" and "sa_pool t = mp_pool (snd lm)"
proof -
  let ?f = "\<lambda>a. (sa_line a, sa_pool a)" and ?k = "\<lambda>lm. (al_id (fst lm), mp_pool (snd lm))"
  obtain m r where r: "try_fold (line_step m None) [] (zip (tm_lines terms) mappings) = Inr r"
    and d: "desired = sort_key (\<lambda>v. (sa_pool v, sa_line v)) r"
    using assms(2,3) by (auto simp: resolve_allocations_def result_simps split: if_splits)
  have "distinct (map (\<lambda>lm. al_id (fst lm)) (zip (tm_lines terms) mappings))"
    using assms(1) resolve_shape [OF assms(1-3)] by (simp add: wf_request_def zip_line_ids)
  from filter_unique_key [OF this lm]
  have "filter (\<lambda>p. fst p = al_id (fst lm)) (map ?k (zip (tm_lines terms) mappings)) = [?k lm]"
    by (simp add: filter_map comp_def)
  moreover have "map ?f r = map ?k (zip (tm_lines terms) mappings)" using line_steps_automatic [OF r] by simp
  moreover have "map ?f (filter (\<lambda>a. sa_line a = al_id (fst lm)) r) = filter (\<lambda>p. fst p = al_id (fst lm)) (map ?f r)"
    by (simp add: filter_map comp_def)
  ultimately have "map ?f (filter (\<lambda>a. sa_line a = al_id (fst lm)) r) = [?k lm]" by simp
  then obtain t where t: "filter (\<lambda>a. sa_line a = al_id (fst lm)) r = [t]" "?f t = ?k lm" by auto
  with that show ?thesis by (auto simp: d filter_sort)
qed

lemma draw_value_inject:
  assumes "sa_pool d \<in> dom (map_of pools)" and "sa_pool e = sa_pool d" and "sa_line e = sa_line d"
    and "draw_value pools e = draw_value pools d"
  shows "e = (d :: StockAllocation)"
proof -
  obtain p where p: "map_of pools (sa_pool d) = Some p" using assms(1) by auto
  have "base_factor (pu_unit (ps_unit p)) \<noteq> 0" by (cases "pu_unit (ps_unit p)") auto
  with assms(2,4) p have "ticks_get (sa_ticks e) = ticks_get (sa_ticks d)"
    by (simp add: draw_value_def ticks_base_def)
  with assms(2,3) show ?thesis by (cases e; cases d) (simp add: StockTicks.expand)
qed

text \<open>
  The draws of a line after an amendment: on the pool the mapping names when the line is new, else
  on the pools that serve it, and unchanged when there are several or when the need is unchanged.
\<close>

definition line_retained ::
  "(PoolId, PoolSnapshot) btree_map \<Rightarrow> AgreementLine \<Rightarrow> OptionPoolMapping \<Rightarrow> StockAllocation list
    \<Rightarrow> StockAllocation list \<Rightarrow> bool" where
  "line_retained pools line mapping old new \<longleftrightarrow>
     (\<Sum>a\<leftarrow>new. draw_value pools a) * 10 ^ 6 = need_value line mapping
     \<and> map sa_pool new = (if old = [] then [mp_pool mapping] else map sa_pool old)
     \<and> (1 < length old \<longrightarrow> new = old)
     \<and> (old \<noteq> [] \<longrightarrow> (\<Sum>a\<leftarrow>old. draw_value pools a) * 10 ^ 6 = need_value line mapping \<longrightarrow> new = old)"

lemma replaced_line_retained:
  assumes ds: "replaces pools current t ds" and pool: "sa_pool t = mp_pool mapping"
    and need: "draw_value pools t * 10 ^ 6 = need_value line mapping"
  shows "line_retained pools line mapping
    (sort_key draw_key (filter (\<lambda>d. sa_line d = sa_line t) current)) (sort_key draw_key ds)"
proof -
  define old where "old = filter (\<lambda>d. sa_line d = sa_line t) current"
  have served: "\<forall>d\<in>set ds. sa_line d = sa_line t \<and> sa_pool d \<in> dom (map_of pools)"
    and sum: "(\<Sum>d\<leftarrow>ds. draw_value pools d) = draw_value pools t" and new: "old = [] \<Longrightarrow> ds = [t]"
    and same: "old \<noteq> [] \<Longrightarrow> map sa_pool ds = map sa_pool old" and many: "1 < length old \<Longrightarrow> ds = old"
    using ds unfolding replaces_def Let_def old_def [symmetric] by blast+
  have total: "(\<Sum>d\<leftarrow>sort_key draw_key ds. draw_value pools d) * 10 ^ 6 = need_value line mapping"
    using sum need by (simp only: sum_list_sort_key)
  consider "old = []" | d where "old = [d]" | "1 < length old"
    by (metis One_nat_def length_Suc_conv length_greater_0_conv less_one linorder_neqE_nat length_0_conv)
  then have "line_retained pools line mapping (sort_key draw_key old) (sort_key draw_key ds)"
  proof cases
    case 1
    with new total pool show ?thesis by (simp add: line_retained_def)
  next
    case (2 d)
    then obtain e where e: "ds = [e]" "sa_pool e = sa_pool d" using same by auto
    have "d \<in> set old" using 2 by simp
    then have "sa_line d = sa_line t" unfolding old_def by simp
    with served e have "e = d" if "draw_value pools d * 10 ^ 6 = need_value line mapping"
      using sum need that by (intro draw_value_inject [of d pools e]) simp_all
    with total 2 e show ?thesis by (simp add: line_retained_def)
  next
    case 3
    with many have "ds = old" by blast
    moreover have "sort_key draw_key old \<noteq> []" using 3 by (metis length_sort list.size(3) not_less_zero)
    ultimately show ?thesis using total by (simp add: line_retained_def)
  qed
  then show ?thesis unfolding old_def .
qed

section \<open>Properties\<close>

text \<open>C17: the plan of a replacement is the exact net change. For every pool and line the
  current draw plus what is acquired equals the desired draw plus what is released, never both
  acquiring and releasing for the same pair. Holds are proposed for the acquired draws only: one
  per pool, for exactly their sum, so a release never finances an acquisition. The planner's
  lookups never fail.\<close>

theorem plan_replacement_net:
  assumes "wf_draws current" and "wf_draws desired" and "\<forall>p\<in>set pools. wf_Snapshot p"
  shows "plan_replacement_allocations current desired pools \<noteq> None
    \<and> (\<forall>plan. plan_replacement_allocations current desired pools = Some (Inr plan) \<longrightarrow>
        (\<forall>k. draw_at current k + draw_at (rp_additional plan) k = draw_at desired k + draw_at (rp_releases plan) k
          \<and> (draw_at (rp_additional plan) k = 0 \<or> draw_at (rp_releases plan) k = 0))
        \<and> wf_draws (rp_additional plan) \<and> wf_draws (rp_releases plan)
        \<and> sorted_wrt (<) (map (\<lambda>h. ps_id (hp_before h)) (rp_holds plan))
        \<and> (\<lambda>h. ps_id (hp_before h)) ` set (rp_holds plan) = sa_pool ` set (rp_additional plan)
        \<and> (\<forall>h\<in>set (rp_holds plan). exact_hold pools (rp_additional plan) h))"
proof (cases "replacement_changes current desired pools")
  case (Inl e)
  then show ?thesis by (simp add: plan_replacement_allocations_def)
next
  case (Inr changes)
  obtain obs ad re qs where changes: "changes = (obs, ad, re, qs)" by (cases changes)
  let ?ks = "changed_keys current desired"
  from Inr have adm: "replacement_admits current desired pools"
    and obs: "obs = bt_collect (pool_entries pools)" and ad: "ad = gains current desired ?ks"
    and re: "re = gains desired current ?ks" and qs: "pool_totals ad = Inr qs"
    unfolding changes replacement_changes_Inr [OF assms(1,2)] by blast+
  have wf: "wf_draws ad" "wf_draws re" using adm assms by (simp_all add: ad re wf_gains replacement_admits_def)
  have net: "draw_at current k + draw_at ad k = draw_at desired k + draw_at re k
      \<and> (draw_at ad k = 0 \<or> draw_at re k = 0)" for k
    using draw_at_absent [of k current] draw_at_absent [of k desired]
    by (cases "k \<in> set ?ks") (auto simp: ad re draw_at_gains image_Un)
  have "sa_pool ` set ad \<subseteq> ps_id ` set pools"
    using adm by (auto simp: ad gains_def replacement_admits_def)
  note totals = pool_totals_Inr [OF qs]
  have "hold_effects obs qs \<noteq> None"
    using totals(2) wf(1) \<open>sa_pool ` set ad \<subseteq> _\<close> by (intro hold_effects_total) (simp add: obs wf_draws_def)
  moreover have "sorted_wrt (<) (map (\<lambda>h. ps_id (hp_before h)) holds)
      \<and> (\<lambda>h. ps_id (hp_before h)) ` set holds = sa_pool ` set ad \<and> (\<forall>h\<in>set holds. exact_hold pools ad h)"
    if "hold_effects obs qs = Some (Inr holds)" for holds
    using hold_effects_exact [OF _ assms(3) totals that [unfolded obs]] adm wf(1)
    by (auto simp: replacement_admits_def wf_draws_def)
  ultimately show ?thesis
    using net wf
    by (simp add: plan_replacement_allocations_def Inr changes map_ok_eq_Inr del: split_paired_All)
      (intro allI impI, elim exE conjE, simp del: split_paired_All)
qed

definition sample_grown :: StockAllocation where
  "sample_grown = sample_draw\<lparr>sa_ticks := StockTicks 48\<rparr>"

lemma sample_draws: "wf_draws [sample_draw]" "wf_draws [sample_grown]"
  by code_simp+

lemma sample_egg_pools: "\<forall>p\<in>set [sample_egg_pool]. wf_Snapshot p"
  by code_simp

theorem plan_replacement_net_witness:
  "\<exists>plan. plan_replacement_allocations [sample_draw] [sample_grown] [sample_egg_pool] = Some (Inr plan)
    \<and> 36 + draw_at (rp_additional plan) (draw_key sample_draw)
      = 48 + draw_at (rp_releases plan) (draw_key sample_draw)"
proof -
  have "\<not> isl (the (plan_replacement_allocations [sample_draw] [sample_grown] [sample_egg_pool]))"
    by code_simp
  moreover have at: "draw_at [sample_draw] (draw_key sample_draw) = 36"
      "draw_at [sample_grown] (draw_key sample_draw) = 48"
    by code_simp+
  ultimately show ?thesis
    using plan_replacement_net [OF sample_draws sample_egg_pools] unfolding not_isl_iff
    by (metis at option.exhaust_sel)
qed

text \<open>Replacing draws by themselves changes nothing: whenever the inputs are within bounds,
  name observed pools and repeat no pool and line, the plan is empty, whatever the balances.\<close>

theorem plan_replacement_identity:
  assumes "wf_draws draws"
  shows "plan_replacement_allocations draws draws pools =
      Some (Inr \<lparr>rp_additional = [], rp_releases = [], rp_holds = []\<rparr>) \<longleftrightarrow>
    replacement_admits draws draws pools"
proof -
  have none: "gains draws draws ks = []" for ks by (simp add: gains_def)
  have totals: "pool_totals [] = Inr []" by (simp add: pool_totals_def)
  show ?thesis
  proof
    assume "replacement_admits draws draws pools"
    then have "replacement_changes draws draws pools = Inr (bt_collect (pool_entries pools), [], [], [])"
      by (simp add: replacement_changes_Inr [OF assms assms] none totals)
    then show "plan_replacement_allocations draws draws pools =
        Some (Inr \<lparr>rp_additional = [], rp_releases = [], rp_holds = []\<rparr>)"
      by (simp add: plan_replacement_allocations_def)
  next
    assume "plan_replacement_allocations draws draws pools =
        Some (Inr \<lparr>rp_additional = [], rp_releases = [], rp_holds = []\<rparr>)"
    then obtain obs ad re qs where "replacement_changes draws draws pools = Inr (obs, ad, re, qs)"
      by (auto simp: plan_replacement_allocations_def split: sum.splits)
    then show "replacement_admits draws draws pools"
      by (simp add: replacement_changes_Inr [OF assms assms])
  qed
qed

theorem plan_replacement_identity_witness:
  "plan_replacement_allocations [sample_draw] [sample_draw] [sample_egg_pool]
    = Some (Inr \<lparr>rp_additional = [], rp_releases = [], rp_holds = []\<rparr>)"
proof -
  have "replacement_admits [sample_draw] [sample_draw] [sample_egg_pool]" by code_simp
  with plan_replacement_identity [OF sample_draws(1)] show ?thesis by blast
qed

text \<open>C18: resolving amended terms without explicit choices covers every line exactly and keeps existing
  draws in place. Every draw belongs to a line of the terms. A line without draws draws on the pool its
  mapping names. A line with draws keeps exactly the pools it has, one draw on each, even when its
  mapping now names another pool; a line with several draws keeps every one of them unchanged, and so
  does a line with one draw whose need has not changed.\<close>

theorem resolve_replacement_retains:
  assumes "wf_request terms mappings pools None" and "wf_draws current"
    and "tm_supply terms = StockBacked"
    and "resolve_replacement_allocations terms mappings pools None current = Some (Inr allocs)"
  shows "(\<forall>a\<in>set allocs. sa_ticks a \<noteq> StockTicks_ZERO \<and> sa_line a \<in> al_id ` set (tm_lines terms))
    \<and> (\<forall>(line, mapping)\<in>set (zip (tm_lines terms) mappings).
        let value = (\<lambda>ds. (\<Sum>d\<leftarrow>ds. draw_value (bt_collect (pool_entries pools)) d) * 10 ^ 6);
            old = sort_key (\<lambda>d. (sa_pool d, sa_line d)) (filter (\<lambda>d. sa_line d = al_id line) current);
            new = filter (\<lambda>a. sa_line a = al_id line) allocs
        in value new = need_value line mapping
          \<and> map sa_pool new = (if old = [] then [mp_pool mapping] else map sa_pool old)
          \<and> (1 < length old \<longrightarrow> new = old)
          \<and> (old \<noteq> [] \<longrightarrow> value old = need_value line mapping \<longrightarrow> new = old))"
proof -
  let ?pools = "bt_collect (pool_entries pools)"
  obtain desired result where res: "resolve_allocations terms mappings pools None = Inr desired"
    and steps: "try_fold (retain_step ?pools current) [] desired = Inr result"
    and allocs: "allocs = sort_key (\<lambda>v. (sa_pool v, sa_line v)) result"
    using assms(3,4) by (auto simp: resolve_replacement_allocations_def result_simps)
  have obs: "observed ?pools"
    using assms(1) resolve_pools_distinct(1) [OF res] by (auto simp: observed_def collected_pool wf_request_def)
  note draws = resolve_draws [OF assms(1) res]
  obtain dss where result: "result = concat dss" and dss: "list_all2 (replaces ?pools current) desired dss"
    using retain_steps_replace [OF obs assms(2) _ steps] draws by auto
  have "sa_ticks a \<noteq> StockTicks_ZERO \<and> sa_line a \<in> al_id ` set (tm_lines terms)" if "a \<in> set allocs" for a
  proof -
    have "a \<in> set (concat dss)" using that by (simp add: allocs result)
    from replaces_members [OF dss this] draws show ?thesis by metis
  qed
  moreover have "line_retained ?pools (fst lm) (snd lm)
      (sort_key draw_key (filter (\<lambda>d. sa_line d = al_id (fst lm)) current))
      (filter (\<lambda>a. sa_line a = al_id (fst lm)) allocs)" if lm: "lm \<in> set (zip (tm_lines terms) mappings)" for lm
  proof -
    obtain t where t: "filter (\<lambda>a. sa_line a = al_id (fst lm)) desired = [t]"
      and line: "sa_line t = al_id (fst lm)" and pool: "sa_pool t = mp_pool (snd lm)"
      using assms(1,3) res lm by (rule resolve_automatic)
    obtain ds where ds: "replaces ?pools current t ds"
      and new: "filter (\<lambda>a. sa_line a = al_id (fst lm)) (concat dss) = ds"
      using replaces_line [OF dss, of "al_id (fst lm)"] by (auto simp: t list_all2_Cons1)
    have "draw_value ?pools t * 10 ^ 6 = need_value (fst lm) (snd lm)"
      using resolve_line_totals [OF assms(1,3) res] lm t by auto
    from replaced_line_retained [OF ds pool this] show ?thesis
      by (simp add: allocs result filter_sort new line)
  qed
  ultimately show ?thesis unfolding line_retained_def Let_def by fastforce
qed

definition sample_other_pool :: PoolSnapshot where
  "sample_other_pool = sample_egg_pool\<lparr>ps_id := from_bytes (replicate 32 8)\<rparr>"

definition sample_kept :: StockAllocation where
  "sample_kept = sample_draw\<lparr>sa_pool := from_bytes (replicate 32 8), sa_ticks := StockTicks 12\<rparr>"

lemma sample_amendment: "wf_request sample_terms [sample_egg_mapping] [sample_egg_pool, sample_other_pool] None"
proof -
  have "wf_Snapshot sample_other_pool" by code_simp
  with sample_request show ?thesis by (simp add: wf_request_def)
qed

definition sample_split :: "StockAllocation list" where
  "sample_split = [sample_draw\<lparr>sa_ticks := StockTicks 24\<rparr>, sample_kept]"

lemma sample_single_resolved:
  "resolve_replacement_allocations sample_terms [sample_egg_mapping] [sample_egg_pool, sample_other_pool]
      None [sample_kept] = Some (Inr [sample_kept\<lparr>sa_ticks := StockTicks 36\<rparr>])"
  by code_simp

lemma sample_split_resolved:
  "resolve_replacement_allocations sample_terms [sample_egg_mapping] [sample_egg_pool, sample_other_pool]
      None sample_split = Some (Inr sample_split)"
  by code_simp

theorem resolve_replacement_retains_witness:
  "draw_value (bt_collect (pool_entries [sample_egg_pool, sample_other_pool])) (sample_kept\<lparr>sa_ticks := StockTicks 36\<rparr>)
     * 10 ^ 6 = need_value sample_line sample_egg_mapping
   \<and> sa_pool sample_kept \<noteq> mp_pool sample_egg_mapping
   \<and> (\<Sum>d\<leftarrow>sample_split. draw_value (bt_collect (pool_entries [sample_egg_pool, sample_other_pool])) d)
     * 10 ^ 6 = need_value sample_line sample_egg_mapping"
proof -
  have wf: "wf_draws [sample_kept]" "wf_draws sample_split" and stock: "tm_supply sample_terms = StockBacked"
    by code_simp+
  have zip: "(sample_line, sample_egg_mapping) \<in> set (zip (tm_lines sample_terms) [sample_egg_mapping])"
    by (simp add: sample_terms_def)
  have own: "sa_line sample_kept = al_id sample_line"
    "filter (\<lambda>a. sa_line a = al_id sample_line) sample_split = sample_split"
    by (simp_all add: sample_split_def sample_kept_def sample_draw_def)
  have "sa_pool sample_kept \<noteq> mp_pool sample_egg_mapping" by code_simp
  moreover note bspec [OF resolve_replacement_retains [OF sample_amendment wf(1) stock sample_single_resolved, THEN conjunct2] zip]
    bspec [OF resolve_replacement_retains [OF sample_amendment wf(2) stock sample_split_resolved, THEN conjunct2] zip]
  ultimately show ?thesis by (simp add: own Let_def)
qed

end
