(* ===== verification/Commerce.thy ===== *)
theory Commerce
  imports Agreement Descriptors
begin

text \<open>
  Private commerce records of \<open>crates/domain/src/commerce.rs\<close>, \<open>commerce/value.rs\<close> and
  \<open>commerce/payload.rs\<close>: the nineteen payload families with their bounds, the common header with
  its causal parents, and the self-contained admission of a record: order, role of the author and
  coverage of every reference by a declared parent.
\<close>

section \<open>Values\<close>

datatype CommerceError =
    PartiesCoincide
  | InvalidAuthor
  | InvalidOrder
  | InvalidSequence
  | InvalidPrevious
  | InvalidParents
  | MissingParent
  | TermsPartiesMismatch
  | InvalidText
  | InvalidLines
  | InvalidMeasurements
  | InvalidReferences

record LineQuantity =
  lq_line_id :: AgreementLineId
  lq_amount :: Decimal

record FinalMeasurement =
  fm_line_id :: AgreementLineId
  fm_quantity :: Quantity
  fm_line_total :: Money

datatype IssueCode = Shortage | Quality | Substitution | Collection | Excess | Other

fun IssueCode_as_str :: "IssueCode \<Rightarrow> string" where
  "IssueCode_as_str Shortage = ''shortage''"
| "IssueCode_as_str Quality = ''quality''"
| "IssueCode_as_str Substitution = ''substitution''"
| "IssueCode_as_str Collection = ''collection''"
| "IssueCode_as_str Excess = ''excess''"
| "IssueCode_as_str Other = ''other''"

definition commerce_text :: "string \<Rightarrow> nat \<Rightarrow> CommerceError + unit" where
  "commerce_text v maximum =
     (if maximum * 4 < length v \<or> maximum < chars_count v then Inl InvalidText else Inr ())"

definition commerce_lines :: "LineQuantity list \<Rightarrow> nat \<Rightarrow> CommerceError + unit" where
  "commerce_lines lines minimum =
     (if length lines < minimum \<or> 32 < length lines then Inl InvalidLines
      else if has_duplicate lq_line_id lines then Inl InvalidLines
      else Inr ())"

definition commerce_records :: "RecordId list \<Rightarrow> nat \<Rightarrow> CommerceError + unit" where
  "commerce_records records minimum =
     (if length records < minimum \<or> 32 < length records then Inl InvalidReferences
      else if has_duplicate (\<lambda>r. r) records then Inl InvalidReferences
      else Inr ())"

record IssueReport =
  ir_code :: IssueCode
  ir_description :: string
  ir_lines :: "LineQuantity list"
  ir_source_records :: "RecordId list"

definition IssueReport_new ::
  "IssueCode \<Rightarrow> string \<Rightarrow> LineQuantity list \<Rightarrow> RecordId list \<Rightarrow> CommerceError + IssueReport" where
  "IssueReport_new code description lines source_records =
     bindE (commerce_text description 2048) (\<lambda>_.
     bindE (commerce_lines lines 0) (\<lambda>_.
     bindE (commerce_records source_records 0) (\<lambda>_.
       Inr \<lparr>ir_code = code, ir_description = description, ir_lines = lines,
            ir_source_records = source_records\<rparr>)))"

record Resolution =
  rs_issues :: "RecordId list"
  rs_accepted_receipts :: "RecordId list"
  rs_release_residual :: "LineQuantity list"
  rs_summary :: string

definition Resolution_new ::
  "RecordId list \<Rightarrow> RecordId list \<Rightarrow> LineQuantity list \<Rightarrow> string \<Rightarrow> CommerceError + Resolution" where
  "Resolution_new issues accepted_receipts residual summary =
     bindE (commerce_records issues 1) (\<lambda>_.
     bindE (commerce_records accepted_receipts 0) (\<lambda>_.
     bindE (commerce_lines residual 0) (\<lambda>_.
     bindE (commerce_text summary 2048) (\<lambda>_.
       Inr \<lparr>rs_issues = issues, rs_accepted_receipts = accepted_receipts,
            rs_release_residual = residual, rs_summary = summary\<rparr>))))"

section \<open>Payloads\<close>

definition positive_sequence :: "Sequence \<Rightarrow> CommerceError + unit" where
  "positive_sequence s = (if sequence_get s = 0 then Inl InvalidSequence else Inr ())"

record TermsQuote =
  tq_terms :: Terms
  tq_expires_at :: UnixSeconds
  tq_in_reply_to :: "SourceId option"

record TermsRequest =
  tr_terms :: Terms
  tr_expires_at :: UnixSeconds
  tr_quote :: "RecordId option"

record RecordReason =
  rr_target :: RecordId
  rr_reason :: string

definition RecordReason_new :: "RecordId \<Rightarrow> string \<Rightarrow> CommerceError + RecordReason" where
  "RecordReason_new target reason =
     bindE (commerce_text reason 1024) (\<lambda>_. Inr \<lparr>rr_target = target, rr_reason = reason\<rparr>)"

record TermsProposal =
  tp_base_agreement :: "RecordId option"
  tp_terms :: Terms
  tp_expires_at :: UnixSeconds
  tp_reason :: string

definition TermsProposal_new ::
  "RecordId option \<Rightarrow> Terms \<Rightarrow> UnixSeconds \<Rightarrow> string \<Rightarrow> CommerceError + TermsProposal" where
  "TermsProposal_new base_agreement terms expires_at reason =
     bindE (commerce_text reason 1024) (\<lambda>_.
       Inr \<lparr>tp_base_agreement = base_agreement, tp_terms = terms, tp_expires_at = expires_at,
            tp_reason = reason\<rparr>)"

record TermsAuthorization =
  ta_proposal :: RecordId
  ta_terms_digest :: TermsDigest
  ta_expires_at :: UnixSeconds

record ProposalAuthorization =
  pa_proposal :: RecordId
  pa_expires_at :: UnixSeconds

record AgreementCommitment =
  cm_base_agreement :: "RecordId option"
  cm_authorization :: RecordId
  cm_terms_digest :: TermsDigest
  cm_authority :: AuthorityRef
  cm_seller_sequence :: Sequence

definition AgreementCommitment_new ::
  "RecordId option \<Rightarrow> RecordId \<Rightarrow> TermsDigest \<Rightarrow> AuthorityRef \<Rightarrow> Sequence
    \<Rightarrow> CommerceError + AgreementCommitment" where
  "AgreementCommitment_new base_agreement authorization terms_digest authority seller_sequence =
     bindE (positive_sequence seller_sequence) (\<lambda>_.
       Inr \<lparr>cm_base_agreement = base_agreement, cm_authorization = authorization,
            cm_terms_digest = terms_digest, cm_authority = authority,
            cm_seller_sequence = seller_sequence\<rparr>)"

record WithdrawalAcknowledgement =
  wa_withdrawal :: RecordId
  wa_seller_sequence :: Sequence

definition WithdrawalAcknowledgement_new ::
  "RecordId \<Rightarrow> Sequence \<Rightarrow> CommerceError + WithdrawalAcknowledgement" where
  "WithdrawalAcknowledgement_new withdrawal seller_sequence =
     bindE (positive_sequence seller_sequence) (\<lambda>_.
       Inr \<lparr>wa_withdrawal = withdrawal, wa_seller_sequence = seller_sequence\<rparr>)"

record CancellationProposal =
  cp_agreement :: RecordId
  cp_residual :: "LineQuantity list"
  cp_reason :: string
  cp_expires_at :: UnixSeconds

definition CancellationProposal_new ::
  "RecordId \<Rightarrow> LineQuantity list \<Rightarrow> string \<Rightarrow> UnixSeconds \<Rightarrow> CommerceError + CancellationProposal" where
  "CancellationProposal_new agreement residual reason expires_at =
     bindE (commerce_lines residual 1) (\<lambda>_.
     bindE (commerce_text reason 1024) (\<lambda>_.
       Inr \<lparr>cp_agreement = agreement, cp_residual = residual, cp_reason = reason,
            cp_expires_at = expires_at\<rparr>))"

record ResidualRelease =
  rl_proposal :: RecordId
  rl_authorization :: RecordId
  rl_agreement :: RecordId
  rl_residual :: "LineQuantity list"
  rl_authority :: AuthorityRef
  rl_seller_sequence :: Sequence

definition ResidualRelease_new ::
  "RecordId \<Rightarrow> RecordId \<Rightarrow> RecordId \<Rightarrow> LineQuantity list \<Rightarrow> AuthorityRef \<Rightarrow> Sequence
    \<Rightarrow> CommerceError + ResidualRelease" where
  "ResidualRelease_new proposal authorization agreement residual authority seller_sequence =
     bindE (commerce_lines residual 1) (\<lambda>_.
     bindE (positive_sequence seller_sequence) (\<lambda>_.
       Inr \<lparr>rl_proposal = proposal, rl_authorization = authorization, rl_agreement = agreement,
            rl_residual = residual, rl_authority = authority, rl_seller_sequence = seller_sequence\<rparr>))"

record ReadinessClaim =
  rc_agreement :: RecordId
  rc_fulfillment_group :: FulfillmentGroupId
  rc_lines :: "LineQuantity list"
  rc_window :: Window

definition ReadinessClaim_new ::
  "RecordId \<Rightarrow> FulfillmentGroupId \<Rightarrow> LineQuantity list \<Rightarrow> Window \<Rightarrow> CommerceError + ReadinessClaim" where
  "ReadinessClaim_new agreement fulfillment_group lines window =
     bindE (commerce_lines lines 1) (\<lambda>_.
       Inr \<lparr>rc_agreement = agreement, rc_fulfillment_group = fulfillment_group, rc_lines = lines,
            rc_window = window\<rparr>)"

record HandoverClaim =
  hc_agreement :: RecordId
  hc_fulfillment_group :: FulfillmentGroupId
  hc_lines :: "LineQuantity list"
  hc_measurements :: "FinalMeasurement list"
  hc_occurred_at :: UnixSeconds
  hc_authority :: AuthorityRef
  hc_seller_sequence :: Sequence

text \<open>The loop over the measurements; the second argument is \<open>measurements[..index]\<close>.\<close>

fun check_measurements ::
  "LineQuantity list \<Rightarrow> FinalMeasurement list \<Rightarrow> FinalMeasurement list \<Rightarrow> CommerceError + unit" where
  "check_measurements lines seen [] = Inr ()"
| "check_measurements lines seen (m # rest) =
     (if \<not> (\<exists>line\<in>set lines. lq_line_id line = fm_line_id m)
         \<or> (\<exists>prior\<in>set seen. fm_line_id prior = fm_line_id m)
      then Inl InvalidMeasurements
      else check_measurements lines (seen @ [m]) rest)"

definition HandoverClaim_new ::
  "RecordId \<Rightarrow> FulfillmentGroupId \<Rightarrow> LineQuantity list \<Rightarrow> FinalMeasurement list \<Rightarrow> UnixSeconds
    \<Rightarrow> AuthorityRef \<Rightarrow> Sequence \<Rightarrow> CommerceError + HandoverClaim" where
  "HandoverClaim_new agreement fulfillment_group lines measurements occurred_at authority seller_sequence =
     bindE (commerce_lines lines 1) (\<lambda>_.
     bindE (positive_sequence seller_sequence) (\<lambda>_.
     if 32 < length measurements then Inl InvalidMeasurements
     else bindE (check_measurements lines [] measurements) (\<lambda>_.
       Inr \<lparr>hc_agreement = agreement, hc_fulfillment_group = fulfillment_group, hc_lines = lines,
            hc_measurements = measurements, hc_occurred_at = occurred_at, hc_authority = authority,
            hc_seller_sequence = seller_sequence\<rparr>)))"

record ReceiptObservation =
  ro_handover :: RecordId
  ro_lines :: "LineQuantity list"
  ro_supersedes :: "RecordId option"
  ro_occurred_at :: UnixSeconds
  ro_note :: string

definition ReceiptObservation_new ::
  "RecordId \<Rightarrow> LineQuantity list \<Rightarrow> RecordId option \<Rightarrow> UnixSeconds \<Rightarrow> string
    \<Rightarrow> CommerceError + ReceiptObservation" where
  "ReceiptObservation_new handover lines supersedes occurred_at note_text =
     bindE (commerce_lines lines 1) (\<lambda>_.
     bindE (commerce_text note_text 1024) (\<lambda>_.
       Inr \<lparr>ro_handover = handover, ro_lines = lines, ro_supersedes = supersedes,
            ro_occurred_at = occurred_at, ro_note = note_text\<rparr>))"

record ResolutionProposal =
  rp_agreement :: RecordId
  rp_resolution :: Resolution
  rp_expires_at :: UnixSeconds

record ResolutionCommitment =
  rm_proposal :: RecordId
  rm_authorization :: RecordId
  rm_authority :: AuthorityRef
  rm_seller_sequence :: Sequence

definition ResolutionCommitment_new ::
  "RecordId \<Rightarrow> RecordId \<Rightarrow> AuthorityRef \<Rightarrow> Sequence \<Rightarrow> CommerceError + ResolutionCommitment" where
  "ResolutionCommitment_new proposal authorization authority seller_sequence =
     bindE (positive_sequence seller_sequence) (\<lambda>_.
       Inr \<lparr>rm_proposal = proposal, rm_authorization = authorization, rm_authority = authority,
            rm_seller_sequence = seller_sequence\<rparr>)"

section \<open>Headers\<close>

definition record_source :: "RecordId \<Rightarrow> SourceId" where
  "record_source r = from_bytes (id_bytes r)"

definition event_source :: "EnvelopeEventId \<Rightarrow> SourceId" where
  "event_source e = from_bytes (id_bytes e)"

record CommerceHeader =
  ch_thread_id :: ThreadId
  ch_order_id :: "OrderId option"
  ch_author :: PublicKey
  ch_buyer :: PublicKey
  ch_seller :: PublicKey
  ch_created_at :: UnixSeconds
  ch_author_sequence :: Sequence
  ch_author_previous :: "RecordId option"
  ch_parents :: "SourceId list"

definition MAX_PARENTS :: nat where
  "MAX_PARENTS = 8"

text \<open>\<open>parents.windows(2).any(|pair| pair[0] >= pair[1])\<close>\<close>

fun window_not_increasing :: "SourceId list \<Rightarrow> bool" where
  "window_not_increasing (a # b # rest) = (b \<le> a \<or> window_not_increasing (b # rest))"
| "window_not_increasing _ = False"

definition CommerceHeader_new ::
  "ThreadId \<Rightarrow> OrderId option \<Rightarrow> PublicKey \<Rightarrow> PublicKey \<Rightarrow> PublicKey \<Rightarrow> UnixSeconds \<Rightarrow> Sequence
    \<Rightarrow> RecordId option \<Rightarrow> SourceId list \<Rightarrow> CommerceError + CommerceHeader" where
  "CommerceHeader_new thread_id order_id author buyer seller created_at author_sequence
      author_previous parents =
     (if buyer = seller then Inl PartiesCoincide
      else if author \<noteq> buyer \<and> author \<noteq> seller then Inl InvalidAuthor
      else if sequence_get author_sequence = 0 then Inl InvalidSequence
      else if (sequence_get author_sequence = 1) \<noteq> (author_previous = None) then Inl InvalidPrevious
      else if MAX_PARENTS < length parents \<or> window_not_increasing parents then Inl InvalidParents
      else if (case author_previous of None \<Rightarrow> False
               | Some previous \<Rightarrow> record_source previous \<notin> set parents)
      then Inl MissingParent
      else Inr \<lparr>ch_thread_id = thread_id, ch_order_id = order_id, ch_author = author, ch_buyer = buyer,
                ch_seller = seller, ch_created_at = created_at, ch_author_sequence = author_sequence,
                ch_author_previous = author_previous, ch_parents = parents\<rparr>)"

definition require :: "CommerceHeader \<Rightarrow> SourceId \<Rightarrow> CommerceError + unit" where
  "require h parent = (if parent \<in> set (ch_parents h) then Inr () else Inl MissingParent)"

definition require_record :: "CommerceHeader \<Rightarrow> RecordId \<Rightarrow> CommerceError + unit" where
  "require_record h parent = require h (record_source parent)"

definition require_optional :: "CommerceHeader \<Rightarrow> RecordId option \<Rightarrow> CommerceError + unit" where
  "require_optional h parent = (case parent of Some p \<Rightarrow> require_record h p | None \<Rightarrow> Inr ())"

definition header_terms :: "CommerceHeader \<Rightarrow> Terms \<Rightarrow> CommerceError + unit" where
  "header_terms h terms =
     (if tm_buyer terms \<noteq> ch_buyer h \<or> tm_seller terms \<noteq> ch_seller h then Inl TermsPartiesMismatch
      else try_all (\<lambda>line. require h (event_source (rev_event_id (al_source line)))) (tm_lines terms))"

section \<open>Record families\<close>

datatype CommerceType =
    TyQuote | TyRequest | TyDecline | TyTermsProposed | TyTermsAuthorized | TyTermsRejected
  | TyAgreementCommitted | TyWithdrawalRequested | TyWithdrawalAcknowledged | TyCancellationProposed
  | TyCancellationAuthorized | TyResidualReleased | TyReady | TyHandover | TyReceipt | TyIssue
  | TyResolutionProposed | TyResolutionAuthorized | TyResolutionCommitted

fun CommerceType_as_str :: "CommerceType \<Rightarrow> string" where
  "CommerceType_as_str TyQuote = ''quote''"
| "CommerceType_as_str TyRequest = ''request''"
| "CommerceType_as_str TyDecline = ''decline''"
| "CommerceType_as_str TyTermsProposed = ''terms_proposed''"
| "CommerceType_as_str TyTermsAuthorized = ''terms_authorized''"
| "CommerceType_as_str TyTermsRejected = ''terms_rejected''"
| "CommerceType_as_str TyAgreementCommitted = ''agreement_committed''"
| "CommerceType_as_str TyWithdrawalRequested = ''withdrawal_requested''"
| "CommerceType_as_str TyWithdrawalAcknowledged = ''withdrawal_acknowledged''"
| "CommerceType_as_str TyCancellationProposed = ''cancellation_proposed''"
| "CommerceType_as_str TyCancellationAuthorized = ''cancellation_authorized''"
| "CommerceType_as_str TyResidualReleased = ''residual_released''"
| "CommerceType_as_str TyReady = ''ready''"
| "CommerceType_as_str TyHandover = ''handover''"
| "CommerceType_as_str TyReceipt = ''receipt''"
| "CommerceType_as_str TyIssue = ''issue''"
| "CommerceType_as_str TyResolutionProposed = ''resolution_proposed''"
| "CommerceType_as_str TyResolutionAuthorized = ''resolution_authorized''"
| "CommerceType_as_str TyResolutionCommitted = ''resolution_committed''"

definition CommerceType_author :: "CommerceType \<Rightarrow> CommerceHeader \<Rightarrow> CommerceError + unit" where
  "CommerceType_author ty h =
     (let valid =
        (if ty \<in> {TyQuote, TyDecline, TyAgreementCommitted, TyWithdrawalAcknowledged,
                  TyResidualReleased, TyReady, TyHandover, TyResolutionCommitted}
         then ch_author h = ch_seller h
         else if ty \<in> {TyRequest, TyWithdrawalRequested, TyReceipt} then ch_author h = ch_buyer h
         else True)
      in if valid then Inr () else Inl InvalidAuthor)"

datatype CommercePayload =
    Quote TermsQuote
  | Request TermsRequest
  | Decline RecordReason
  | TermsProposed TermsProposal
  | TermsAuthorized TermsAuthorization
  | TermsRejected RecordReason
  | AgreementCommitted AgreementCommitment
  | WithdrawalRequested RecordReason
  | WithdrawalAcknowledged WithdrawalAcknowledgement
  | CancellationProposed CancellationProposal
  | CancellationAuthorized ProposalAuthorization
  | ResidualReleased ResidualRelease
  | Ready ReadinessClaim
  | Handover HandoverClaim
  | Receipt ReceiptObservation
  | Issue IssueReport
  | ResolutionProposed ResolutionProposal
  | ResolutionAuthorized ProposalAuthorization
  | ResolutionCommitted ResolutionCommitment

fun record_type :: "CommercePayload \<Rightarrow> CommerceType" where
  "record_type (Quote _) = TyQuote"
| "record_type (Request _) = TyRequest"
| "record_type (Decline _) = TyDecline"
| "record_type (TermsProposed _) = TyTermsProposed"
| "record_type (TermsAuthorized _) = TyTermsAuthorized"
| "record_type (TermsRejected _) = TyTermsRejected"
| "record_type (AgreementCommitted _) = TyAgreementCommitted"
| "record_type (WithdrawalRequested _) = TyWithdrawalRequested"
| "record_type (WithdrawalAcknowledged _) = TyWithdrawalAcknowledged"
| "record_type (CancellationProposed _) = TyCancellationProposed"
| "record_type (CancellationAuthorized _) = TyCancellationAuthorized"
| "record_type (ResidualReleased _) = TyResidualReleased"
| "record_type (Ready _) = TyReady"
| "record_type (Handover _) = TyHandover"
| "record_type (Receipt _) = TyReceipt"
| "record_type (Issue _) = TyIssue"
| "record_type (ResolutionProposed _) = TyResolutionProposed"
| "record_type (ResolutionAuthorized _) = TyResolutionAuthorized"
| "record_type (ResolutionCommitted _) = TyResolutionCommitted"

fun payload_references :: "CommercePayload \<Rightarrow> CommerceHeader \<Rightarrow> CommerceError + unit" where
  "payload_references (Quote v) h =
     bindE (header_terms h (tq_terms v)) (\<lambda>_.
       case tq_in_reply_to v of Some parent \<Rightarrow> require h parent | None \<Rightarrow> Inr ())"
| "payload_references (Request v) h =
     bindE (header_terms h (tr_terms v)) (\<lambda>_. require_optional h (tr_quote v))"
| "payload_references (Decline v) h = require_record h (rr_target v)"
| "payload_references (TermsRejected v) h = require_record h (rr_target v)"
| "payload_references (WithdrawalRequested v) h = require_record h (rr_target v)"
| "payload_references (TermsProposed v) h =
     bindE (header_terms h (tp_terms v)) (\<lambda>_. require_optional h (tp_base_agreement v))"
| "payload_references (TermsAuthorized v) h = require_record h (ta_proposal v)"
| "payload_references (AgreementCommitted v) h =
     bindE (require_optional h (cm_base_agreement v)) (\<lambda>_. require_record h (cm_authorization v))"
| "payload_references (WithdrawalAcknowledged v) h = require_record h (wa_withdrawal v)"
| "payload_references (CancellationProposed v) h = require_record h (cp_agreement v)"
| "payload_references (CancellationAuthorized v) h = require_record h (pa_proposal v)"
| "payload_references (ResolutionAuthorized v) h = require_record h (pa_proposal v)"
| "payload_references (ResidualReleased v) h =
     bindE (require_record h (rl_proposal v)) (\<lambda>_.
     bindE (require_record h (rl_authorization v)) (\<lambda>_. require_record h (rl_agreement v)))"
| "payload_references (Ready v) h = require_record h (rc_agreement v)"
| "payload_references (Handover v) h = require_record h (hc_agreement v)"
| "payload_references (Receipt v) h =
     bindE (require_record h (ro_handover v)) (\<lambda>_. require_optional h (ro_supersedes v))"
| "payload_references (Issue v) h = try_all (require_record h) (ir_source_records v)"
| "payload_references (ResolutionProposed v) h =
     bindE (require_record h (rp_agreement v)) (\<lambda>_.
       try_all (require_record h)
         (rs_issues (rp_resolution v) @ rs_accepted_receipts (rp_resolution v)))"
| "payload_references (ResolutionCommitted v) h =
     bindE (require_record h (rm_proposal v)) (\<lambda>_. require_record h (rm_authorization v))"

record CommerceContent =
  cc_header :: CommerceHeader
  cc_payload :: CommercePayload

definition CommerceContent_new :: "CommerceHeader \<Rightarrow> CommercePayload \<Rightarrow> CommerceError + CommerceContent" where
  "CommerceContent_new header payload =
     (let ty = record_type payload in
      if ty \<noteq> TyQuote \<and> ch_order_id header = None then Inl InvalidOrder
      else bindE (CommerceType_author ty header) (\<lambda>_.
       bindE (payload_references payload header) (\<lambda>_.
         Inr \<lparr>cc_header = header, cc_payload = payload\<rparr>)))"

section \<open>Bounds of the payload values\<close>

lemma record_source_inject [simp]: "record_source a = record_source b \<longleftrightarrow> a = b"
  by (auto simp: record_source_def from_bytes_def intro: id32.expand)

lemma commerce_text_Inr [result_simps]:
  "commerce_text v n = Inr u \<longleftrightarrow> length v \<le> n * 4 \<and> chars_count v \<le> n"
  by (auto simp: commerce_text_def)

lemma commerce_lines_Inr [result_simps]:
  "commerce_lines ls n = Inr u \<longleftrightarrow> n \<le> length ls \<and> length ls \<le> 32 \<and> distinct (map lq_line_id ls)"
  by (auto simp: commerce_lines_def)

lemma commerce_records_Inr [result_simps]:
  "commerce_records rs n = Inr u \<longleftrightarrow> n \<le> length rs \<and> length rs \<le> 32 \<and> distinct rs"
  by (auto simp: commerce_records_def)

lemma positive_sequence_Inr [result_simps]: "positive_sequence s = Inr u \<longleftrightarrow> 0 < sequence_get s"
  by (auto simp: positive_sequence_def)

lemma check_measurements_Inr [result_simps]:
  "check_measurements ls seen ms = Inr u \<longleftrightarrow>
     fm_line_id ` set ms \<subseteq> lq_line_id ` set ls \<and> distinct (map fm_line_id ms)
     \<and> fm_line_id ` set seen \<inter> fm_line_id ` set ms = {}"
proof (induction ms arbitrary: seen)
  case Nil
  then show ?case by simp
next
  case (Cons m ms)
  have "(\<exists>l\<in>set ls. lq_line_id l = fm_line_id m) \<longleftrightarrow> fm_line_id m \<in> lq_line_id ` set ls"
    and "(\<exists>p\<in>set seen. fm_line_id p = fm_line_id m) \<longleftrightarrow> fm_line_id m \<in> fm_line_id ` set seen"
    by (metis image_iff)+
  with Cons.IH show ?case by auto
qed

text \<open>Measurements name distinct lines of the claim, so the claim's own bound bounds them.\<close>

lemma measurements_bounded:
  assumes "fm_line_id ` set ms \<subseteq> lq_line_id ` set ls" and "distinct (map fm_line_id ms)"
  shows "length ms \<le> length ls"
proof -
  have "length ms = card (fm_line_id ` set ms)"
    using assms(2) by (metis distinct_card length_map set_map)
  also have "\<dots> \<le> card (lq_line_id ` set ls)" using assms(1) by (intro card_mono) simp_all
  also have "\<dots> \<le> length ls" by (metis card_length length_map set_map)
  finally show ?thesis .
qed

section \<open>Admission of a record\<close>

lemma window_not_increasing_iff: "window_not_increasing ps \<longleftrightarrow> \<not> sorted_wrt (<) ps"
  by (induction ps rule: window_not_increasing.induct) (auto simp: not_less [symmetric] intro: less_trans)

lemma require_Inr [result_simps]: "require h p = Inr u \<longleftrightarrow> p \<in> set (ch_parents h)"
  by (simp add: require_def)

lemma require_record_Inr [result_simps]:
  "require_record h r = Inr u \<longleftrightarrow> record_source r \<in> set (ch_parents h)"
  by (simp add: require_record_def require_Inr)

lemma require_optional_Inr [result_simps]:
  "require_optional h r = Inr u \<longleftrightarrow> record_source ` set_option r \<subseteq> set (ch_parents h)"
  by (cases r) (simp_all add: require_optional_def require_record_Inr)

text \<open>What a payload refers to: the parties of its complete terms and its sources.\<close>

fun payload_terms :: "CommercePayload \<Rightarrow> Terms option" where
  "payload_terms (Quote v) = Some (tq_terms v)"
| "payload_terms (Request v) = Some (tr_terms v)"
| "payload_terms (TermsProposed v) = Some (tp_terms v)"
| "payload_terms _ = None"

definition terms_sources :: "Terms \<Rightarrow> SourceId set" where
  "terms_sources t = (\<lambda>l. event_source (rev_event_id (al_source l))) ` set (tm_lines t)"

fun payload_records :: "CommercePayload \<Rightarrow> RecordId set" where
  "payload_records (Quote v) = {}"
| "payload_records (Request v) = set_option (tr_quote v)"
| "payload_records (Decline v) = {rr_target v}"
| "payload_records (TermsProposed v) = set_option (tp_base_agreement v)"
| "payload_records (TermsAuthorized v) = {ta_proposal v}"
| "payload_records (TermsRejected v) = {rr_target v}"
| "payload_records (AgreementCommitted v) = set_option (cm_base_agreement v) \<union> {cm_authorization v}"
| "payload_records (WithdrawalRequested v) = {rr_target v}"
| "payload_records (WithdrawalAcknowledged v) = {wa_withdrawal v}"
| "payload_records (CancellationProposed v) = {cp_agreement v}"
| "payload_records (CancellationAuthorized v) = {pa_proposal v}"
| "payload_records (ResidualReleased v) = {rl_proposal v, rl_authorization v, rl_agreement v}"
| "payload_records (Ready v) = {rc_agreement v}"
| "payload_records (Handover v) = {hc_agreement v}"
| "payload_records (Receipt v) = {ro_handover v} \<union> set_option (ro_supersedes v)"
| "payload_records (Issue v) = set (ir_source_records v)"
| "payload_records (ResolutionProposed v) = {rp_agreement v}
     \<union> set (rs_issues (rp_resolution v)) \<union> set (rs_accepted_receipts (rp_resolution v))"
| "payload_records (ResolutionAuthorized v) = {pa_proposal v}"
| "payload_records (ResolutionCommitted v) = {rm_proposal v, rm_authorization v}"

definition payload_sources :: "CommercePayload \<Rightarrow> SourceId set" where
  "payload_sources p = record_source ` payload_records p
     \<union> (case payload_terms p of None \<Rightarrow> {} | Some t \<Rightarrow> terms_sources t)
     \<union> (case p of Quote v \<Rightarrow> set_option (tq_in_reply_to v) | _ \<Rightarrow> {})"

definition parties_agree :: "CommerceHeader \<Rightarrow> CommercePayload \<Rightarrow> bool" where
  "parties_agree h p = (case payload_terms p of None \<Rightarrow> True
     | Some t \<Rightarrow> tm_buyer t = ch_buyer h \<and> tm_seller t = ch_seller h)"

lemma header_terms_Inr [result_simps]:
  "header_terms h t = Inr u \<longleftrightarrow> tm_buyer t = ch_buyer h \<and> tm_seller t = ch_seller h
     \<and> terms_sources t \<subseteq> set (ch_parents h)"
  by (auto simp: header_terms_def terms_sources_def result_simps)

lemma payload_references_Inr:
  "payload_references p h = Inr u \<longleftrightarrow> parties_agree h p \<and> payload_sources p \<subseteq> set (ch_parents h)"
  by (cases p) (auto simp: parties_agree_def payload_sources_def result_simps split: option.splits)

text \<open>The only failures of the reference check are disagreeing parties and a missing parent.\<close>

lemma require_error: "require h p = Inl e \<Longrightarrow> e = MissingParent"
  by (auto simp: require_def split: if_splits)

lemma try_all_error: "try_all f xs = Inl e \<Longrightarrow> \<exists>x\<in>set xs. f x = Inl e"
  by (induction xs) (auto simp: result_simps)

lemma require_record_error: "require_record h r = Inl e \<Longrightarrow> e = MissingParent"
  by (auto simp: require_record_def dest: require_error)

lemma require_optional_error: "require_optional h r = Inl e \<Longrightarrow> e = MissingParent"
  by (auto simp: require_optional_def dest: require_record_error split: option.splits)

lemma header_terms_error:
  "header_terms h t = Inl e \<Longrightarrow>
     e = (if tm_buyer t = ch_buyer h \<and> tm_seller t = ch_seller h then MissingParent else TermsPartiesMismatch)"
  by (auto simp: header_terms_def dest!: try_all_error require_error split: if_splits)

lemmas reference_errors = require_error require_record_error require_optional_error header_terms_error

lemma payload_references_error:
  "payload_references p h = Inl e \<Longrightarrow> e = (if parties_agree h p then MissingParent else TermsPartiesMismatch)"
  by (cases p) (auto simp: parties_agree_def result_simps header_terms_Inr
      dest!: reference_errors try_all_error split: option.splits if_splits)

definition seller_families :: "CommerceType set" where
  "seller_families = {TyQuote, TyDecline, TyAgreementCommitted, TyWithdrawalAcknowledged,
     TyResidualReleased, TyReady, TyHandover, TyResolutionCommitted}"

definition buyer_families :: "CommerceType set" where
  "buyer_families = {TyRequest, TyWithdrawalRequested, TyReceipt}"

definition role_admits :: "CommerceType \<Rightarrow> CommerceHeader \<Rightarrow> bool" where
  "role_admits ty h \<longleftrightarrow> (ty \<in> seller_families \<longrightarrow> ch_author h = ch_seller h)
     \<and> (ty \<in> buyer_families \<longrightarrow> ch_author h = ch_buyer h)"

lemma CommerceType_author_eq:
  "CommerceType_author ty h = (if role_admits ty h then Inr () else Inl InvalidAuthor)"
  by (cases ty) (auto simp: CommerceType_author_def role_admits_def seller_families_def buyer_families_def)

lemma CommerceHeader_new_Inr:
  "CommerceHeader_new th ord a b s tm q prev ps = Inr h \<longleftrightarrow>
     h = \<lparr>ch_thread_id = th, ch_order_id = ord, ch_author = a, ch_buyer = b, ch_seller = s,
          ch_created_at = tm, ch_author_sequence = q, ch_author_previous = prev, ch_parents = ps\<rparr>
     \<and> b \<noteq> s \<and> a \<in> {b, s} \<and> 0 < sequence_get q \<and> (sequence_get q = 1 \<longleftrightarrow> prev = None)
     \<and> length ps \<le> 8 \<and> sorted_wrt (<) ps \<and> record_source ` set_option prev \<subseteq> set ps"
  by (auto simp: CommerceHeader_new_def MAX_PARENTS_def window_not_increasing_iff split: option.splits)

lemma CommerceContent_new_eq:
  "CommerceContent_new h p =
     (if record_type p \<noteq> TyQuote \<and> ch_order_id h = None then Inl InvalidOrder
      else if \<not> role_admits (record_type p) h then Inl InvalidAuthor
      else if \<not> parties_agree h p then Inl TermsPartiesMismatch
      else if \<not> payload_sources p \<subseteq> set (ch_parents h) then Inl MissingParent
      else Inr \<lparr>cc_header = h, cc_payload = p\<rparr>)"
proof (cases "payload_references p h")
  case (Inl e)
  with payload_references_error [OF Inl] payload_references_Inr [of p h "()"] show ?thesis
    by (auto simp: CommerceContent_new_def Let_def CommerceType_author_eq)
next
  case (Inr u)
  with payload_references_Inr [of p h u] show ?thesis
    by (simp add: CommerceContent_new_def Let_def CommerceType_author_eq)
qed

text \<open>C19: a commerce record is admitted exactly when it is self-consistent. The header needs two
distinct parties, one of them the author, a positive author sequence that is 1 exactly when there is
no predecessor, and at most eight strictly ascending parents that contain the predecessor. Its
content needs an order identity unless it is a quote, the fixed role of its family, terms of the same
two parties, and every source it refers to among the declared parents; the error reported otherwise
is the first of these four that fails.\<close>

theorem commerce_admission_exact:
  "(CommerceHeader_new th ord a b s tm q prev ps = Inr h \<longleftrightarrow>
      h = \<lparr>ch_thread_id = th, ch_order_id = ord, ch_author = a, ch_buyer = b, ch_seller = s,
           ch_created_at = tm, ch_author_sequence = q, ch_author_previous = prev, ch_parents = ps\<rparr>
      \<and> b \<noteq> s \<and> a \<in> {b, s} \<and> 0 < sequence_get q \<and> (sequence_get q = 1 \<longleftrightarrow> prev = None)
      \<and> length ps \<le> 8 \<and> sorted_wrt (<) ps \<and> record_source ` set_option prev \<subseteq> set ps)
   \<and> CommerceContent_new g p =
      (if record_type p \<noteq> TyQuote \<and> ch_order_id g = None then Inl InvalidOrder
       else if record_type p \<in> seller_families \<and> ch_author g \<noteq> ch_seller g
         \<or> record_type p \<in> buyer_families \<and> ch_author g \<noteq> ch_buyer g then Inl InvalidAuthor
       else if \<not> parties_agree g p then Inl TermsPartiesMismatch
       else if \<not> payload_sources p \<subseteq> set (ch_parents g) then Inl MissingParent
       else Inr \<lparr>cc_header = g, cc_payload = p\<rparr>)"
  using CommerceHeader_new_Inr [of th ord a b s tm q prev ps h] CommerceContent_new_eq [of g p]
  unfolding role_admits_def by auto

definition sample_header :: "nat \<Rightarrow> RecordId option \<Rightarrow> SourceId list \<Rightarrow> CommerceHeader" where
  "sample_header n prev ps = \<lparr>ch_thread_id = from_bytes (replicate 32 8),
     ch_order_id = Some (from_bytes (replicate 32 9)), ch_author = sample_key 1, ch_buyer = sample_key 1,
     ch_seller = sample_key 2, ch_created_at = UnixSeconds 50, ch_author_sequence = Sequence n,
     ch_author_previous = prev, ch_parents = ps\<rparr>"

definition sample_withdrawal :: CommercePayload where
  "sample_withdrawal = WithdrawalRequested \<lparr>rr_target = from_bytes (replicate 32 4), rr_reason = ''late''\<rparr>"

theorem commerce_admission_exact_witness:
  "CommerceContent_new (sample_header 1 None []) sample_withdrawal = Inl MissingParent
   \<and> CommerceContent_new (sample_header 1 None [from_bytes (replicate 32 4)]) sample_withdrawal
     = Inr \<lparr>cc_header = sample_header 1 None [from_bytes (replicate 32 4)], cc_payload = sample_withdrawal\<rparr>"
  using commerce_admission_exact [of _ _ _ _ _ _ _ _ _ _ "sample_header 1 None []" sample_withdrawal]
    commerce_admission_exact [of _ _ _ _ _ _ _ _ _ _
      "sample_header 1 None [from_bytes (replicate 32 4)]" sample_withdrawal]
  by (simp add: sample_header_def sample_withdrawal_def seller_families_def buyer_families_def
      parties_agree_def payload_sources_def record_source_def from_bytes_def)

text \<open>C37: a handover claim is well formed: it is admitted exactly when it has one to thirty-two
distinct lines, a positive seller sequence, and measurements of distinct lines that all belong to the
claim; the separate limit of thirty-two measurements never decides, since there are never more
measurements than lines.\<close>

theorem HandoverClaim_new_exact:
  "HandoverClaim_new ag g ls ms t au q = Inr c \<longleftrightarrow>
     c = \<lparr>hc_agreement = ag, hc_fulfillment_group = g, hc_lines = ls, hc_measurements = ms,
          hc_occurred_at = t, hc_authority = au, hc_seller_sequence = q\<rparr>
     \<and> ls \<noteq> [] \<and> length ls \<le> 32 \<and> distinct (map lq_line_id ls) \<and> 0 < sequence_get q
     \<and> distinct (map fm_line_id ms) \<and> fm_line_id ` set ms \<subseteq> lq_line_id ` set ls
     \<and> length ms \<le> length ls"
  using measurements_bounded [of ms ls]
  by (auto simp: HandoverClaim_new_def result_simps Suc_le_eq)

end
