(* ===== verification/Causal_Analysis.thy ===== *)
theory Causal_Analysis
  imports Causal
begin

text \<open>
  What the causal analysis computes: the index holds exactly the supplied records, the pass over
  them collects exactly the forks, misplaced predecessors and missing sources, the traversal
  visits exactly the accessible part of the parent relation, and the heads are the ends of the
  author chains. The analysis returns on every input, whatever the order of its records.
\<close>

section \<open>The index holds exactly the records\<close>

definition coherent :: "CausalRecord set \<Rightarrow> bool" where
  "coherent R \<longleftrightarrow> inj_on cr_id R"

definition indexes :: "(SourceId, CausalRecord) btree_map \<Rightarrow> CausalRecord set \<Rightarrow> bool" where
  "indexes m R \<longleftrightarrow> bt_inv m \<and> (\<forall>k r. map_of m k = Some r \<longleftrightarrow> r \<in> R \<and> k = cr_source r)"

lemma indexes_coherent:
  assumes "indexes m R" shows "coherent R"
  unfolding coherent_def
proof (rule inj_onI)
  fix r r' assume r: "r \<in> R" "r' \<in> R" "cr_id r = cr_id r'"
  with assms have "map_of m (cr_source r) = Some r" and "map_of m (cr_source r) = Some r'"
    by (simp_all add: indexes_def)
  then show "r = r'" by simp
qed

lemma indexes_insert:
  assumes "indexes m R" and "map_of m (cr_source r) \<in> {None, Some r}"
  shows "indexes (bt_insert (cr_source r) r m) (insert r R)"
proof -
  have inv: "bt_inv m" and get: "\<And>k p. map_of m k = Some p \<longleftrightarrow> p \<in> R \<and> k = cr_source p"
    using assms(1) by (auto simp: indexes_def)
  have same: "p = r" if "p \<in> R" "cr_source p = cr_source r" for p
    using get [of "cr_source r" p] that assms(2) by auto
  have "map_of (bt_insert (cr_source r) r m) k = Some p \<longleftrightarrow> p \<in> insert r R \<and> k = cr_source p" for k p
  proof (cases "k = cr_source r")
    case True
    then have "map_of (bt_insert (cr_source r) r m) k = Some p \<longleftrightarrow> r = p" by (simp add: inv)
    with True same [of p] show ?thesis by (metis insertCI insertE)
  next
    case False
    then have "map_of (bt_insert (cr_source r) r m) k = map_of m k" by (simp add: inv)
    with False get [of k p] show ?thesis by (metis insertCI insertE)
  qed
  with bt_inv_insert [OF inv] show ?thesis unfolding indexes_def by blast
qed

lemma record_eqI: "cr_id r = cr_id r' \<Longrightarrow> cr_content r = cr_content r' \<Longrightarrow> r = (r' :: CausalRecord)"
  by simp

lemma unique_step_Inr:
  assumes "indexes m R"
  shows "unique_step scope m r = Inr n \<longleftrightarrow> CausalScope_contains scope (cr_content r)
     \<and> map_of m (cr_source r) \<in> {None, Some r} \<and> n = bt_insert (cr_source r) r m"
proof -
  have "cr_content p = cr_content r \<longleftrightarrow> p = r" if "map_of m (cr_source r) = Some p" for p
    using assms that record_eqI [of p r] by (auto simp: indexes_def)
  then show ?thesis by (auto simp: unique_step_def split: option.splits)
qed

lemma unique_Cons:
  assumes "indexes m R"
  shows "try_fold (unique_step scope) m (r # rs) = Inr n \<longleftrightarrow> CausalScope_contains scope (cr_content r)
     \<and> map_of m (cr_source r) \<in> {None, Some r}
     \<and> try_fold (unique_step scope) (bt_insert (cr_source r) r m) rs = Inr n"
  by (auto simp: result_simps unique_step_Inr [OF assms])

lemma unique_indexes:
  assumes "indexes m R" and "try_fold (unique_step scope) m rs = Inr n"
  shows "indexes n (R \<union> set rs) \<and> (\<forall>r\<in>set rs. CausalScope_contains scope (cr_content r))"
  using assms
proof (induction rs arbitrary: m R)
  case Nil
  then show ?case by simp
next
  case (Cons r rs)
  note step = Cons.prems(2) [unfolded unique_Cons [OF Cons.prems(1)]]
  then have ins: "indexes (bt_insert (cr_source r) r m) (insert r R)"
    by (intro indexes_insert [OF Cons.prems(1)]) simp
  from Cons.IH [OF ins] step show ?case by simp
qed

lemma unique_ok:
  assumes "indexes m R" and "\<forall>r\<in>set rs. CausalScope_contains scope (cr_content r)"
    and "coherent (R \<union> set rs)"
  shows "\<exists>n. try_fold (unique_step scope) m rs = Inr n"
  using assms
proof (induction rs arbitrary: m R)
  case Nil
  then show ?case by simp
next
  case (Cons r rs)
  have fresh: "map_of m (cr_source r) \<in> {None, Some r}"
  proof (cases "map_of m (cr_source r)")
    case (Some p)
    then have "p \<in> R" "cr_id p = cr_id r" using Cons.prems(1) by (auto simp: indexes_def)
    with Cons.prems(3) have "p = r" unfolding coherent_def by (intro inj_onD [of cr_id "R \<union> set (r # rs)"]) simp_all
    with Some show ?thesis by simp
  qed simp
  from Cons.IH [OF indexes_insert [OF Cons.prems(1) this]] Cons.prems(2,3)
  obtain n where "try_fold (unique_step scope) (bt_insert (cr_source r) r m) rs = Inr n" by auto
  with fresh Cons.prems(2) have "try_fold (unique_step scope) m (r # rs) = Inr n"
    unfolding unique_Cons [OF Cons.prems(1)] by simp
  then show ?case by blast
qed

lemma indexes_empty: "indexes [] {}"
  by (simp add: indexes_def)

lemma indexes_unique:
  assumes "indexes m R" and "indexes n R"
  shows "m = n"
proof (rule bt.entries_extensional)
  show "map_of m = map_of n"
  proof
    fix k show "map_of m k = map_of n k"
      using assms unfolding indexes_def by (metis not_Some_eq)
  qed
qed (use assms in \<open>simp_all add: indexes_def\<close>)

text \<open>
  The indexing loop succeeds exactly when every record is in scope and no identity names two
  contents, and then it depends only on the set of the records.
\<close>

lemma unique_iff:
  "try_fold (unique_step scope) [] rs = Inr m \<longleftrightarrow>
     (\<forall>r\<in>set rs. CausalScope_contains scope (cr_content r)) \<and> indexes m (set rs)"
proof
  assume "try_fold (unique_step scope) [] rs = Inr m"
  from unique_indexes [OF indexes_empty this]
  show "(\<forall>r\<in>set rs. CausalScope_contains scope (cr_content r)) \<and> indexes m (set rs)" by simp
next
  assume m: "(\<forall>r\<in>set rs. CausalScope_contains scope (cr_content r)) \<and> indexes m (set rs)"
  then obtain n where n: "try_fold (unique_step scope) [] rs = Inr n"
    using unique_ok [OF indexes_empty, of rs scope] indexes_coherent by auto
  with unique_indexes [OF indexes_empty n] m have "n = m" by (intro indexes_unique [of n "set rs"]) auto
  with n show "try_fold (unique_step scope) [] rs = Inr m" by simp
qed

lemma indexes_nodes:
  assumes "indexes m R"
  shows "set (map snd m) = R" and "distinct (map cr_id (map snd m))"
proof -
  have inv: "bt_inv m" and get: "\<And>k p. map_of m k = Some p \<longleftrightarrow> p \<in> R \<and> k = cr_source p"
    using assms by (auto simp: indexes_def)
  have mem: "(k, p) \<in> set m \<longleftrightarrow> p \<in> R \<and> k = cr_source p" for k p
    using get [of k p] bt_inv_distinct [OF inv] by (simp add: map_of_eq_Some_iff)
  then have keys: "map fst m = map record_source (map cr_id (map snd m))" by auto
  from bt_inv_distinct [OF inv] show "distinct (map cr_id (map snd m))"
    unfolding keys by (simp only: distinct_map)
  show "set (map snd m) = R" using mem by force
qed

section \<open>Positions\<close>

lemma node_positions_Some:
  assumes "distinct (map cr_id nodes)"
  shows "map_of (node_positions nodes) s = Some i \<longleftrightarrow> i < length nodes \<and> cr_source (nodes ! i) = s"
proof -
  let ?kvs = "map (\<lambda>(i, n). (cr_source n, i)) (enumerate 0 nodes)"
  have keys: "map fst ?kvs = map record_source (map cr_id nodes)"
    by (rule nth_equalityI) (simp_all add: nth_enumerate_eq)
  have "inj_on record_source (set (map cr_id nodes))" by (simp add: inj_on_def)
  with assms have "distinct (map fst (rev ?kvs))"
    unfolding rev_map [symmetric] distinct_rev keys by (subst distinct_map) blast
  then have "map_of (rev ?kvs) s = Some i \<longleftrightarrow> (s, i) \<in> set ?kvs" by (simp add: map_of_eq_Some_iff)
  also have "\<dots> \<longleftrightarrow> i < length nodes \<and> cr_source (nodes ! i) = s"
    by (force simp: in_set_enumerate_eq)
  finally show ?thesis by (simp add: node_positions_def bt_collect_get)
qed

lemma node_positions_None:
  assumes "distinct (map cr_id nodes)"
  shows "map_of (node_positions nodes) s = None \<longleftrightarrow> s \<notin> cr_source ` set nodes"
proof -
  have "s \<in> cr_source ` set nodes \<longleftrightarrow> (\<exists>i. map_of (node_positions nodes) s = Some i)"
    unfolding node_positions_Some [OF assms] image_iff Bex_def in_set_conv_nth by auto
  then show ?thesis by simp
qed

lemma node_eqI:
  assumes "distinct (map cr_id nodes)" and "r \<in> set nodes" and "r' \<in> set nodes" and "cr_id r = cr_id r'"
  shows "r = r'"
  using assms by (auto simp: distinct_map dest: inj_onD)

text \<open>Looking up a known identity and indexing with the result never panics.\<close>

lemma position_lookup:
  assumes "distinct (map cr_id nodes)" and "r \<in> set nodes"
  obtains i where "map_of (node_positions nodes) (cr_source r) = Some i" and "index_at nodes i = Some r"
proof -
  obtain i where "i < length nodes" "nodes ! i = r" using assms(2) by (auto simp: in_set_conv_nth)
  then show ?thesis using that [of i] node_positions_Some [OF assms(1)] by (simp add: index_at_def)
qed

section \<open>What the pass over the records collects\<close>

definition same_slot :: "CausalRecord \<Rightarrow> CausalRecord \<Rightarrow> bool" where
  "same_slot a b \<longleftrightarrow> header_slot (cr_header a) = header_slot (cr_header b)"

text \<open>An author fork: another record of the set claims the same author, order and sequence.\<close>

definition forked :: "CausalRecord set \<Rightarrow> CausalRecord \<Rightarrow> bool" where
  "forked R r \<longleftrightarrow> (\<exists>r'\<in>R. r' \<noteq> r \<and> same_slot r' r)"

text \<open>The named predecessor is known but does not precede the record in its author chain.\<close>

definition broken :: "CausalRecord set \<Rightarrow> CausalRecord \<Rightarrow> bool" where
  "broken R r \<longleftrightarrow> (\<exists>p\<in>R. ch_author_previous (cr_header r) = Some (cr_id p)
     \<and> predecessor_differs (cr_header p) (cr_header r))"

text \<open>Sources a record relies on that nothing supplied covers.\<close>

definition orphaned :: "CausalRecord set \<Rightarrow> CausalRecord \<Rightarrow> SourceId set" where
  "orphaned R r = record_source ` set_option (ch_author_previous (cr_header r)) - cr_source ` R"

definition lacking :: "CausalRecord set \<Rightarrow> SourceId set \<Rightarrow> CausalRecord \<Rightarrow> SourceId set" where
  "lacking R ext r = (set (ch_parents (cr_header r)) - cr_source ` R - ext) \<union> orphaned R r"

definition collected ::
  "CausalRecord set \<Rightarrow> SourceId set \<Rightarrow> CausalRecord set \<Rightarrow> node_state \<Rightarrow> bool" where
  "collected R ext P st \<longleftrightarrow>
     bt_inv (nd_slots st)
     \<and> dom (map_of (nd_slots st)) = (\<lambda>r. header_slot (cr_header r)) ` P
     \<and> (\<forall>k rid. map_of (nd_slots st) k = Some rid \<longrightarrow> (\<exists>r\<in>P. cr_id r = rid \<and> header_slot (cr_header r) = k))
     \<and> set (nd_conflicts st) = cr_id ` {r \<in> P. forked P r \<or> broken R r}
     \<and> set (nd_missing st) = (\<Union>r\<in>P. lacking R ext r)
     \<and> sorted (nd_conflicts st) \<and> distinct (nd_conflicts st)
     \<and> sorted (nd_missing st) \<and> distinct (nd_missing st)"

lemma collected_dom:
  "collected R ext P st \<Longrightarrow> dom (map_of (nd_slots st)) = (\<lambda>r. header_slot (cr_header r)) ` P"
  by (simp add: collected_def)

lemma collected_slot:
  assumes "collected R ext P st" and "map_of (nd_slots st) k = Some rid"
  obtains r where "r \<in> P" "cr_id r = rid" "header_slot (cr_header r) = k"
proof -
  have "\<exists>r\<in>P. cr_id r = rid \<and> header_slot (cr_header r) = k"
    using assms(1) unfolding collected_def by (simp add: assms(2) del: split_paired_All)
  with that show thesis by auto
qed

lemma forked_insert:
  assumes "n \<notin> P"
  shows "{r \<in> insert n P. forked (insert n P) r} =
    {r \<in> P. forked P r} \<union> (if \<exists>p\<in>P. same_slot p n then insert n {p \<in> P. same_slot p n} else {})"
  using assms by (auto simp: forked_def same_slot_def)

lemma missing_parents_set:
  "set (fold (missing_parent pos ext un) ps ms) =
     set ms \<union> ({p \<in> set ps. map_of pos p = None} - (set ext \<union> set un))"
  by (induction ps arbitrary: ms) (auto simp: missing_parent_def set_insort_insert)

lemma missing_parents_sorted:
  "sorted ms \<and> distinct ms \<Longrightarrow>
     sorted (fold (missing_parent pos ext un) ps ms) \<and> distinct (fold (missing_parent pos ext un) ps ms)"
  by (induction ps arbitrary: ms)
    (auto simp: missing_parent_def sorted_insort_insert distinct_insort_insert)

definition tidy :: "node_state \<Rightarrow> bool" where
  "tidy st \<longleftrightarrow> sorted (nd_conflicts st) \<and> distinct (nd_conflicts st)
     \<and> sorted (nd_missing st) \<and> distinct (nd_missing st)"

lemma slot_step_fields:
  assumes "tidy st"
  shows "nd_slots (slot_step n st) = bt_insert (header_slot (cr_header n)) (cr_id n) (nd_slots st)"
    and "set (nd_conflicts (slot_step n st)) = set (nd_conflicts st)
      \<union> (case map_of (nd_slots st) (header_slot (cr_header n)) of None \<Rightarrow> {} | Some p \<Rightarrow> {p, cr_id n})"
    and "nd_missing (slot_step n st) = nd_missing st"
    and "tidy (slot_step n st)"
  using assms
  by (auto simp: slot_step_def Let_def tidy_def set_insort_insert sorted_insort_insert
      distinct_insort_insert split: option.splits)

lemma slot_step_conflicts:
  assumes st: "collected R E P st" and n: "n \<notin> P"
  shows "set (nd_conflicts (slot_step n st)) =
    cr_id ` {r \<in> insert n P. forked (insert n P) r} \<union> cr_id ` {r \<in> P. broken R r}"
proof -
  let ?k = "header_slot (cr_header n)"
  have tidy: "tidy st" using st by (simp add: collected_def tidy_def)
  have old: "set (nd_conflicts st) = cr_id ` {r \<in> P. forked P r} \<union> cr_id ` {r \<in> P. broken R r}"
    using st by (auto simp: collected_def)
  show ?thesis
  proof (cases "map_of (nd_slots st) ?k")
    case None
    then have "?k \<notin> dom (map_of (nd_slots st))" by (simp add: domIff)
    then have "?k \<notin> (\<lambda>r. header_slot (cr_header r)) ` P" unfolding collected_dom [OF st] .
    then have "\<not> (\<exists>p\<in>P. same_slot p n)" by (metis image_eqI same_slot_def)
    with None old show ?thesis
      unfolding slot_step_fields(2) [OF tidy] forked_insert [OF n] by simp
  next
    case (Some prior)
    then obtain q where q: "q \<in> P" "cr_id q = prior" "same_slot q n"
      unfolding same_slot_def by (rule collected_slot [OF st])
    have "{p \<in> P. same_slot p n} \<subseteq> insert q {r \<in> P. forked P r}"
    proof
      fix x assume "x \<in> {p \<in> P. same_slot p n}"
      with q have "x \<in> P" "x \<noteq> q \<Longrightarrow> q \<noteq> x \<and> same_slot q x" by (simp_all add: same_slot_def)
      with q(1) show "x \<in> insert q {r \<in> P. forked P r}" unfolding forked_def by blast
    qed
    with q have "{r \<in> P. forked P r} \<union> insert n {p \<in> P. same_slot p n} = {r \<in> P. forked P r} \<union> {q, n}"
      by blast
    then have "cr_id ` ({r \<in> P. forked P r} \<union> insert n {p \<in> P. same_slot p n})
        = cr_id ` {r \<in> P. forked P r} \<union> {prior, cr_id n}" by (simp add: image_Un q(2))
    moreover have "\<exists>p\<in>P. same_slot p n" using q by blast
    ultimately show ?thesis
      unfolding slot_step_fields(2) [OF tidy] forked_insert [OF n] old Some by (simp add: Un_ac)
  qed
qed

lemma previous_step_fields:
  assumes "distinct (map cr_id nodes)" and "tidy st"
  obtains st' where "previous_step (node_positions nodes) nodes n st = Some st'"
    and "nd_slots st' = nd_slots st" and "tidy st'"
    and "set (nd_conflicts st') = set (nd_conflicts st) \<union> (if broken (set nodes) n then {cr_id n} else {})"
    and "set (nd_missing st') = set (nd_missing st) \<union> orphaned (set nodes) n"
proof (cases "ch_author_previous (cr_header n)")
  case None
  then show ?thesis using that [of st] assms(2) by (simp add: previous_step_def broken_def orphaned_def)
next
  case (Some previous)
  show ?thesis
  proof (cases "record_source previous \<in> cr_source ` set nodes")
    case True
    then obtain p where p: "p \<in> set nodes" "cr_id p = previous" by auto
    obtain i where i: "map_of (node_positions nodes) (record_source previous) = Some i"
      "index_at nodes i = Some p" using position_lookup [OF assms(1) p(1)] p(2) by metis
    have b: "broken (set nodes) n \<longleftrightarrow> predecessor_differs (cr_header p) (cr_header n)"
      unfolding broken_def Some p(2) [symmetric] using node_eqI [OF assms(1) p(1)] p(1) by blast
    let ?st = "if broken (set nodes) n then st\<lparr>nd_conflicts := bs_insert (cr_id n) (nd_conflicts st)\<rparr> else st"
    have "previous_step (node_positions nodes) nodes n st = Some ?st"
      by (simp add: previous_step_def Some i b)
    moreover have "tidy ?st" using assms(2)
      by (simp add: tidy_def sorted_insort_insert distinct_insort_insert)
    moreover have "orphaned (set nodes) n = {}" using True Some by (simp add: orphaned_def)
    ultimately show ?thesis by (intro that [of ?st]) (simp_all add: set_insort_insert)
  next
    case False
    then have none: "map_of (node_positions nodes) (record_source previous) = None"
      by (simp add: node_positions_None [OF assms(1)])
    have b: "\<not> broken (set nodes) n" using False Some by (auto simp: broken_def)
    let ?st = "st\<lparr>nd_missing := bs_insert (record_source previous) (nd_missing st)\<rparr>"
    have "previous_step (node_positions nodes) nodes n st = Some ?st"
      by (simp add: previous_step_def Some none)
    moreover have "tidy ?st" using assms(2)
      by (simp add: tidy_def sorted_insort_insert distinct_insort_insert)
    moreover have "orphaned (set nodes) n = {record_source previous}"
      using False Some by (simp add: orphaned_def insert_Diff_if)
    ultimately show ?thesis using b by (intro that [of ?st]) (simp_all add: set_insort_insert)
  qed
qed

lemma node_step_collected:
  assumes dist: "distinct (map cr_id nodes)" and n: "n \<notin> P"
    and st: "collected (set nodes) (set ext \<union> set un) P st"
  obtains st' where "node_step (node_positions nodes) nodes ext un n st = Some st'"
    and "collected (set nodes) (set ext \<union> set un) (insert n P) st'"
proof -
  let ?R = "set nodes" and ?E = "set ext \<union> set un"
  let ?a = "slot_step n st"
  let ?b = "?a\<lparr>nd_missing := fold (missing_parent (node_positions nodes) ext un)
    (ch_parents (cr_header n)) (nd_missing ?a)\<rparr>"
  have tidy: "tidy st" using st by (simp add: collected_def tidy_def)
  note a = slot_step_fields [OF tidy, of n]
  have "tidy ?b" using a(4) missing_parents_sorted by (simp add: tidy_def)
  then obtain st' where run: "previous_step (node_positions nodes) nodes n ?b = Some st'"
    and slots: "nd_slots st' = nd_slots ?a" and tidy': "tidy st'"
    and conf: "set (nd_conflicts st') = set (nd_conflicts ?a) \<union> (if broken ?R n then {cr_id n} else {})"
    and miss: "set (nd_missing st') = set (nd_missing ?b) \<union> orphaned ?R n"
    by (rule previous_step_fields [OF dist]) auto
  have "set (nd_missing st') = (\<Union>r\<in>insert n P. lacking ?R ?E r)"
  proof -
    have "{p \<in> set (ch_parents (cr_header n)). map_of (node_positions nodes) p = None}
        = set (ch_parents (cr_header n)) - cr_source ` ?R"
      unfolding node_positions_None [OF dist] by blast
    then have "set (nd_missing st') = set (nd_missing st) \<union> lacking ?R ?E n"
      unfolding miss lacking_def by (simp add: a(3) missing_parents_set Un_assoc)
    with st show ?thesis unfolding collected_def by (simp add: Un_commute)
  qed
  moreover have "set (nd_conflicts st') = cr_id ` {r \<in> insert n P. forked (insert n P) r \<or> broken ?R r}"
    unfolding conf slot_step_conflicts [OF st n] by auto
  moreover have "bt_inv (nd_slots st)" using st by (simp add: collected_def)
  ultimately have "collected ?R ?E (insert n P) st'"
    using st tidy' unfolding collected_def tidy_def slots a(1) by (auto split: if_splits)
  moreover have "node_step (node_positions nodes) nodes ext un n st = Some st'"
    using run by (simp add: node_step_def Let_def)
  ultimately show ?thesis using that by blast
qed

lemma node_loop_collected:
  assumes "distinct (map cr_id nodes)" and "distinct ns" and "set ns \<inter> P = {}"
    and "collected (set nodes) (set ext \<union> set un) P st"
  shows "\<exists>st'. node_loop (node_positions nodes) nodes ext un ns st = Some st'
    \<and> collected (set nodes) (set ext \<union> set un) (P \<union> set ns) st'"
  using assms(2-)
proof (induction ns arbitrary: P st)
  case Nil
  then show ?case by simp
next
  case (Cons n ns)
  then have "n \<notin> P" by simp
  from node_step_collected [OF assms(1) this Cons.prems(3)] obtain st' where
    step: "node_step (node_positions nodes) nodes ext un n st = Some st'"
    and c: "collected (set nodes) (set ext \<union> set un) (insert n P) st'" by blast
  from Cons.IH [OF _ _ c] Cons.prems(1,2) step show ?case by auto
qed

section \<open>The traversal visits exactly the accessible records\<close>

text \<open>The dependency relation between known records: the first is a parent of the second.\<close>

definition depends :: "CausalRecord set \<Rightarrow> (CausalRecord \<times> CausalRecord) set" where
  "depends R = {(p, c). p \<in> R \<and> c \<in> R \<and> cr_source p \<in> set (ch_parents (cr_header c))}"

lemma parents_visited_Some:
  assumes dist: "distinct (map cr_id nodes)" and len: "length v = length nodes"
  shows "parents_visited (node_positions nodes) v ps =
    Some (\<forall>i<length nodes. cr_source (nodes ! i) \<in> set ps \<longrightarrow> v ! i)"
proof (induction ps)
  case Nil
  then show ?case by simp
next
  case (Cons p ps)
  show ?case
  proof (cases "map_of (node_positions nodes) p")
    case None
    then have "p \<notin> cr_source ` set nodes" by (simp add: node_positions_None [OF dist])
    then have "\<forall>i<length nodes. cr_source (nodes ! i) \<noteq> p" by (metis image_eqI nth_mem)
    with Cons.IH None show ?thesis by simp
  next
    case (Some i)
    then have i: "i < length nodes" "cr_source (nodes ! i) = p"
      by (simp_all add: node_positions_Some [OF dist])
    have "j = i" if "j < length nodes" "cr_source (nodes ! j) = p" for j
      using node_positions_Some [OF dist, of p j] that Some by simp
    then have "(\<forall>j<length nodes. cr_source (nodes ! j) \<in> set (p # ps) \<longrightarrow> v ! j) \<longleftrightarrow>
        v ! i \<and> (\<forall>j<length nodes. cr_source (nodes ! j) \<in> set ps \<longrightarrow> v ! j)"
      using i by (metis set_ConsD list.set_intros)
    with Cons.IH Some i(1) len show ?thesis by (cases "v ! i") (simp_all add: index_at_def)
  qed
qed

text \<open>
  One pass over the records: it never panics, marks only records whose known parents are all
  marked, and reports no progress only at a fixed point.
\<close>

definition ready :: "CausalRecord list \<Rightarrow> bool list \<Rightarrow> nat \<Rightarrow> bool" where
  "ready nodes v i \<longleftrightarrow> (\<forall>j<length nodes. (nodes ! j, nodes ! i) \<in> depends (set nodes) \<longrightarrow> v ! j)"

definition sound_marks :: "CausalRecord list \<Rightarrow> bool list \<Rightarrow> bool" where
  "sound_marks nodes v \<longleftrightarrow> length v = length nodes
     \<and> (\<forall>i<length nodes. v ! i \<longrightarrow> nodes ! i \<in> Wellfounded.acc (depends (set nodes)))"

lemma sound_marks_update:
  assumes "sound_marks nodes v" and "i < length nodes" and "ready nodes v i"
  shows "sound_marks nodes (v[i := True])"
proof -
  have "nodes ! i \<in> Wellfounded.acc (depends (set nodes))"
  proof (rule acc.accI)
    fix p assume p: "(p, nodes ! i) \<in> depends (set nodes)"
    then obtain j where "j < length nodes" "nodes ! j = p"
      by (auto simp: depends_def in_set_conv_nth)
    with p assms show "p \<in> Wellfounded.acc (depends (set nodes))"
      unfolding sound_marks_def ready_def by blast
  qed
  with assms show ?thesis by (auto simp: sound_marks_def nth_list_update)
qed

lemma visit_pass_sound:
  assumes dist: "distinct (map cr_id nodes)"
    and ns: "\<forall>(i, n)\<in>set ns. i < length nodes \<and> nodes ! i = n" and v: "sound_marks nodes v"
  shows "\<exists>v' p'. visit_pass (node_positions nodes) ns (v, p) = Some (v', p') \<and> sound_marks nodes v'
    \<and> (\<not> p' \<longrightarrow> v' = v \<and> (\<forall>(i, n)\<in>set ns. v ! i \<or> \<not> ready nodes v i))"
  using ns v
proof (induction ns arbitrary: v p)
  case Nil
  then show ?case by auto
next
  case (Cons x ns)
  obtain i n where x: "x = (i, n)" by (cases x)
  with Cons.prems have i: "i < length nodes" "nodes ! i = n" "index_at v i = Some (v ! i)"
    by (auto simp: sound_marks_def index_at_def)
  have len: "length v = length nodes" using Cons.prems(2) by (simp add: sound_marks_def)
  have r: "parents_visited (node_positions nodes) v (ch_parents (cr_header n)) = Some (ready nodes v i)"
    unfolding parents_visited_Some [OF dist len] ready_def depends_def using i by auto
  have rest: "\<forall>(i, n)\<in>set ns. i < length nodes \<and> nodes ! i = n" using Cons.prems(1) by simp
  show ?case
  proof (cases "v ! i \<or> \<not> ready nodes v i")
    case True
    then have "visit_pass (node_positions nodes) (x # ns) (v, p) = visit_pass (node_positions nodes) ns (v, p)"
      using i(3) r x by (cases "v ! i") simp_all
    with Cons.IH [OF rest Cons.prems(2), of p] True show ?thesis by (auto simp: x)
  next
    case False
    then have eq: "visit_pass (node_positions nodes) (x # ns) (v, p) =
        visit_pass (node_positions nodes) ns (v[i := True], True)"
      using i(3) r x by simp
    have "sound_marks nodes (v[i := True])"
      using False i(1) Cons.prems(2) by (intro sound_marks_update) auto
    from Cons.IH [OF rest this, of True] obtain v' p' where
      run: "visit_pass (node_positions nodes) ns (v[i := True], True) = Some (v', p')"
      and snd: "sound_marks nodes v'" by blast
    have p': p' using visit_pass_flag [OF run] by simp
    with eq run snd show ?thesis by auto
  qed
qed

lemma fixed_point_complete:
  assumes "\<forall>i<length nodes. v ! i \<or> \<not> ready nodes v i"
    and "r \<in> Wellfounded.acc (depends (set nodes))" and "i < length nodes" and "nodes ! i = r"
  shows "v ! i"
  using assms(2-)
proof (induction arbitrary: i rule: acc.induct)
  case (accI r)
  have "ready nodes v i"
    unfolding ready_def
  proof (intro allI impI)
    fix j assume j: "j < length nodes" "(nodes ! j, nodes ! i) \<in> depends (set nodes)"
    then show "v ! j" using accI.IH [of "nodes ! j" j] accI.prems by simp
  qed
  with assms(1) accI.prems(1) show ?case by blast
qed

lemma visit_loop_exact:
  assumes dist: "distinct (map cr_id nodes)" and "sound_marks nodes v"
  shows "\<exists>v'. visit_loop (node_positions nodes) nodes v = Some v' \<and> length v' = length nodes
    \<and> (\<forall>i<length nodes. v' ! i \<longleftrightarrow> nodes ! i \<in> Wellfounded.acc (depends (set nodes)))"
  using assms(2)
proof (induction "unvisited v" arbitrary: v rule: less_induct)
  case less
  have ns: "\<forall>(i, n)\<in>set (enumerate 0 nodes). i < length nodes \<and> nodes ! i = n"
    by (auto simp: in_set_enumerate_eq)
  obtain v' p' where run: "visit_pass (node_positions nodes) (enumerate 0 nodes) (v, False) = Some (v', p')"
    and snd: "sound_marks nodes v'"
    and stop: "\<not> p' \<longrightarrow> v' = v \<and> (\<forall>(i, n)\<in>set (enumerate 0 nodes). v ! i \<or> \<not> ready nodes v i)"
    using visit_pass_sound [OF dist ns less.prems, of False] by blast
  show ?case
  proof (cases p')
    case True
    then have "unvisited v' < unvisited v" using visit_pass_progress [OF run] by simp
    from less.hyps [OF this snd] True run show ?thesis by (simp add: visit_loop.simps [of _ _ v])
  next
    case False
    with stop have fix_point: "\<forall>i<length nodes. v ! i \<or> \<not> ready nodes v i" and same: "v' = v"
      by (auto simp: in_set_enumerate_eq)
    have "v ! i \<longleftrightarrow> nodes ! i \<in> Wellfounded.acc (depends (set nodes))" if "i < length nodes" for i
      using fixed_point_complete [OF fix_point _ that refl] less.prems that
      unfolding sound_marks_def by blast
    with False run same less.prems show ?thesis
      by (simp add: visit_loop.simps [of _ _ v] sound_marks_def)
  qed
qed

lemma acyclic_iff_accessible:
  assumes "finite R"
  shows "acyclic (depends R) \<longleftrightarrow> R \<subseteq> Wellfounded.acc (depends R)"
proof -
  have sub: "depends R \<subseteq> R \<times> R" by (auto simp: depends_def)
  then have "finite (depends R)" using assms finite_subset by blast
  then have "acyclic (depends R) \<longleftrightarrow> wf (depends R)" by (simp add: wf_iff_acyclic_if_finite)
  also have "\<dots> \<longleftrightarrow> (\<forall>x. x \<in> Wellfounded.acc (depends R))" by (rule wf_iff_acc)
  also have "\<dots> \<longleftrightarrow> R \<subseteq> Wellfounded.acc (depends R)"
  proof -
    have "x \<in> Wellfounded.acc (depends R)" if "x \<notin> R" for x
    proof (rule acc.accI)
      fix y assume "(y, x) \<in> depends R"
      with that show "y \<in> Wellfounded.acc (depends R)" by (simp add: depends_def)
    qed
    then show ?thesis unfolding subset_iff by metis
  qed
  finally show ?thesis .
qed

lemma unvisited_conflicts:
  assumes "length v = length nodes" and "\<forall>i<length nodes. v ! i \<longleftrightarrow> nodes ! i \<in> A"
  shows "set (fold (\<lambda>(n, v) cs. if v then cs else bs_insert (cr_id n) cs) (zip nodes v) cs)
      = set cs \<union> cr_id ` {r \<in> set nodes. r \<notin> A}"
  using assms
proof (induction nodes v arbitrary: cs rule: list_induct2')
  case (4 n ns b bs)
  have b: "b \<longleftrightarrow> n \<in> A" using 4(3) [rule_format, of 0] by simp
  have bs: "\<forall>i<length ns. bs ! i \<longleftrightarrow> ns ! i \<in> A"
  proof (intro allI impI)
    fix i assume "i < length ns"
    then show "bs ! i \<longleftrightarrow> ns ! i \<in> A" using 4(3) [rule_format, of "Suc i"] by simp
  qed
  have "{r \<in> set (n # ns). r \<notin> A} = (if b then {} else {n}) \<union> {r \<in> set ns. r \<notin> A}"
    unfolding b by auto
  then show ?case using 4(1) [OF _ bs] 4(2) by (simp add: set_insort_insert image_Un)
qed auto

lemma unvisited_conflicts_sorted:
  assumes "sorted cs \<and> distinct cs"
  shows "sorted (fold (\<lambda>(n, v) cs. if v then cs else bs_insert (cr_id n) cs) nvs cs)
    \<and> distinct (fold (\<lambda>(n, v) cs. if v then cs else bs_insert (cr_id n) cs) nvs cs)"
  using assms
proof (induction nvs arbitrary: cs)
  case (Cons x nvs)
  have "sorted (bs_insert (cr_id (fst x)) cs) \<and> distinct (bs_insert (cr_id (fst x)) cs)"
    using Cons.prems by (simp add: sorted_insort_insert distinct_insort_insert)
  with Cons.IH Cons.prems show ?case by (cases x) simp
qed simp

section \<open>Author chains\<close>

definition chain_upto ::
  "CausalRecord set \<Rightarrow> PublicKey \<Rightarrow> OrderId option \<Rightarrow> CausalRecord list \<Rightarrow> bool" where
  "chain_upto R a ord chain \<longleftrightarrow> (\<forall>i<length chain. chain ! i \<in> R
     \<and> header_slot (cr_header (chain ! i)) = (a, ord, Suc i)
     \<and> ch_author_previous (cr_header (chain ! i)) = (if i = 0 then None else Some (cr_id (chain ! (i - 1)))))"

definition head_of :: "CausalRecord list \<Rightarrow> RecordId option" where
  "head_of chain = (if chain = [] then None else Some (cr_id (last chain)))"

lemma head_of_snoc [simp]: "head_of (chain @ [r]) = Some (cr_id r)"
  by (simp add: head_of_def)

lemma chain_upto_Nil [simp]: "chain_upto R a ord []"
  by (simp add: chain_upto_def)

lemma head_of_nth: "head_of chain = (if length chain = 0 then None else Some (cr_id (chain ! (length chain - 1))))"
  by (simp add: head_of_def last_conv_nth)

lemma chain_upto_snoc:
  assumes "chain_upto R a ord chain" and "r \<in> R"
    and "header_slot (cr_header r) = (a, ord, Suc (length chain))"
    and "ch_author_previous (cr_header r) = head_of chain"
  shows "chain_upto R a ord (chain @ [r])"
  unfolding chain_upto_def
proof (intro allI impI)
  fix i assume "i < length (chain @ [r])"
  then consider "i < length chain" | "i = length chain" by force
  then show "(chain @ [r]) ! i \<in> R \<and> header_slot (cr_header ((chain @ [r]) ! i)) = (a, ord, Suc i)
    \<and> ch_author_previous (cr_header ((chain @ [r]) ! i)) =
      (if i = 0 then None else Some (cr_id ((chain @ [r]) ! (i - 1))))"
  proof cases
    case 1
    then have "i - 1 < length chain" by simp
    with 1 assms(1) show ?thesis by (simp add: chain_upto_def nth_append)
  next
    case 2
    with assms(2-) show ?thesis by (simp add: nth_append head_of_nth)
  qed
qed

lemma chain_upto_length:
  assumes "chain_upto (set nodes) a ord chain"
  shows "length chain \<le> length nodes"
proof -
  have "distinct chain"
    unfolding distinct_conv_nth
  proof (intro allI impI)
    fix i j assume "i < length chain" "j < length chain" "i \<noteq> j"
    with assms show "chain ! i \<noteq> chain ! j" unfolding chain_upto_def by (metis Pair_inject Suc_inject)
  qed
  moreover have "set chain \<subseteq> set nodes" using assms by (auto simp: chain_upto_def in_set_conv_nth)
  ultimately show ?thesis by (metis card_length card_mono distinct_card List.finite_set le_trans)
qed

text \<open>
  The head loop walks one author chain: it extends the chain by the record of the next slot
  until there is none, the record is in conflict, or it does not name the current head.
\<close>

definition chain_stops :: "CausalRecord set \<Rightarrow> RecordId set \<Rightarrow> PublicKey \<Rightarrow> OrderId option \<Rightarrow> CausalRecord list \<Rightarrow> bool" where
  "chain_stops R C a ord chain \<longleftrightarrow>
     (\<forall>r\<in>R. header_slot (cr_header r) \<noteq> (a, ord, Suc (length chain)))
     \<or> (\<exists>r\<in>R. header_slot (cr_header r) = (a, ord, Suc (length chain))
          \<and> (cr_id r \<in> C \<or> ch_author_previous (cr_header r) \<noteq> head_of chain))"

lemma head_loop_chain:
  assumes dist: "distinct (map cr_id nodes)" and len: "length nodes \<le> 1000"
    and st: "collected (set nodes) E (set nodes) st"
    and "chain_upto (set nodes) a ord chain" and "cr_id ` set chain \<inter> set cs = {}"
  shows "\<exists>chain'. head_loop (nd_slots st) cs (node_positions nodes) nodes a ord (head_of chain)
        (Suc (length chain)) = Some (head_of chain')
      \<and> chain_upto (set nodes) a ord chain' \<and> cr_id ` set chain' \<inter> set cs = {}
      \<and> chain_stops (set nodes) (set cs) a ord chain'"
  using assms(4-)
proof (induction "1001 - length chain" arbitrary: chain rule: less_induct)
  case less
  let ?k = "(a, ord, Suc (length chain))"
  note unfold = head_loop.simps [of "nd_slots st" cs "node_positions nodes" nodes a ord "head_of chain"
      "Suc (length chain)"]
  show ?case
  proof (cases "map_of (nd_slots st) ?k")
    case None
    then have "?k \<notin> dom (map_of (nd_slots st))" by (simp add: domIff)
    then have "\<forall>r\<in>set nodes. header_slot (cr_header r) \<noteq> ?k"
      unfolding collected_dom [OF st] by (metis image_eqI)
    with None less.prems show ?thesis by (intro exI [of _ chain]) (simp add: unfold chain_stops_def)
  next
    case (Some rid)
    obtain r where r: "r \<in> set nodes" "cr_id r = rid" "header_slot (cr_header r) = ?k"
      by (rule collected_slot [OF st Some])
    obtain i where i: "map_of (node_positions nodes) (record_source rid) = Some i" "index_at nodes i = Some r"
      using position_lookup [OF dist r(1)] r(2) by metis
    show ?thesis
    proof (cases "rid \<in> set cs \<or> ch_author_previous (cr_header r) \<noteq> head_of chain")
      case True
      then have "chain_stops (set nodes) (set cs) a ord chain"
        unfolding chain_stops_def using r by blast
      with True Some i less.prems show ?thesis by (intro exI [of _ chain]) (simp add: unfold)
    next
      case False
      have up: "chain_upto (set nodes) a ord (chain @ [r])"
        using less.prems(1) r False by (intro chain_upto_snoc) simp_all
      have short: "length chain < 1000" using chain_upto_length [OF up] len by simp
      then have "checked_add_u 64 (Suc (length chain)) 1 = Some (Suc (length (chain @ [r])))"
        by (simp add: checked_defs checked_simps)
      with False Some i have "head_loop (nd_slots st) cs (node_positions nodes) nodes a ord (head_of chain)
          (Suc (length chain)) = head_loop (nd_slots st) cs (node_positions nodes) nodes a ord
          (head_of (chain @ [r])) (Suc (length (chain @ [r])))"
        by (simp add: unfold r(2))
      moreover have "cr_id ` set (chain @ [r]) \<inter> set cs = {}" using less.prems(2) False r(2) by simp
      ultimately show ?thesis using less.hyps [of "chain @ [r]"] up short by simp
    qed
  qed
qed

definition is_head :: "CausalRecord set \<Rightarrow> RecordId set \<Rightarrow> PublicKey \<Rightarrow> OrderId option \<Rightarrow> RecordId option \<Rightarrow> bool" where
  "is_head R C a ord h \<longleftrightarrow> (\<exists>chain. h = head_of chain \<and> chain_upto R a ord chain
     \<and> cr_id ` set chain \<inter> C = {} \<and> chain_stops R C a ord chain)"

lemma head_loop_is_head:
  assumes "distinct (map cr_id nodes)" and "length nodes \<le> 1000"
    and "collected (set nodes) E (set nodes) st"
  obtains h where "head_loop (nd_slots st) cs (node_positions nodes) nodes a ord None 1 = Some h"
    and "is_head (set nodes) (set cs) a ord h"
  using head_loop_chain [OF assms chain_upto_Nil, of cs a ord] that
  unfolding is_head_def by (auto simp: head_of_def [of "[]"])

section \<open>The analysis is exact\<close>

text \<open>What an analysis reports of a set of records, independently of how it is computed.\<close>

definition in_conflict :: "CausalRecord set \<Rightarrow> CausalRecord \<Rightarrow> bool" where
  "in_conflict R r \<longleftrightarrow> forked R r \<or> broken R r \<or> r \<notin> Wellfounded.acc (depends R)"

definition analysis_of ::
  "CausalScope \<Rightarrow> CausalRecord set \<Rightarrow> SourceId set \<Rightarrow> SourceId set \<Rightarrow> CausalAnalysis \<Rightarrow> bool" where
  "analysis_of scope R ext un a \<longleftrightarrow>
     set (an_conflicts a) = cr_id ` {r \<in> R. in_conflict R r}
     \<and> set (an_missing a) = (\<Union>r\<in>R. lacking R (ext \<union> un) r)
     \<and> set (an_uninterpreted a) = un
     \<and> sorted (an_conflicts a) \<and> distinct (an_conflicts a)
     \<and> sorted (an_missing a) \<and> distinct (an_missing a)
     \<and> (an_cycle a \<longleftrightarrow> \<not> acyclic (depends R))
     \<and> an_readiness a = readiness_of (an_conflicts a) (an_uninterpreted a) (an_missing a)
     \<and> is_head R (set (an_conflicts a)) (sc_buyer scope) (Some (sc_order scope)) (an_buyer_head a)
     \<and> is_head R (set (an_conflicts a)) (sc_seller scope) (Some (sc_order scope)) (an_seller_head a)
     \<and> is_head R (set (an_conflicts a)) (sc_seller scope) None (an_quote_head a)"

lemma analyze_nodes_exact:
  assumes dist: "distinct (map cr_id nodes)" and len: "length nodes \<le> 1000"
  shows "\<exists>a. analyze_nodes scope nodes ext un = Some a \<and> analysis_of scope (set nodes) (set ext) (set un) a"
proof -
  let ?R = "set nodes" and ?pos = "node_positions nodes"
  let ?init = "\<lparr>nd_slots = [], nd_conflicts = [], nd_missing = []\<rparr>"
  have "collected ?R (set ext \<union> set un) {} ?init" by (simp add: collected_def)
  from node_loop_collected [OF dist _ _ this, of nodes] dist obtain st where
    run: "node_loop ?pos nodes ext un nodes ?init = Some st"
    and st: "collected ?R (set ext \<union> set un) ?R st" by (auto simp: distinct_map)
  have "sound_marks nodes (replicate (length nodes) False)" by (simp add: sound_marks_def)
  from visit_loop_exact [OF dist this] obtain v where
    loop: "visit_loop ?pos nodes (replicate (length nodes) False) = Some v"
    and v: "length v = length nodes" "\<forall>i<length nodes. v ! i \<longleftrightarrow> nodes ! i \<in> Wellfounded.acc (depends ?R)"
    by blast
  define cs where "cs = fold (\<lambda>(n, v) cs. if v then cs else bs_insert (cr_id n) cs) (zip nodes v) (nd_conflicts st)"
  have conf: "set cs = cr_id ` {r \<in> ?R. in_conflict ?R r}"
  proof -
    have old: "set (nd_conflicts st) = cr_id ` {r \<in> ?R. forked ?R r \<or> broken ?R r}"
      using st by (simp add: collected_def)
    show ?thesis unfolding cs_def unvisited_conflicts [OF v] old in_conflict_def by auto
  qed
  have tidy: "sorted cs \<and> distinct cs"
    unfolding cs_def using st by (intro unvisited_conflicts_sorted) (simp add: collected_def)
  have cycle: "(\<exists>x\<in>set v. \<not> x) \<longleftrightarrow> \<not> acyclic (depends ?R)"
  proof -
    have "(\<forall>x\<in>set v. x) \<longleftrightarrow> ?R \<subseteq> Wellfounded.acc (depends ?R)"
      unfolding subset_eq all_set_conv_all_nth using v by simp
    moreover have "(\<exists>x\<in>set v. \<not> x) \<longleftrightarrow> \<not> (\<forall>x\<in>set v. x)" by blast
    ultimately show ?thesis unfolding acyclic_iff_accessible [OF List.finite_set] by metis
  qed
  obtain b where b: "head_loop (nd_slots st) cs ?pos nodes (sc_buyer scope) (Some (sc_order scope)) None 1 = Some b"
    "is_head ?R (set cs) (sc_buyer scope) (Some (sc_order scope)) b" by (rule head_loop_is_head [OF dist len st])
  obtain s where s: "head_loop (nd_slots st) cs ?pos nodes (sc_seller scope) (Some (sc_order scope)) None 1 = Some s"
    "is_head ?R (set cs) (sc_seller scope) (Some (sc_order scope)) s" by (rule head_loop_is_head [OF dist len st])
  obtain q where q: "head_loop (nd_slots st) cs ?pos nodes (sc_seller scope) None None 1 = Some q"
    "is_head ?R (set cs) (sc_seller scope) None q" by (rule head_loop_is_head [OF dist len st])
  have miss: "set (nd_missing st) = (\<Union>r\<in>?R. lacking ?R (set ext \<union> set un) r)"
    "sorted (nd_missing st)" "distinct (nd_missing st)"
    using st by (simp_all add: collected_def)
  show ?thesis
    unfolding analyze_nodes_def Let_def run loop option.case cs_def [symmetric] b(1) s(1) q(1) cycle
    using conf tidy b(2) s(2) q(2) miss by (simp add: analysis_of_def)
qed

definition within_limits :: "CausalRecord list \<Rightarrow> SourceId list \<Rightarrow> SourceId list \<Rightarrow> bool" where
  "within_limits rs ext un \<longleftrightarrow> length rs \<le> 1000 \<and> length ext \<le> 8000 \<and> length un \<le> 8000"

lemma analyze_eq:
  "analyze scope rs ext un =
     (if \<not> within_limits rs ext un then Some (Inl CausalLimitExceeded)
      else case try_fold (unique_step scope) [] rs of
        Inl e \<Rightarrow> Some (Inl e)
      | Inr m \<Rightarrow> map_option Inr (analyze_nodes scope (map snd m) (bs_collect ext) (bs_collect un)))"
  by (auto simp: analyze_def within_limits_def MAX_CAUSAL_SOURCES_def MAX_CAUSAL_RECORDS_def)

lemma unique_errors:
  "try_fold (unique_step scope) m rs = Inl e \<Longrightarrow> e \<noteq> CausalLimitExceeded"
proof (induction rs arbitrary: m)
  case Nil
  then show ?case by simp
next
  case (Cons r rs)
  have "unique_step scope m r \<noteq> Inl CausalLimitExceeded"
    by (simp add: unique_step_def split: option.splits)
  with Cons show ?case by (auto simp: result_simps)
qed

lemma indexed_analysis:
  assumes "indexes m (set rs)" and "within_limits rs ext un"
  obtains a where "analyze_nodes scope (map snd m) (bs_collect ext) (bs_collect un) = Some a"
    and "analysis_of scope (set rs) (set ext) (set un) a"
proof -
  note nodes = indexes_nodes [OF assms(1)]
  have "length (map snd m) = card (set rs)"
    using nodes by (metis distinct_card distinct_map)
  also have "\<dots> \<le> 1000" using assms(2) card_length [of rs] by (simp add: within_limits_def)
  finally show ?thesis
    using analyze_nodes_exact [OF nodes(2), of scope "bs_collect ext" "bs_collect un"] that
    unfolding nodes(1) bs_collect_set by blast
qed

lemma analyze_Inr_iff:
  "analyze scope rs ext un = Some (Inr a) \<longleftrightarrow>
     within_limits rs ext un \<and> (\<forall>r\<in>set rs. CausalScope_contains scope (cr_content r))
     \<and> (\<exists>m. indexes m (set rs)
          \<and> analyze_nodes scope (map snd m) (bs_collect ext) (bs_collect un) = Some a)"
proof (cases "try_fold (unique_step scope) [] rs")
  case (Inl e)
  then have "\<not> ((\<forall>r\<in>set rs. CausalScope_contains scope (cr_content r)) \<and> indexes m (set rs))" for m
    using unique_iff [of scope rs m] by simp
  with Inl show ?thesis unfolding analyze_eq by auto
next
  case (Inr m)
  note m = Inr [unfolded unique_iff]
  then have "indexes n (set rs) \<longleftrightarrow> n = m" for n using indexes_unique by blast
  with m Inr show ?thesis unfolding analyze_eq by auto
qed

lemma analyze_analysis:
  assumes "analyze scope rs ext un = Some (Inr a)"
  shows "analysis_of scope (set rs) (set ext) (set un) a"
  using assms unfolding analyze_Inr_iff by (metis indexed_analysis option.inject)

section \<open>Properties of the analysis\<close>

text \<open>C14: the causal analysis always returns and never indexes out of range. It refuses exactly the
inputs that exceed its limits, hold a record outside the scope, or give one identity two contents,
and the limit is the reported reason exactly when it is exceeded.\<close>

theorem analyze_total:
  "\<exists>r. analyze scope rs ext un = Some r
     \<and> (isl r \<longleftrightarrow> \<not> (length rs \<le> 1000 \<and> length ext \<le> 8000 \<and> length un \<le> 8000
          \<and> set rs \<subseteq> {x. CausalScope_contains scope (cr_content x)} \<and> inj_on cr_id (set rs)))
     \<and> (r = Inl CausalLimitExceeded \<longleftrightarrow> 1000 < length rs \<or> 8000 < length ext \<or> 8000 < length un)"
proof (cases "within_limits rs ext un")
  case False
  then show ?thesis by (auto simp: analyze_eq within_limits_def)
next
  case lim: True
  show ?thesis
  proof (cases "try_fold (unique_step scope) [] rs")
    case (Inl e)
    have "\<not> (set rs \<subseteq> {x. CausalScope_contains scope (cr_content x)} \<and> inj_on cr_id (set rs))"
    proof
      assume "set rs \<subseteq> {x. CausalScope_contains scope (cr_content x)} \<and> inj_on cr_id (set rs)"
      then have "\<exists>m. try_fold (unique_step scope) [] rs = Inr m"
        by (intro unique_ok [OF indexes_empty]) (auto simp: coherent_def)
      with Inl show False by simp
    qed
    with lim Inl unique_errors [OF Inl] show ?thesis by (auto simp: analyze_eq within_limits_def)
  next
    case (Inr m)
    note m = Inr [unfolded unique_iff]
    then have "inj_on cr_id (set rs)" using indexes_coherent by (auto simp: coherent_def)
    moreover obtain a where "analyze_nodes scope (map snd m) (bs_collect ext) (bs_collect un) = Some a"
      using m indexed_analysis [OF _ lim] by blast
    ultimately show ?thesis using lim Inr m by (auto simp: analyze_eq within_limits_def)
  qed
qed

text \<open>C13: a successful analysis does not depend on the order or the repetition of its inputs: two
inputs within the limits with the same records and the same sources have the same result.\<close>

theorem analyze_order_independent:
  assumes "set rs = set rs'" and "set ext = set ext'" and "set un = set un'"
    and "length rs \<le> 1000 \<and> length ext \<le> 8000 \<and> length un \<le> 8000"
    and "length rs' \<le> 1000 \<and> length ext' \<le> 8000 \<and> length un' \<le> 8000"
  shows "analyze scope rs ext un = Some (Inr a) \<longleftrightarrow> analyze scope rs' ext' un' = Some (Inr a)"
  using assms(4,5)
  unfolding analyze_Inr_iff within_limits_def assms(1) bs_collect_cong [OF assms(2)] bs_collect_cong [OF assms(3)]
  by simp

text \<open>
  Two records of a buyer: the first withdraws an authorization that is an external source, the
  second follows it.
\<close>

definition sample_scope :: CausalScope where
  "sample_scope = \<lparr>sc_thread = from_bytes (replicate 32 8), sc_order = from_bytes (replicate 32 9),
     sc_buyer = sample_key 1, sc_seller = sample_key 2\<rparr>"

definition sample_first :: CausalRecord where
  "sample_first = \<lparr>cr_id = from_bytes (replicate 32 16), cr_content =
     \<lparr>cc_header = sample_header 1 None [from_bytes (replicate 32 4)], cc_payload = sample_withdrawal\<rparr>\<rparr>"

definition sample_second :: CausalRecord where
  "sample_second = \<lparr>cr_id = from_bytes (replicate 32 17), cr_content =
     \<lparr>cc_header = sample_header 2 (Some (from_bytes (replicate 32 16)))
        [from_bytes (replicate 32 4), from_bytes (replicate 32 16)], cc_payload = sample_withdrawal\<rparr>\<rparr>"

definition sample_external :: "SourceId list" where
  "sample_external = [from_bytes (replicate 32 4)]"

definition sample_analysis :: CausalAnalysis where
  "sample_analysis = \<lparr>an_readiness = Complete, an_buyer_head = Some (from_bytes (replicate 32 17)),
     an_seller_head = None, an_quote_head = None, an_missing = [], an_conflicts = [],
     an_uninterpreted = [], an_cycle = False\<rparr>"

lemma sample_analyzed:
  "analyze sample_scope [sample_second, sample_first] sample_external [] = Some (Inr sample_analysis)"
  by code_simp

theorem analyze_order_independent_witness:
  "analyze sample_scope [sample_first, sample_second, sample_first] sample_external [] = Some (Inr sample_analysis)"
  using analyze_order_independent [of "[sample_second, sample_first]" "[sample_first, sample_second, sample_first]"
      sample_external sample_external "[]" "[]" sample_scope sample_analysis] sample_analyzed
  by (simp add: sample_external_def insert_commute)

text \<open>C11: the reported coverage is exact. A record is in conflict exactly when another record claims
its author slot, its known predecessor does not precede it in its author chain, or it depends on a
cycle; the missing sources are exactly the parents nothing supplied covers and the predecessors that
are not known records; a cycle is reported exactly when the parent relation of the known records has
one; and the classification follows from the three lists in the order conflicted, uninterpreted,
missing, complete.\<close>

theorem analyze_exact:
  assumes "analyze scope rs ext un = Some (Inr a)"
  shows "set (an_conflicts a) = cr_id ` {r \<in> set rs. (\<exists>r'\<in>set rs. r' \<noteq> r \<and> same_slot r' r)
        \<or> broken (set rs) r \<or> r \<notin> Wellfounded.acc (depends (set rs))}
    \<and> set (an_missing a) = (\<Union>r\<in>set rs. set (ch_parents (cr_header r)) - cr_source ` set rs - set ext - set un)
        \<union> (\<Union>r\<in>set rs. record_source ` set_option (ch_author_previous (cr_header r)) - cr_source ` set rs)
    \<and> sorted_wrt (<) (an_conflicts a) \<and> sorted_wrt (<) (an_missing a)
    \<and> set (an_uninterpreted a) = set un
    \<and> (an_cycle a \<longleftrightarrow> \<not> acyclic (depends (set rs)))
    \<and> an_readiness a = (if an_conflicts a \<noteq> [] then Conflicted else if un \<noteq> [] then Uninterpreted
        else if an_missing a \<noteq> [] then MissingHistory else Complete)"
proof -
  note spec = analyze_analysis [OF assms, unfolded analysis_of_def]
  have "(\<Union>r\<in>set rs. lacking (set rs) (set ext \<union> set un) r) =
      (\<Union>r\<in>set rs. set (ch_parents (cr_header r)) - cr_source ` set rs - set ext - set un)
      \<union> (\<Union>r\<in>set rs. orphaned (set rs) r)"
    unfolding lacking_def Diff_Un Diff_eq by blast
  moreover have "an_uninterpreted a = [] \<longleftrightarrow> un = []" using spec by (metis set_empty)
  moreover have "sorted_wrt (<) (an_conflicts a)" "sorted_wrt (<) (an_missing a)"
    using spec by (simp_all add: strict_sorted_iff)
  ultimately show ?thesis
    using spec unfolding in_conflict_def forked_def orphaned_def readiness_of_def by simp
qed

theorem analyze_exact_witness:
  "acyclic (depends (set [sample_second, sample_first]))
   \<and> set [sample_second, sample_first] \<subseteq> Wellfounded.acc (depends (set [sample_second, sample_first]))"
  using analyze_exact [OF sample_analyzed] acyclic_iff_accessible [of "set [sample_second, sample_first]"]
  by (simp add: sample_analysis_def)

section \<open>Complete histories\<close>

text \<open>Headers that the constructor admits.\<close>

definition wf_Header :: "CommerceHeader \<Rightarrow> bool" where
  "wf_Header h \<longleftrightarrow> CommerceHeader_new (ch_thread_id h) (ch_order_id h) (ch_author h) (ch_buyer h) (ch_seller h)
     (ch_created_at h) (ch_author_sequence h) (ch_author_previous h) (ch_parents h) = Inr h"

lemma wf_Header_sequence:
  "wf_Header h \<Longrightarrow> 0 < sequence_get (ch_author_sequence h)
     \<and> (sequence_get (ch_author_sequence h) = 1 \<longleftrightarrow> ch_author_previous h = None)"
  unfolding wf_Header_def CommerceHeader_new_Inr by blast

definition author_records :: "CausalRecord set \<Rightarrow> PublicKey \<Rightarrow> OrderId option \<Rightarrow> CausalRecord set" where
  "author_records R a ord = {r \<in> R. ch_author (cr_header r) = a \<and> ch_order_id (cr_header r) = ord}"

text \<open>Records without forks, with every predecessor known and in place.\<close>

definition settled :: "CausalRecord set \<Rightarrow> bool" where
  "settled R \<longleftrightarrow> (\<forall>r\<in>R. \<not> forked R r \<and> \<not> broken R r \<and> orphaned R r = {} \<and> wf_Header (cr_header r))"

lemma settled_unique:
  assumes "settled R" and "r \<in> R" and "r' \<in> R"
    and "header_slot (cr_header r) = header_slot (cr_header r')"
  shows "r = r'"
proof (rule ccontr)
  assume "r \<noteq> r'"
  with assms(2,4) have "forked R r'" unfolding forked_def same_slot_def by blast
  with assms(1,3) show False by (simp add: settled_def)
qed

lemma settled_predecessor:
  assumes "settled R" and "r \<in> R" and "header_slot (cr_header r) = (a, ord, Suc (Suc n))"
  obtains p where "p \<in> R" and "header_slot (cr_header p) = (a, ord, Suc n)"
    and "ch_author_previous (cr_header r) = Some (cr_id p)"
proof -
  have seq: "sequence_get (ch_author_sequence (cr_header r)) = Suc (Suc n)" "ch_author (cr_header r) = a"
    "ch_order_id (cr_header r) = ord" using assms(3) by (simp_all add: header_slot_def)
  have "ch_author_previous (cr_header r) \<noteq> None"
    using assms(1,2) seq(1) wf_Header_sequence [of "cr_header r"] by (simp add: settled_def)
  then obtain previous where prev: "ch_author_previous (cr_header r) = Some previous" by blast
  have "orphaned R r = {}" using assms(1,2) by (simp add: settled_def)
  then have "record_source previous \<in> cr_source ` R" using prev by (simp add: orphaned_def)
  then obtain p where p: "p \<in> R" "previous = cr_id p" by auto
  have "\<not> broken R r" using assms(1,2) by (simp add: settled_def)
  with p prev have "\<not> predecessor_differs (cr_header p) (cr_header r)" unfolding broken_def by blast
  then have "header_slot (cr_header p) = (a, ord, Suc n)"
    using seq by (simp add: predecessor_differs_def header_slot_def checked_defs checked_simps)
  with that p prev show ?thesis by blast
qed

text \<open>A record at some sequence has its author's records at every earlier sequence.\<close>

lemma settled_downward:
  assumes "settled R" and "r \<in> R" and "header_slot (cr_header r) = (a, ord, Suc (m + n))"
  shows "\<exists>p\<in>R. header_slot (cr_header p) = (a, ord, Suc m)"
  using assms(2,3)
proof (induction n arbitrary: r)
  case 0
  then show ?case by auto
next
  case (Suc n)
  then have "header_slot (cr_header r) = (a, ord, Suc (Suc (m + n)))" by simp
  from settled_predecessor [OF assms(1) Suc.prems(1) this] Suc.IH show ?case by blast
qed

lemma settled_continues:
  assumes "settled R" and "chain_upto R a ord chain" and "r \<in> R"
    and "header_slot (cr_header r) = (a, ord, Suc (length chain))"
  shows "ch_author_previous (cr_header r) = head_of chain"
proof (cases "length chain")
  case 0
  have "sequence_get (ch_author_sequence (cr_header r)) = 1" using assms(4) 0 by (simp add: header_slot_def)
  then have "ch_author_previous (cr_header r) = None"
    using assms(1,3) wf_Header_sequence [of "cr_header r"] by (simp add: settled_def)
  with 0 show ?thesis by (simp add: head_of_def)
next
  case (Suc n)
  obtain p where p: "p \<in> R" "header_slot (cr_header p) = (a, ord, Suc n)"
    "ch_author_previous (cr_header r) = Some (cr_id p)"
    using settled_predecessor [OF assms(1,3)] assms(4) Suc by metis
  have "n < length chain" using Suc by simp
  then have "chain ! n \<in> R" "header_slot (cr_header (chain ! n)) = (a, ord, Suc n)"
    using assms(2) unfolding chain_upto_def by blast+
  with p have "p = chain ! n" by (intro settled_unique [OF assms(1)]) simp_all
  with p(3) Suc show ?thesis by (simp add: head_of_nth)
qed

lemma settled_chain_full:
  assumes "settled R" and "chain_upto R a ord chain" and "chain_stops R {} a ord chain"
  shows "set chain = author_records R a ord"
proof
  have "c \<in> author_records R a ord" if c: "c \<in> set chain" for c
  proof -
    obtain i where "i < length chain" "c = chain ! i" using c by (metis in_set_conv_nth)
    with assms(2) have "c \<in> R" "header_slot (cr_header c) = (a, ord, Suc i)" unfolding chain_upto_def by blast+
    then show ?thesis by (simp add: author_records_def header_slot_def)
  qed
  then show "set chain \<subseteq> author_records R a ord" by blast
  have stop: "header_slot (cr_header r) \<noteq> (a, ord, Suc (length chain))" if "r \<in> R" for r
    using assms(3) settled_continues [OF assms(1,2)] that unfolding chain_stops_def by blast
  show "author_records R a ord \<subseteq> set chain"
  proof
    fix r assume "r \<in> author_records R a ord"
    then have r: "r \<in> R" "ch_author (cr_header r) = a" "ch_order_id (cr_header r) = ord"
      by (simp_all add: author_records_def)
    obtain k where k: "sequence_get (ch_author_sequence (cr_header r)) = Suc k"
      using assms(1) r(1) wf_Header_sequence [of "cr_header r"] by (metis gr0_conv_Suc settled_def)
    then have slot: "header_slot (cr_header r) = (a, ord, Suc k)" using r by (simp add: header_slot_def)
    have "k < length chain"
    proof (rule ccontr)
      assume "\<not> k < length chain"
      then obtain n where "k = length chain + n" by (metis le_iff_add not_less)
      with settled_downward [OF assms(1) r(1)] slot stop show False by blast
    qed
    moreover from this have "chain ! k \<in> R" "header_slot (cr_header (chain ! k)) = (a, ord, Suc k)"
      using assms(2) unfolding chain_upto_def by blast+
    ultimately show "r \<in> set chain" using settled_unique [OF assms(1) r(1)] slot by (metis nth_mem)
  qed
qed

lemma complete_settled:
  assumes "analysis_of scope R ext un a" and "an_readiness a = Complete"
    and "\<forall>r\<in>R. wf_Header (cr_header r)"
  shows "settled R" and "an_conflicts a = []" and "un = {}" and "acyclic (depends R) \<or> infinite R"
    and "(\<Union>r\<in>R. lacking R (ext \<union> un) r) = {}"
proof -
  have conf: "set (an_conflicts a) = cr_id ` {r \<in> R. in_conflict R r}"
    and miss: "set (an_missing a) = (\<Union>r\<in>R. lacking R (ext \<union> un) r)"
    and un: "set (an_uninterpreted a) = un"
    using assms(1) by (simp_all add: analysis_of_def)
  have "readiness_of (an_conflicts a) (an_uninterpreted a) (an_missing a) = Complete"
    using assms(1,2) by (simp add: analysis_of_def)
  then have empty: "an_conflicts a = []" "an_uninterpreted a = []" "an_missing a = []"
    by (simp_all add: readiness_of_def split: if_splits)
  show "an_conflicts a = []" by (rule empty)
  show "un = {}" using un empty(2) by simp
  show lack: "(\<Union>r\<in>R. lacking R (ext \<union> un) r) = {}" using miss empty(3) by simp
  have none: "\<not> in_conflict R r" if "r \<in> R" for r
  proof
    assume "in_conflict R r"
    with that have "cr_id r \<in> cr_id ` {r \<in> R. in_conflict R r}" by simp
    then have "cr_id r \<in> set (an_conflicts a)" unfolding conf .
    with empty(1) show False by simp
  qed
  have "orphaned R r = {}" if "r \<in> R" for r
  proof -
    have "lacking R (ext \<union> un) r = {}" using lack that by (simp add: SUP_bot_conv)
    then show ?thesis by (simp add: lacking_def)
  qed
  with none assms(3) show "settled R" by (simp add: settled_def in_conflict_def)
  show "acyclic (depends R) \<or> infinite R"
    using none acyclic_iff_accessible [of R] by (auto simp: in_conflict_def)
qed

lemma complete_head:
  assumes "settled R" and "is_head R {} a ord h"
  shows "\<exists>chain. set chain = author_records R a ord \<and> chain_upto R a ord chain \<and> h = head_of chain"
  using assms settled_chain_full [OF assms(1)] unfolding is_head_def by metis

text \<open>C12: a complete classification means what it says. For records whose headers the constructor
admits, every author chain of the scope is whole: the buyer's and the seller's records of the order
and the seller's quotes are each one list in which the record at position i has author sequence i + 1
and names its neighbour as predecessor, and the reported head is the last record of that list.
Moreover the parent relation has no cycle, nothing uninterpreted is left, and every parent is a known
record or a supplied external source.\<close>

theorem analyze_complete_chains:
  assumes "analyze scope rs ext un = Some (Inr a)" and "an_readiness a = Complete"
    and "\<forall>r\<in>set rs. wf_Header (cr_header r)"
  shows "(\<exists>chain. set chain = author_records (set rs) (sc_buyer scope) (Some (sc_order scope))
        \<and> chain_upto (set rs) (sc_buyer scope) (Some (sc_order scope)) chain \<and> an_buyer_head a = head_of chain)
    \<and> (\<exists>chain. set chain = author_records (set rs) (sc_seller scope) (Some (sc_order scope))
        \<and> chain_upto (set rs) (sc_seller scope) (Some (sc_order scope)) chain \<and> an_seller_head a = head_of chain)
    \<and> (\<exists>chain. set chain = author_records (set rs) (sc_seller scope) None
        \<and> chain_upto (set rs) (sc_seller scope) None chain \<and> an_quote_head a = head_of chain)
    \<and> acyclic (depends (set rs)) \<and> un = []
    \<and> (\<Union>r\<in>set rs. set (ch_parents (cr_header r))) \<subseteq> cr_source ` set rs \<union> set ext"
proof -
  note spec = analyze_analysis [OF assms(1)]
  note full = complete_settled [OF spec assms(2,3)]
  have heads: "is_head (set rs) {} (sc_buyer scope) (Some (sc_order scope)) (an_buyer_head a)"
    "is_head (set rs) {} (sc_seller scope) (Some (sc_order scope)) (an_seller_head a)"
    "is_head (set rs) {} (sc_seller scope) None (an_quote_head a)"
    using spec full(2) by (simp_all add: analysis_of_def)
  have "set (ch_parents (cr_header r)) \<subseteq> cr_source ` set rs \<union> set ext" if "r \<in> set rs" for r
  proof -
    have "lacking (set rs) (set ext \<union> set un) r = {}" using full(5) that by (simp add: SUP_bot_conv)
    then have "set (ch_parents (cr_header r)) - cr_source ` set rs - set ext = {}"
      using full(3) by (simp add: lacking_def)
    then show ?thesis by blast
  qed
  then have "(\<Union>r\<in>set rs. set (ch_parents (cr_header r))) \<subseteq> cr_source ` set rs \<union> set ext"
    by (rule UN_least)
  moreover have "acyclic (depends (set rs))" using full(4) by simp
  moreover have "un = []" using full(3) by simp
  ultimately show ?thesis using heads [THEN complete_head [OF full(1)]] by simp
qed

lemma sample_headers: "\<forall>r\<in>set [sample_second, sample_first]. wf_Header (cr_header r)"
  by code_simp

theorem analyze_complete_chains_witness:
  "\<exists>chain. set chain = author_records (set [sample_second, sample_first]) (sample_key 1) (Some (sc_order sample_scope))
     \<and> Some (from_bytes (replicate 32 17)) = head_of chain"
  using analyze_complete_chains [OF sample_analyzed _ sample_headers]
  by (auto simp: sample_analysis_def sample_scope_def)

end
