(* ===== verification/Causal_Claims.thy ===== *)
theory Causal_Claims
  imports Causal_Analysis
begin

text \<open>
  The claims that are prepared from a complete causal history:
  \<open>crates/domain/src/commerce/causal/request.rs\<close> selects an initial buyer request and
  \<open>crates/domain/src/commerce/causal/replacement.rs\<close> an authorized replacement of the terms.
\<close>

section \<open>Shared reads\<close>

definition seconds_min :: "UnixSeconds \<Rightarrow> UnixSeconds \<Rightarrow> UnixSeconds" where
  "seconds_min a b = (if seconds_get b < seconds_get a then b else a)"

definition clock_ahead :: "CausalRecord list \<Rightarrow> UnixSeconds \<Rightarrow> bool" where
  "clock_ahead records observed_at \<longleftrightarrow>
     (\<exists>r\<in>set records. seconds_get observed_at < seconds_get (ch_created_at (cr_header r)))"

abbreviation cr_payload :: "CausalRecord \<Rightarrow> CommercePayload" where
  "cr_payload r \<equiv> cc_payload (cr_content r)"

section \<open>Initial requests\<close>

datatype RequestClaimError =
    RequestInvalidGraph
  | RequestMissingHistory
  | RequestConflicted
  | RequestUninterpreted
  | WrongRequest
  | RequestExpired
  | RequestClockAhead
  | RequestWithdrawn
  | Declined
  | QuoteMismatch
  | RequestConflictingAuthorizations
  | RequiresReconciliation

record InitialRequestClaim =
  iq_request :: RecordId
  iq_terms :: Terms
  iq_expires :: UnixSeconds
  iq_quote :: "RecordId option"

definition find_record :: "CausalRecord list \<Rightarrow> RecordId \<Rightarrow> CausalRecord option" where
  "find_record records rid = List.find (\<lambda>r. cr_id r = rid) records"

definition deadline :: "TermsRequest \<Rightarrow> CausalRecord list \<Rightarrow> RequestClaimError + UnixSeconds" where
  "deadline request records =
     (case tr_quote request of
        None \<Rightarrow> Inr (tr_expires_at request)
      | Some rid \<Rightarrow>
          bindE (ok_or RequestMissingHistory (find_record records rid)) (\<lambda>quoted.
            case cr_payload quoted of
              Quote quote \<Rightarrow>
                if tq_terms quote \<noteq> tr_terms request then Inl QuoteMismatch
                else Inr (seconds_min (tr_expires_at request) (tq_expires_at quote))
            | _ \<Rightarrow> Inl QuoteMismatch))"

definition request_withdrawn :: "CausalRecord list \<Rightarrow> RecordId \<Rightarrow> bool" where
  "request_withdrawn records rid \<longleftrightarrow>
     (\<exists>r\<in>set records. case cr_payload r of WithdrawalRequested v \<Rightarrow> rr_target v = rid | _ \<Rightarrow> False)"

definition request_declined :: "CausalRecord list \<Rightarrow> RecordId \<Rightarrow> bool" where
  "request_declined records rid \<longleftrightarrow>
     (\<exists>r\<in>set records. case cr_payload r of Decline v \<Rightarrow> rr_target v = rid | _ \<Rightarrow> False)"

definition request_scan ::
  "CausalRecord list \<Rightarrow> RecordId \<Rightarrow> TermsRequest \<Rightarrow> UnixSeconds \<Rightarrow> CausalRecord \<Rightarrow> RequestClaimError + unit" where
  "request_scan records selected request observed_at r =
     (case cr_payload r of
        Request other \<Rightarrow>
          bindE (deadline other records) (\<lambda>other_expires.
            if cr_id r \<noteq> selected \<and> seconds_get observed_at < seconds_get other_expires
               \<and> \<not> request_withdrawn records (cr_id r) \<and> \<not> request_declined records (cr_id r)
               \<and> tr_terms other \<noteq> tr_terms request
            then Inl RequestConflictingAuthorizations else Inr ())
      | Quote _ \<Rightarrow> Inr ()
      | Decline _ \<Rightarrow> Inr ()
      | WithdrawalRequested _ \<Rightarrow> Inr ()
      | _ \<Rightarrow> Inl RequiresReconciliation)"

definition request_readiness :: "CausalReadiness \<Rightarrow> RequestClaimError + unit" where
  "request_readiness readiness = (case readiness of
      Complete \<Rightarrow> Inr ()
    | MissingHistory \<Rightarrow> Inl RequestMissingHistory
    | Conflicted \<Rightarrow> Inl RequestConflicted
    | Uninterpreted \<Rightarrow> Inl RequestUninterpreted)"

definition select_request ::
  "CausalScope \<Rightarrow> CausalRecord list \<Rightarrow> RecordId \<Rightarrow> RequestClaimError + TermsRequest" where
  "select_request scope records selected =
     bindE (ok_or RequestMissingHistory (find_record records selected)) (\<lambda>r.
       case cr_payload r of
         Request request \<Rightarrow>
           if ch_order_id (cr_header r) \<noteq> Some (sc_order scope) \<or> ch_author (cr_header r) \<noteq> sc_buyer scope
           then Inl WrongRequest else Inr request
       | _ \<Rightarrow> Inl WrongRequest)"

definition admit_request ::
  "CausalScope \<Rightarrow> RecordId \<Rightarrow> CausalRecord list \<Rightarrow> UnixSeconds \<Rightarrow> RequestClaimError + InitialRequestClaim" where
  "admit_request scope selected records observed_at =
     bindE (select_request scope records selected) (\<lambda>request.
     if clock_ahead records observed_at then Inl RequestClockAhead
     else bindE (deadline request records) (\<lambda>expires.
     if seconds_get expires \<le> seconds_get observed_at then Inl RequestExpired
     else if request_withdrawn records selected then Inl RequestWithdrawn
     else if request_declined records selected then Inl Declined
     else bindE (try_all (request_scan records selected request observed_at) records) (\<lambda>_.
       Inr \<lparr>iq_request = selected, iq_terms = tr_terms request, iq_expires = expires,
            iq_quote = tr_quote request\<rparr>)))"

definition prepare_initial_request ::
  "CausalScope \<Rightarrow> RecordId \<Rightarrow> CausalRecord list \<Rightarrow> SourceId list \<Rightarrow> SourceId list \<Rightarrow> UnixSeconds
    \<Rightarrow> (RequestClaimError + InitialRequestClaim) option" where
  "prepare_initial_request scope selected records external uninterpreted observed_at =
     map_option (\<lambda>result.
       bindE (map_err (\<lambda>_. RequestInvalidGraph) result) (\<lambda>analysis.
       bindE (request_readiness (an_readiness analysis)) (\<lambda>_.
         admit_request scope selected records observed_at)))
     (analyze scope records external uninterpreted)"

section \<open>Replacement terms\<close>

datatype ReplacementTermsError =
    ReplacementInvalidGraph
  | ReplacementMissingHistory
  | ReplacementConflicted
  | ReplacementUninterpreted
  | WrongBase
  | WrongProposal
  | WrongAuthorization
  | TermsDigestMismatch
  | ReplacementExpired
  | ReplacementClockAhead
  | ReplacementWithdrawn
  | Rejected
  | ReplacementConflictingAuthorizations

record ReplacementTermsSelection =
  se_base :: RecordId
  se_proposal :: RecordId
  se_authorization :: RecordId
  se_digest :: TermsDigest

record ReplacementTermsClaim =
  rt_selection :: ReplacementTermsSelection
  rt_base :: AgreementCommitment
  rt_terms :: Terms
  rt_expires :: UnixSeconds

type_synonym known_records = "(RecordId, CommerceContent) btree_map"

definition known_of :: "CausalRecord list \<Rightarrow> known_records" where
  "known_of records = bt_collect (map (\<lambda>r. (cr_id r, cr_content r)) records)"

definition terms_withdrawn :: "known_records \<Rightarrow> RecordId \<Rightarrow> PublicKey \<Rightarrow> bool" where
  "terms_withdrawn known rid author \<longleftrightarrow>
     (\<exists>content\<in>set (map snd known). ch_author (cc_header content) = author
        \<and> (case cc_payload content of WithdrawalRequested v \<Rightarrow> rr_target v = rid | _ \<Rightarrow> False))"

definition terms_rejected :: "known_records \<Rightarrow> RecordId \<Rightarrow> PublicKey \<Rightarrow> bool" where
  "terms_rejected known rid author \<longleftrightarrow>
     (\<exists>content\<in>set (map snd known). ch_author (cc_header content) \<noteq> author
        \<and> (case cc_payload content of TermsRejected v \<Rightarrow> rr_target v = rid | _ \<Rightarrow> False))"

definition replacement_scan ::
  "known_records \<Rightarrow> ReplacementTermsSelection \<Rightarrow> TermsProposal \<Rightarrow> UnixSeconds
    \<Rightarrow> RecordId \<times> CommerceContent \<Rightarrow> ReplacementTermsError + unit" where
  "replacement_scan known selected terms observed_at entry =
     (let rid = fst entry; other = snd entry in
      case cc_payload other of
        TermsAuthorized other_authorization \<Rightarrow>
          if rid = se_authorization selected
             \<or> seconds_get (ta_expires_at other_authorization) \<le> seconds_get observed_at
             \<or> terms_withdrawn known rid (ch_author (cc_header other))
          then Inr ()
          else bindE (ok_or ReplacementMissingHistory (bt_get known (ta_proposal other_authorization)))
            (\<lambda>other_proposal.
              case cc_payload other_proposal of
                TermsProposed other_terms \<Rightarrow>
                  if ch_author (cc_header other_proposal) = ch_author (cc_header other)
                  then Inl WrongAuthorization
                  else if tp_base_agreement other_terms \<noteq> Some (se_base selected)
                     \<or> seconds_get (tp_expires_at other_terms) \<le> seconds_get observed_at
                     \<or> terms_rejected known (ta_proposal other_authorization)
                         (ch_author (cc_header other_proposal))
                  then Inr ()
                  else if tp_terms other_terms \<noteq> tp_terms terms
                     \<or> ta_terms_digest other_authorization \<noteq> se_digest selected
                  then Inl ReplacementConflictingAuthorizations
                  else Inr ()
              | _ \<Rightarrow> Inl WrongAuthorization)
      | _ \<Rightarrow> Inr ())"

definition replacement_readiness :: "CausalReadiness \<Rightarrow> ReplacementTermsError + unit" where
  "replacement_readiness readiness = (case readiness of
      Complete \<Rightarrow> Inr ()
    | MissingHistory \<Rightarrow> Inl ReplacementMissingHistory
    | Conflicted \<Rightarrow> Inl ReplacementConflicted
    | Uninterpreted \<Rightarrow> Inl ReplacementUninterpreted)"

definition select_base :: "known_records \<Rightarrow> ReplacementTermsSelection \<Rightarrow> ReplacementTermsError + AgreementCommitment" where
  "select_base known selected =
     bindE (ok_or ReplacementMissingHistory (bt_get known (se_base selected))) (\<lambda>base.
       case cc_payload base of AgreementCommitted v \<Rightarrow> Inr v | _ \<Rightarrow> Inl WrongBase)"

definition select_proposal ::
  "known_records \<Rightarrow> ReplacementTermsSelection \<Rightarrow> ReplacementTermsError + (CommerceContent \<times> TermsProposal)" where
  "select_proposal known selected =
     bindE (ok_or ReplacementMissingHistory (bt_get known (se_proposal selected))) (\<lambda>proposal.
       case cc_payload proposal of
         TermsProposed terms \<Rightarrow>
           if tp_base_agreement terms \<noteq> Some (se_base selected) then Inl WrongProposal
           else Inr (proposal, terms)
       | _ \<Rightarrow> Inl WrongProposal)"

definition select_authorization ::
  "known_records \<Rightarrow> ReplacementTermsSelection \<Rightarrow> CommerceContent
    \<Rightarrow> ReplacementTermsError + (CommerceContent \<times> TermsAuthorization)" where
  "select_authorization known selected proposal =
     bindE (ok_or ReplacementMissingHistory (bt_get known (se_authorization selected))) (\<lambda>authorization.
       case cc_payload authorization of
         TermsAuthorized authorized \<Rightarrow>
           if ta_proposal authorized \<noteq> se_proposal selected
              \<or> ch_author (cc_header authorization) = ch_author (cc_header proposal)
           then Inl WrongAuthorization
           else if ta_terms_digest authorized \<noteq> se_digest selected then Inl TermsDigestMismatch
           else Inr (authorization, authorized)
       | _ \<Rightarrow> Inl WrongAuthorization)"

definition admit_replacement ::
  "ReplacementTermsSelection \<Rightarrow> CausalRecord list \<Rightarrow> UnixSeconds
    \<Rightarrow> ReplacementTermsError + ReplacementTermsClaim" where
  "admit_replacement selected records observed_at =
     (let known = known_of records in
      bindE (select_base known selected) (\<lambda>base.
      bindE (select_proposal known selected) (\<lambda>(proposal, terms).
      bindE (select_authorization known selected proposal) (\<lambda>(authorization, authorized).
      if clock_ahead records observed_at then Inl ReplacementClockAhead
      else let expires = seconds_min (tp_expires_at terms) (ta_expires_at authorized) in
      if seconds_get expires \<le> seconds_get observed_at then Inl ReplacementExpired
      else if terms_withdrawn known (se_authorization selected) (ch_author (cc_header authorization))
      then Inl ReplacementWithdrawn
      else if terms_rejected known (se_proposal selected) (ch_author (cc_header proposal))
      then Inl Rejected
      else bindE (try_all (replacement_scan known selected terms observed_at) known) (\<lambda>_.
        Inr \<lparr>rt_selection = selected, rt_base = base, rt_terms = tp_terms terms, rt_expires = expires\<rparr>)))))"

definition prepare_replacement_terms ::
  "CausalScope \<Rightarrow> ReplacementTermsSelection \<Rightarrow> CausalRecord list \<Rightarrow> SourceId list \<Rightarrow> SourceId list
    \<Rightarrow> UnixSeconds \<Rightarrow> (ReplacementTermsError + ReplacementTermsClaim) option" where
  "prepare_replacement_terms scope selected records external uninterpreted observed_at =
     map_option (\<lambda>result.
       bindE (map_err (\<lambda>_. ReplacementInvalidGraph) result) (\<lambda>analysis.
       bindE (replacement_readiness (an_readiness analysis)) (\<lambda>_.
         admit_replacement selected records observed_at)))
     (analyze scope records external uninterpreted)"

section \<open>Admitted initial requests\<close>

lemma seconds_min_less [simp]:
  "n < seconds_get (seconds_min a b) \<longleftrightarrow> n < seconds_get a \<and> n < seconds_get b"
  by (auto simp: seconds_min_def)

lemma find_record_Some: "find_record rs rid = Some r \<Longrightarrow> r \<in> set rs \<and> cr_id r = rid"
  unfolding find_record_def by (auto simp: find_Some_iff)

text \<open>Reading one family: every other payload is the given error.\<close>

lemma family_Inr [result_simps]:
  "(case p of Quote v \<Rightarrow> f0 v | _ \<Rightarrow> Inl e) = Inr x \<longleftrightarrow> (\<exists>v. p = Quote v \<and> f0 v = Inr x)"
  "(case p of Request v \<Rightarrow> f1 v | _ \<Rightarrow> Inl e) = Inr x \<longleftrightarrow> (\<exists>v. p = Request v \<and> f1 v = Inr x)"
  "(case p of AgreementCommitted v \<Rightarrow> f2 v | _ \<Rightarrow> Inl e) = Inr x \<longleftrightarrow> (\<exists>v. p = AgreementCommitted v \<and> f2 v = Inr x)"
  "(case p of TermsProposed v \<Rightarrow> f3 v | _ \<Rightarrow> Inl e) = Inr x \<longleftrightarrow> (\<exists>v. p = TermsProposed v \<and> f3 v = Inr x)"
  "(case p of TermsAuthorized v \<Rightarrow> f4 v | _ \<Rightarrow> Inl e) = Inr x \<longleftrightarrow> (\<exists>v. p = TermsAuthorized v \<and> f4 v = Inr x)"
  by (cases p; simp)+

lemma deadline_Inr:
  "deadline q rs = Inr e \<longleftrightarrow>
     (tr_quote q = None \<and> e = tr_expires_at q)
     \<or> (\<exists>r v. tr_quote q = Some (cr_id r) \<and> find_record rs (cr_id r) = Some r \<and> cr_payload r = Quote v
          \<and> tq_terms v = tr_terms q \<and> e = seconds_min (tr_expires_at q) (tq_expires_at v))"
proof (cases "tr_quote q")
  case None
  then show ?thesis by (auto simp: deadline_def)
next
  case (Some rid)
  have "deadline q rs = Inr e \<longleftrightarrow> (\<exists>r v. find_record rs rid = Some r \<and> cr_payload r = Quote v
      \<and> tq_terms v = tr_terms q \<and> e = seconds_min (tr_expires_at q) (tq_expires_at v))"
    using Some by (auto simp: deadline_def result_simps)
  with Some show ?thesis by (auto dest: find_record_Some)
qed

lemma admit_request_Inr:
  "admit_request scope sel rs t = Inr c \<longleftrightarrow>
     (\<exists>r q. find_record rs sel = Some r \<and> cr_payload r = Request q
        \<and> ch_order_id (cr_header r) = Some (sc_order scope) \<and> ch_author (cr_header r) = sc_buyer scope
        \<and> \<not> clock_ahead rs t \<and> deadline q rs = Inr (iq_expires c)
        \<and> seconds_get t < seconds_get (iq_expires c)
        \<and> \<not> request_withdrawn rs sel \<and> \<not> request_declined rs sel
        \<and> (\<forall>x\<in>set rs. request_scan rs sel q t x = Inr ())
        \<and> c = \<lparr>iq_request = sel, iq_terms = tr_terms q, iq_expires = iq_expires c, iq_quote = tr_quote q\<rparr>)"
proof -
  have sel: "select_request scope rs sel = Inr q \<longleftrightarrow>
      (\<exists>r. find_record rs sel = Some r \<and> cr_payload r = Request q
        \<and> ch_order_id (cr_header r) = Some (sc_order scope) \<and> ch_author (cr_header r) = sc_buyer scope)" for q
    by (auto simp: select_request_def result_simps)
  have "admit_request scope sel rs t = Inr c \<longleftrightarrow>
      (\<exists>q e. select_request scope rs sel = Inr q \<and> \<not> clock_ahead rs t \<and> deadline q rs = Inr e
        \<and> seconds_get t < seconds_get e \<and> \<not> request_withdrawn rs sel \<and> \<not> request_declined rs sel
        \<and> (\<forall>x\<in>set rs. request_scan rs sel q t x = Inr ())
        \<and> c = \<lparr>iq_request = sel, iq_terms = tr_terms q, iq_expires = e, iq_quote = tr_quote q\<rparr>)"
    by (auto simp: admit_request_def result_simps not_le)
  then show ?thesis unfolding sel by auto
qed

lemma readiness_Inr [result_simps]:
  "request_readiness x = Inr u \<longleftrightarrow> x = Complete"
  "replacement_readiness x = Inr u \<longleftrightarrow> x = Complete"
  by (cases x; simp add: request_readiness_def replacement_readiness_def)+

lemma prepare_initial_Inr:
  "prepare_initial_request scope sel rs ext un t = Some (Inr c) \<longleftrightarrow>
     (\<exists>a. analyze scope rs ext un = Some (Inr a) \<and> an_readiness a = Complete
        \<and> admit_request scope sel rs t = Inr c)"
  by (auto simp: prepare_initial_request_def result_simps)

text \<open>Within one admitted scan, another live request has the same terms.\<close>

lemma request_scan_agrees:
  assumes "request_scan rs sel q t r = Inr ()" and "cr_payload r = Request p" and "cr_id r \<noteq> sel"
    and "deadline p rs = Inr e" and "seconds_get t < seconds_get e"
    and "\<not> request_withdrawn rs (cr_id r)" and "\<not> request_declined rs (cr_id r)"
  shows "tr_terms p = tr_terms q"
  using assms by (auto simp: request_scan_def split: if_splits)

lemma admitted_requests_agree:
  assumes "admit_request scope sel rs t = Inr c" and "admit_request scope sel' rs t = Inr c'"
  shows "iq_terms c = iq_terms c'"
proof -
  obtain r q where r: "find_record rs sel = Some r" "cr_payload r = Request q"
    and scan: "\<forall>x\<in>set rs. request_scan rs sel q t x = Inr ()" and c: "iq_terms c = tr_terms q"
    using assms(1) unfolding admit_request_Inr by (metis InitialRequestClaim.select_convs(2))
  obtain r' q' where r': "find_record rs sel' = Some r'" "cr_payload r' = Request q'"
    "deadline q' rs = Inr (iq_expires c')" "seconds_get t < seconds_get (iq_expires c')"
    "\<not> request_withdrawn rs sel'" "\<not> request_declined rs sel'" and c': "iq_terms c' = tr_terms q'"
    using assms(2) unfolding admit_request_Inr by (metis InitialRequestClaim.select_convs(2))
  note mem = find_record_Some [OF r'(1)]
  show ?thesis
  proof (cases "sel = sel'")
    case True
    with r r' c c' show ?thesis by simp
  next
    case False
    have "request_scan rs sel q t r' = Inr ()" using scan mem by blast
    then have "tr_terms q' = tr_terms q"
      using False mem r'(2-) by (intro request_scan_agrees) auto
    with c c' show ?thesis by simp
  qed
qed

text \<open>
  A complete history, in terms of its records: no two of them claim one author slot, every predecessor
  is a known record that precedes in its author chain, every parent is a known record or a supplied
  external source, the parents have no cycle, and nothing is uninterpreted.
\<close>

definition complete_history :: "CausalRecord set \<Rightarrow> SourceId set \<Rightarrow> SourceId list \<Rightarrow> bool" where
  "complete_history R ext un \<longleftrightarrow>
     (\<forall>r\<in>R. (\<forall>r'\<in>R. same_slot r' r \<longrightarrow> r' = r)
        \<and> (\<forall>p\<in>R. ch_author_previous (cr_header r) = Some (cr_id p) \<longrightarrow>
            ch_author (cr_header p) = ch_author (cr_header r) \<and> ch_order_id (cr_header p) = ch_order_id (cr_header r)
            \<and> sequence_get (ch_author_sequence (cr_header r)) = sequence_get (ch_author_sequence (cr_header p)) + 1)
        \<and> record_source ` set_option (ch_author_previous (cr_header r)) \<subseteq> cr_source ` R
        \<and> set (ch_parents (cr_header r)) \<subseteq> cr_source ` R \<union> ext)
     \<and> acyclic (depends R) \<and> un = []"

lemma complete_analysis:
  assumes "analyze scope rs ext un = Some (Inr a)" and "an_readiness a = Complete"
  shows "complete_history (set rs) (set ext) un"
proof -
  note spec = analyze_analysis [OF assms(1), unfolded analysis_of_def]
  have empty: "an_conflicts a = []" "an_uninterpreted a = []" "an_missing a = []"
    using spec assms(2) by (auto simp: readiness_of_def split: if_splits)
  have calm: "\<not> in_conflict (set rs) r" and whole: "lacking (set rs) (set ext \<union> set un) r = {}" if "r \<in> set rs" for r
    using spec empty that by auto
  have un: "un = []" using spec empty(2) by simp
  have "acyclic (depends (set rs))"
    using calm acyclic_iff_accessible [of "set rs"] by (auto simp: in_conflict_def)
  moreover have "r' = r" if "r \<in> set rs" "r' \<in> set rs" "same_slot r' r" for r r'
    using calm [OF that(1)] that by (auto simp: in_conflict_def forked_def)
  moreover have "ch_author (cr_header p) = ch_author (cr_header r) \<and> ch_order_id (cr_header p) = ch_order_id (cr_header r)
      \<and> sequence_get (ch_author_sequence (cr_header r)) = sequence_get (ch_author_sequence (cr_header p)) + 1"
    if "r \<in> set rs" "p \<in> set rs" "ch_author_previous (cr_header r) = Some (cr_id p)" for r p
  proof -
    have "\<not> predecessor_differs (cr_header p) (cr_header r)"
      using calm [OF that(1)] that by (auto simp: in_conflict_def broken_def)
    then show ?thesis by (auto simp: predecessor_differs_def checked_simps)
  qed
  moreover have "record_source ` set_option (ch_author_previous (cr_header r)) \<subseteq> cr_source ` set rs"
      "set (ch_parents (cr_header r)) \<subseteq> cr_source ` set rs \<union> set ext" if "r \<in> set rs" for r
    using whole [OF that] un by (auto simp: lacking_def orphaned_def)
  ultimately show ?thesis using un unfolding complete_history_def by blast
qed

text \<open>The records an initial request may stand beside.\<close>

definition request_stage :: "CommercePayload \<Rightarrow> bool" where
  "request_stage payload \<longleftrightarrow> (case payload of
      Request _ \<Rightarrow> True | Quote _ \<Rightarrow> True | Decline _ \<Rightarrow> True | WithdrawalRequested _ \<Rightarrow> True | _ \<Rightarrow> False)"

lemma request_scan_stage: "request_scan rs sel q t r = Inr u \<Longrightarrow> request_stage (cr_payload r)"
  by (auto simp: request_scan_def request_stage_def split: CommercePayload.splits)

text \<open>C16: a prepared initial request is a live buyer request of a complete history: no two records claim
one author slot, every predecessor is a known record in its place, every parent is a known record or a
supplied external source, there is no cycle of parents, nothing is uninterpreted, and nothing beyond
requests, quotes, declines and withdrawals has been recorded. Its record is among
the records, is authored by the buyer in the order, and carries the terms of the claim; the claim expires
after the observation, no later than the request, and, when a quote is named, no later than that
quote, whose terms are the same; no record withdraws or declines it and none is dated after the
observation. Two requests prepared from the same records at the same time never promise different
terms, whichever records were selected.\<close>

theorem initial_request_live:
  assumes "prepare_initial_request scope sel rs ext un t = Some (Inr c)"
    and "prepare_initial_request scope sel' rs ext' un' t = Some (Inr c')"
  shows "complete_history (set rs) (set ext) un \<and> list_all (\<lambda>r. request_stage (cr_payload r)) rs
    \<and> (\<exists>r\<in>set rs. \<exists>q. cr_id r = sel \<and> cr_payload r = Request q
        \<and> ch_order_id (cr_header r) = Some (sc_order scope) \<and> ch_author (cr_header r) = sc_buyer scope
        \<and> iq_request c = sel \<and> iq_terms c = tr_terms q \<and> iq_quote c = tr_quote q
        \<and> seconds_get t < seconds_get (iq_expires c)
        \<and> seconds_get (iq_expires c) \<le> seconds_get (tr_expires_at q)
        \<and> (tr_quote q = None \<or> (\<exists>x\<in>set rs. \<exists>v. tr_quote q = Some (cr_id x) \<and> cr_payload x = Quote v
            \<and> tq_terms v = iq_terms c \<and> seconds_get (iq_expires c) \<le> seconds_get (tq_expires_at v))))
    \<and> \<not> request_withdrawn rs sel \<and> \<not> request_declined rs sel \<and> \<not> clock_ahead rs t
    \<and> iq_terms c = iq_terms c'"
proof -
  have adm: "admit_request scope sel rs t = Inr c" "admit_request scope sel' rs t = Inr c'"
    using assms unfolding prepare_initial_Inr by blast+
  obtain a where "analyze scope rs ext un = Some (Inr a)" "an_readiness a = Complete"
    using assms(1) unfolding prepare_initial_Inr by blast
  then have complete: "complete_history (set rs) (set ext) un" by (rule complete_analysis)
  have stage: "list_all (\<lambda>r. request_stage (cr_payload r)) rs"
    using adm(1) request_scan_stage unfolding admit_request_Inr list_all_iff by blast
  obtain r q where r: "find_record rs sel = Some r" "cr_payload r = Request q"
    "ch_order_id (cr_header r) = Some (sc_order scope)" "ch_author (cr_header r) = sc_buyer scope"
    "\<not> clock_ahead rs t" "deadline q rs = Inr (iq_expires c)" "seconds_get t < seconds_get (iq_expires c)"
    "\<not> request_withdrawn rs sel" "\<not> request_declined rs sel"
    "c = \<lparr>iq_request = sel, iq_terms = tr_terms q, iq_expires = iq_expires c, iq_quote = tr_quote q\<rparr>"
    using adm(1) unfolding admit_request_Inr by blast
  have fields: "iq_request c = sel" "iq_terms c = tr_terms q" "iq_quote c = tr_quote q"
    by (subst r(10), simp)+
  have "seconds_get (iq_expires c) \<le> seconds_get (tr_expires_at q)
      \<and> (tr_quote q = None \<or> (\<exists>x\<in>set rs. \<exists>v. tr_quote q = Some (cr_id x) \<and> cr_payload x = Quote v
          \<and> tq_terms v = tr_terms q \<and> seconds_get (iq_expires c) \<le> seconds_get (tq_expires_at v)))"
    using r(6) unfolding deadline_Inr by (auto simp: seconds_min_def dest!: find_record_Some)
  with r fields find_record_Some [OF r(1)] admitted_requests_agree [OF adm] complete stage show ?thesis by metis
qed

definition sample_private_terms :: Terms where
  "sample_private_terms = \<lparr>tm_buyer = sample_key 1, tm_seller = sample_key 2, tm_lines = [sample_line],
     tm_fulfillment = [sample_group], tm_fulfillment_charge = Money_new usd (MinorAmount 0),
     tm_maximum_total = Money_new usd (MinorAmount 1200), tm_supply = StockBacked\<rparr>"

definition sample_request :: CausalRecord where
  "sample_request = \<lparr>cr_id = from_bytes (replicate 32 16), cr_content =
     \<lparr>cc_header = sample_header 1 None [event_source (rev_event_id sample_source)],
      cc_payload = Request \<lparr>tr_terms = sample_private_terms, tr_expires_at = UnixSeconds 90, tr_quote = None\<rparr>\<rparr>\<rparr>"

definition sample_claim :: InitialRequestClaim where
  "sample_claim = \<lparr>iq_request = cr_id sample_request, iq_terms = sample_private_terms,
     iq_expires = UnixSeconds 90, iq_quote = None\<rparr>"

lemma sample_prepared:
  "prepare_initial_request sample_scope (cr_id sample_request) [sample_request]
     [event_source (rev_event_id sample_source)] [] (UnixSeconds 60) = Some (Inr sample_claim)"
  by code_simp

theorem initial_request_live_witness:
  "complete_history {sample_request} {event_source (rev_event_id sample_source)} []
   \<and> \<not> request_withdrawn [sample_request] (cr_id sample_request) \<and> \<not> clock_ahead [sample_request] (UnixSeconds 60)"
  using initial_request_live [OF sample_prepared sample_prepared] by simp

section \<open>Admitted replacements\<close>

lemma known_of_get: "(rid, content) \<in> set (known_of rs) \<longleftrightarrow> map_of (known_of rs) rid = Some content"
  unfolding known_of_def by (simp add: map_of_eq_Some_iff bt_inv_distinct)

lemma known_of_member:
  assumes "map_of (known_of rs) rid = Some content"
  obtains r where "r \<in> set rs" "cr_id r = rid" "cr_content r = content"
proof -
  have "map_of (rev (map (\<lambda>r. (cr_id r, cr_content r)) rs)) rid = Some content"
    using assms by (simp add: known_of_def bt_collect_get)
  from map_of_SomeD [OF this] that show ?thesis by auto
qed

lemma select_base_Inr [result_simps]:
  "select_base known sel = Inr v \<longleftrightarrow>
     (\<exists>b. map_of known (se_base sel) = Some b \<and> cc_payload b = AgreementCommitted v)"
  by (auto simp: select_base_def result_simps)

lemma select_proposal_Inr [result_simps]:
  "select_proposal known sel = Inr pt \<longleftrightarrow> map_of known (se_proposal sel) = Some (fst pt)
     \<and> cc_payload (fst pt) = TermsProposed (snd pt) \<and> tp_base_agreement (snd pt) = Some (se_base sel)"
  by (cases pt) (auto simp: select_proposal_def result_simps)

lemma select_authorization_Inr [result_simps]:
  "select_authorization known sel pc = Inr az \<longleftrightarrow> map_of known (se_authorization sel) = Some (fst az)
     \<and> cc_payload (fst az) = TermsAuthorized (snd az) \<and> ta_proposal (snd az) = se_proposal sel
     \<and> ch_author (cc_header (fst az)) \<noteq> ch_author (cc_header pc) \<and> ta_terms_digest (snd az) = se_digest sel"
  by (cases az) (auto simp: select_authorization_def result_simps)

text \<open>A live authorization: unexpired, not withdrawn, of an unexpired and unrejected proposal.\<close>

definition live_authorization ::
  "known_records \<Rightarrow> ReplacementTermsSelection \<Rightarrow> UnixSeconds \<Rightarrow> CommerceContent \<Rightarrow> TermsProposal
    \<Rightarrow> CommerceContent \<Rightarrow> TermsAuthorization \<Rightarrow> bool" where
  "live_authorization known sel t pc p ac z \<longleftrightarrow>
     map_of known (se_proposal sel) = Some pc \<and> cc_payload pc = TermsProposed p
     \<and> tp_base_agreement p = Some (se_base sel)
     \<and> map_of known (se_authorization sel) = Some ac \<and> cc_payload ac = TermsAuthorized z
     \<and> ta_proposal z = se_proposal sel \<and> ch_author (cc_header ac) \<noteq> ch_author (cc_header pc)
     \<and> ta_terms_digest z = se_digest sel
     \<and> seconds_get t < seconds_get (tp_expires_at p) \<and> seconds_get t < seconds_get (ta_expires_at z)
     \<and> \<not> terms_withdrawn known (se_authorization sel) (ch_author (cc_header ac))
     \<and> \<not> terms_rejected known (se_proposal sel) (ch_author (cc_header pc))"

lemma admit_replacement_Inr:
  "admit_replacement sel rs t = Inr c \<longleftrightarrow>
     (\<exists>b v pc p ac z. map_of (known_of rs) (se_base sel) = Some b \<and> cc_payload b = AgreementCommitted v
        \<and> \<not> clock_ahead rs t \<and> live_authorization (known_of rs) sel t pc p ac z
        \<and> (\<forall>x\<in>set (known_of rs). replacement_scan (known_of rs) sel p t x = Inr ())
        \<and> c = \<lparr>rt_selection = sel, rt_base = v, rt_terms = tp_terms p,
               rt_expires = seconds_min (tp_expires_at p) (ta_expires_at z)\<rparr>)"
proof -
  have "admit_replacement sel rs t = Inr c \<longleftrightarrow>
     (\<exists>v pt az. select_base (known_of rs) sel = Inr v \<and> select_proposal (known_of rs) sel = Inr pt
        \<and> select_authorization (known_of rs) sel (fst pt) = Inr az \<and> \<not> clock_ahead rs t
        \<and> seconds_get t < seconds_get (seconds_min (tp_expires_at (snd pt)) (ta_expires_at (snd az)))
        \<and> \<not> terms_withdrawn (known_of rs) (se_authorization sel) (ch_author (cc_header (fst az)))
        \<and> \<not> terms_rejected (known_of rs) (se_proposal sel) (ch_author (cc_header (fst pt)))
        \<and> (\<forall>x\<in>set (known_of rs). replacement_scan (known_of rs) sel (snd pt) t x = Inr ())
        \<and> c = \<lparr>rt_selection = sel, rt_base = v, rt_terms = tp_terms (snd pt),
               rt_expires = seconds_min (tp_expires_at (snd pt)) (ta_expires_at (snd az))\<rparr>)"
    by (simp add: admit_replacement_def Let_def case_prod_beta bindE_eq_Inr guard_eq_Inr try_all_eq_Inr not_le
        del: seconds_min_less) (simp only: not_le [symmetric], blast)
  then show ?thesis
    unfolding live_authorization_def
    by (simp add: select_base_Inr select_proposal_Inr select_authorization_Inr) blast
qed

lemma replacement_scan_agrees:
  assumes "replacement_scan known sel p t (se_authorization sel', ac) = Inr ()"
    and "live_authorization known sel' t pc p' ac z" and "se_base sel' = se_base sel"
    and "se_authorization sel' \<noteq> se_authorization sel"
  shows "tp_terms p' = tp_terms p \<and> se_digest sel' = se_digest sel"
  using assms unfolding live_authorization_def
  by (auto simp: replacement_scan_def Let_def split: if_splits)

lemma admitted_replacements_agree:
  assumes "admit_replacement sel rs t = Inr c" and "admit_replacement sel' rs t = Inr c'"
    and "se_base sel' = se_base sel"
  shows "rt_terms c = rt_terms c' \<and> se_digest sel = se_digest sel'"
proof -
  let ?k = "known_of rs"
  obtain pc p ac z where live: "live_authorization ?k sel t pc p ac z" and c: "rt_terms c = tp_terms p"
    and scan: "\<forall>x\<in>set ?k. replacement_scan ?k sel p t x = Inr ()"
    using assms(1) unfolding admit_replacement_Inr by (metis ReplacementTermsClaim.select_convs(3))
  obtain pc' p' ac' z' where live': "live_authorization ?k sel' t pc' p' ac' z'" and c': "rt_terms c' = tp_terms p'"
    using assms(2) unfolding admit_replacement_Inr by (metis ReplacementTermsClaim.select_convs(3))
  show ?thesis
  proof (cases "se_authorization sel' = se_authorization sel")
    case True
    with live live' have "ac' = ac" "z' = z" by (simp_all add: live_authorization_def)
    with live live' have "se_proposal sel' = se_proposal sel" "se_digest sel' = se_digest sel"
      by (simp_all add: live_authorization_def)
    with live live' c c' show ?thesis by (simp add: live_authorization_def)
  next
    case False
    have "(se_authorization sel', ac') \<in> set ?k"
      using live' by (simp add: known_of_get live_authorization_def)
    with scan have "replacement_scan ?k sel p t (se_authorization sel', ac') = Inr ()" by blast
    from replacement_scan_agrees [OF this live' assms(3) False] c c' show ?thesis by simp
  qed
qed

lemma prepare_replacement_Inr:
  "prepare_replacement_terms scope sel rs ext un t = Some (Inr c) \<longleftrightarrow>
     (\<exists>a. analyze scope rs ext un = Some (Inr a) \<and> an_readiness a = Complete
        \<and> admit_replacement sel rs t = Inr c)"
  by (auto simp: prepare_replacement_terms_def result_simps)

text \<open>C15: prepared replacement terms are mutually agreed and unambiguous. The selected base is a
commitment among the records, the terms are those of a selected proposal for that base, and the selected
authorization commits to the selected digest, names that proposal and comes from the other party;
neither is expired, the authorization is not withdrawn by its author and the proposal is not rejected by the other party.
Two replacements of one base prepared from the same records at the same time never differ in
their terms or in the digest of their terms.\<close>

theorem replacement_terms_agreed:
  assumes "prepare_replacement_terms scope sel rs ext un t = Some (Inr c)"
    and "prepare_replacement_terms scope' sel' rs ext' un' t = Some (Inr c')"
    and "se_base sel' = se_base sel"
  shows "(\<exists>b\<in>set rs. cr_id b = se_base sel \<and> cr_payload b = AgreementCommitted (rt_base c))
    \<and> (\<exists>pr\<in>set rs. \<exists>ar\<in>set rs. \<exists>p z. cr_id pr = se_proposal sel \<and> cr_payload pr = TermsProposed p
        \<and> tp_base_agreement p = Some (se_base sel) \<and> tp_terms p = rt_terms c
        \<and> cr_id ar = se_authorization sel \<and> cr_payload ar = TermsAuthorized z
        \<and> ta_proposal z = cr_id pr \<and> ta_terms_digest z = se_digest sel
        \<and> ch_author (cr_header ar) \<noteq> ch_author (cr_header pr)
        \<and> \<not> terms_withdrawn (known_of rs) (cr_id ar) (ch_author (cr_header ar))
        \<and> \<not> terms_rejected (known_of rs) (cr_id pr) (ch_author (cr_header pr))
        \<and> seconds_get t < min (seconds_get (tp_expires_at p)) (seconds_get (ta_expires_at z)))
    \<and> rt_terms c = rt_terms c' \<and> se_digest sel = se_digest sel'"
proof -
  have adm: "admit_replacement sel rs t = Inr c" "admit_replacement sel' rs t = Inr c'"
    using assms(1,2) unfolding prepare_replacement_Inr by blast+
  obtain b pc p ac z where b: "map_of (known_of rs) (se_base sel) = Some b"
    "cc_payload b = AgreementCommitted (rt_base c)"
    and live: "live_authorization (known_of rs) sel t pc p ac z" and c: "rt_terms c = tp_terms p"
    using adm(1) unfolding admit_replacement_Inr
    by (metis ReplacementTermsClaim.select_convs(2) ReplacementTermsClaim.select_convs(3))
  obtain br where br: "br \<in> set rs" "cr_id br = se_base sel" "cr_content br = b"
    by (rule known_of_member [OF b(1)])
  obtain pr where pr: "pr \<in> set rs" "cr_id pr = se_proposal sel" "cr_content pr = pc"
    by (rule known_of_member [of rs "se_proposal sel" pc]) (use live in \<open>simp add: live_authorization_def\<close>)
  obtain ar where ar: "ar \<in> set rs" "cr_id ar = se_authorization sel" "cr_content ar = ac"
    by (rule known_of_member [of rs "se_authorization sel" ac]) (use live in \<open>simp add: live_authorization_def\<close>)
  have "\<exists>pr\<in>set rs. \<exists>ar\<in>set rs. \<exists>p z. cr_id pr = se_proposal sel \<and> cr_payload pr = TermsProposed p
        \<and> tp_base_agreement p = Some (se_base sel) \<and> tp_terms p = rt_terms c
        \<and> cr_id ar = se_authorization sel \<and> cr_payload ar = TermsAuthorized z
        \<and> ta_proposal z = cr_id pr \<and> ta_terms_digest z = se_digest sel
        \<and> ch_author (cr_header ar) \<noteq> ch_author (cr_header pr)
        \<and> \<not> terms_withdrawn (known_of rs) (cr_id ar) (ch_author (cr_header ar))
        \<and> \<not> terms_rejected (known_of rs) (cr_id pr) (ch_author (cr_header pr))
        \<and> seconds_get t < min (seconds_get (tp_expires_at p)) (seconds_get (ta_expires_at z))"
    using live c pr ar
    by (intro bexI [of _ pr] bexI [of _ ar] exI [of _ p] exI [of _ z]) (simp_all add: live_authorization_def)
  moreover have "\<exists>b\<in>set rs. cr_id b = se_base sel \<and> cr_payload b = AgreementCommitted (rt_base c)"
    using b br by (intro bexI [of _ br]) simp_all
  ultimately show ?thesis using admitted_replacements_agree [OF adm assms(3)] by blast
qed

definition sample_commitment :: AgreementCommitment where
  "sample_commitment = \<lparr>cm_base_agreement = None, cm_authorization = from_bytes (replicate 32 4),
     cm_terms_digest = from_bytes (replicate 32 11),
     cm_authority = \<lparr>auth_executor_id = from_bytes (replicate 32 12), auth_generation = Generation 1\<rparr>,
     cm_seller_sequence = Sequence 1\<rparr>"

definition sample_history :: "CausalRecord list" where
  "sample_history =
    [\<lparr>cr_id = from_bytes (replicate 32 32), cr_content =
       \<lparr>cc_header = (sample_header 1 None [from_bytes (replicate 32 4)])\<lparr>ch_author := sample_key 2\<rparr>,
        cc_payload = AgreementCommitted sample_commitment\<rparr>\<rparr>,
     \<lparr>cr_id = from_bytes (replicate 32 33), cr_content =
       \<lparr>cc_header = sample_header 1 None [event_source (rev_event_id sample_source), from_bytes (replicate 32 32)],
        cc_payload = TermsProposed \<lparr>tp_base_agreement = Some (from_bytes (replicate 32 32)),
          tp_terms = sample_private_terms, tp_expires_at = UnixSeconds 90, tp_reason = ''more eggs''\<rparr>\<rparr>\<rparr>,
     \<lparr>cr_id = from_bytes (replicate 32 34), cr_content =
       \<lparr>cc_header = (sample_header 2 (Some (from_bytes (replicate 32 32)))
          [from_bytes (replicate 32 32), from_bytes (replicate 32 33)])\<lparr>ch_author := sample_key 2\<rparr>,
        cc_payload = TermsAuthorized \<lparr>ta_proposal = from_bytes (replicate 32 33),
          ta_terms_digest = from_bytes (replicate 32 13), ta_expires_at = UnixSeconds 80\<rparr>\<rparr>\<rparr>]"

definition sample_selection :: ReplacementTermsSelection where
  "sample_selection = \<lparr>se_base = from_bytes (replicate 32 32), se_proposal = from_bytes (replicate 32 33),
     se_authorization = from_bytes (replicate 32 34), se_digest = from_bytes (replicate 32 13)\<rparr>"

definition sample_replacement :: ReplacementTermsClaim where
  "sample_replacement = \<lparr>rt_selection = sample_selection, rt_base = sample_commitment,
     rt_terms = sample_private_terms, rt_expires = UnixSeconds 80\<rparr>"

lemma sample_replaced:
  "prepare_replacement_terms sample_scope sample_selection sample_history
     [from_bytes (replicate 32 4), event_source (rev_event_id sample_source)] [] (UnixSeconds 60)
   = Some (Inr sample_replacement)"
  by code_simp

theorem replacement_terms_agreed_witness:
  "\<exists>b\<in>set sample_history. cr_id b = se_base sample_selection
     \<and> cr_payload b = AgreementCommitted (rt_base sample_replacement)"
  using replacement_terms_agreed [OF sample_replaced sample_replaced refl] by blast

end
