(* ===== verification/Event_Id.thy ===== *)
theory Event_Id
  imports Identity_Key Amount "HOL-Library.Char_ord"
begin

text \<open>
  The protocol identifiers of \<open>crates/event/src/id.rs\<close>: hexadecimal identifiers of a fixed
  width, visible-token identifiers, and event coordinates. The curve check of public keys is the
  parameter \<open>from_sec1_bytes\<close>, as in \<open>Identity_Key\<close>. Relay addresses are left out: they are
  validated by the \<open>url\<close> package.
\<close>

section \<open>Scalar values of a text\<close>

text \<open>
  \<open>str::chars\<close> on valid UTF-8: a scalar value is a byte that is not a continuation byte with the
  continuation bytes after it. The whitespace characters are the Unicode property
  \<open>White_Space\<close> that \<open>char::is_whitespace\<close> tests: U+0009 to U+000D, U+0020, U+0085, U+00A0,
  U+1680, U+2000 to U+200A, U+2028, U+2029, U+202F, U+205F and U+3000, by their encodings.
\<close>

function utf8_chars :: "string \<Rightarrow> string list" where
  "utf8_chars [] = []"
| "utf8_chars (c # s) =
     (c # takeWhile is_continuation_byte s) # utf8_chars (dropWhile is_continuation_byte s)"
  by pat_completeness auto
termination
  by (relation "measure length") (auto simp: le_imp_less_Suc length_dropWhile_le)

definition is_whitespace :: "string \<Rightarrow> bool" where
  "is_whitespace ch =
     (case map byte_of ch of
        [a] \<Rightarrow> (9 \<le> a \<and> a \<le> 13) \<or> a = 32
      | [a, b] \<Rightarrow> a = 194 \<and> (b = 133 \<or> b = 160)
      | [a, b, c] \<Rightarrow>
          (a = 225 \<and> b = 154 \<and> c = 128)
          \<or> (a = 226 \<and> b = 128 \<and> (128 \<le> c \<and> c \<le> 138 \<or> c = 168 \<or> c = 169 \<or> c = 175))
          \<or> (a = 226 \<and> b = 129 \<and> c = 159) \<or> (a = 227 \<and> b = 128 \<and> c = 128)
      | _ \<Rightarrow> False)"

definition has_whitespace :: "string \<Rightarrow> bool" where
  "has_whitespace s \<longleftrightarrow> list_ex is_whitespace (utf8_chars s)"

definition trim :: "string \<Rightarrow> string" where
  "trim s = concat (rev (dropWhile is_whitespace (rev (dropWhile is_whitespace (utf8_chars s)))))"

lemma concat_utf8_chars: "concat (utf8_chars s) = s"
  by (induction s rule: utf8_chars.induct) auto

lemma utf8_chars_nonempty: "ch \<in> set (utf8_chars s) \<Longrightarrow> ch \<noteq> []"
  by (induction s rule: utf8_chars.induct) auto

text \<open>Trimming empties exactly the texts that are all whitespace.\<close>

lemma trim_eq_Nil: "trim s = [] \<longleftrightarrow> list_all is_whitespace (utf8_chars s)"
proof
  assume trim: "trim s = []"
  let ?rest = "dropWhile is_whitespace (rev (dropWhile is_whitespace (utf8_chars s)))"
  have "ch \<in> set (utf8_chars s)" if "ch \<in> set ?rest" for ch
    using that by (metis set_dropWhileD set_rev)
  then have "?rest = []"
    using trim by (cases ?rest) (auto simp: trim_def dest: utf8_chars_nonempty)
  then have "\<forall>ch\<in>set (dropWhile is_whitespace (utf8_chars s)). is_whitespace ch"
    by (simp add: dropWhile_eq_Nil_conv)
  then have "dropWhile is_whitespace (utf8_chars s) = []"
    by (metis hd_dropWhile list.set_sel(1))
  then show "list_all is_whitespace (utf8_chars s)"
    by (simp add: dropWhile_eq_Nil_conv list_all_iff)
next
  assume "list_all is_whitespace (utf8_chars s)"
  then have "dropWhile is_whitespace (utf8_chars s) = []"
    by (simp add: list_all_iff dropWhile_eq_Nil_conv)
  then show "trim s = []" by (simp only: trim_def) simp
qed

lemma dropWhile_visible: "\<forall>ch\<in>set xs. \<not> is_whitespace ch \<Longrightarrow> dropWhile is_whitespace xs = xs"
  by (cases xs) auto

lemma trim_visible: "\<not> has_whitespace s \<Longrightarrow> trim s = s"
  by (simp add: trim_def has_whitespace_def list_ex_iff dropWhile_visible concat_utf8_chars)

section \<open>Errors\<close>

text \<open>The length errors carry the required or largest length, then the actual one.\<close>

datatype ParseError =
    Empty
  | InvalidFormat
  | InvalidLength nat nat
  | InvalidCharacter
  | InvalidPublicKey
  | UnexpectedKind nat nat
  | TooLong nat nat

fun ParseError_to_string :: "ParseError \<Rightarrow> string" where
  "ParseError_to_string Empty = ''identifier is empty''"
| "ParseError_to_string InvalidFormat = ''identifier has invalid format''"
| "ParseError_to_string (InvalidLength required actual) =
     ''identifier length '' @ show_nat actual @ '' does not match required length '' @ show_nat required"
| "ParseError_to_string InvalidCharacter = ''identifier contains an invalid character''"
| "ParseError_to_string InvalidPublicKey = ''identifier is not a valid secp256k1 x-only public key''"
| "ParseError_to_string (UnexpectedKind required actual) =
     ''identifier kind '' @ show_nat actual @ '' does not match required kind '' @ show_nat required"
| "ParseError_to_string (TooLong limit actual) =
     ''identifier length '' @ show_nat actual @ '' exceeds maximum length '' @ show_nat limit"

section \<open>Hexadecimal identifiers\<close>

datatype EventId_tag = EventId_tag
datatype TradeId_tag = TradeId_tag
datatype CandidateId_tag = CandidateId_tag
datatype MutationId_tag = MutationId_tag

text \<open>A \<open>TradeId\<close> holds 16 bytes, the others 32; the representation is the octet list.\<close>

type_synonym EventId = "EventId_tag id32"
type_synonym TradeId = "TradeId_tag id32"
type_synonym CandidateId = "CandidateId_tag id32"
type_synonym MutationId = "MutationId_tag id32"

definition decode_hex_nibble :: "char \<Rightarrow> ParseError + 8 word" where
  "decode_hex_nibble byte =
     (if 48 \<le> byte_of byte \<and> byte_of byte \<le> 57 then Inr (of_nat (byte_of byte - 48))
      else if 97 \<le> byte_of byte \<and> byte_of byte \<le> 102 then Inr (of_nat (byte_of byte - 97 + 10))
      else if 65 \<le> byte_of byte \<and> byte_of byte \<le> 70 then Inr (of_nat (byte_of byte - 65 + 10))
      else Inl InvalidCharacter)"

fun decode_chunks :: "string \<Rightarrow> ParseError + 8 word list" where
  "decode_chunks (high # low # rest) =
     bindE (decode_hex_nibble high) (\<lambda>h. bindE (decode_hex_nibble low) (\<lambda>l.
       map_ok (\<lambda>bs. or (push_bit 4 h) l # bs) (decode_chunks rest)))"
| "decode_chunks _ = Inr []"

definition decode_hex :: "nat \<Rightarrow> string \<Rightarrow> ParseError + 8 word list" where
  "decode_hex n value =
     (let required = n * 2 in
      if length value \<noteq> required then Inl (InvalidLength required (length value))
      else decode_chunks value)"

definition hex_id_parse :: "nat \<Rightarrow> string \<Rightarrow> ParseError + 'k id32" where
  "hex_id_parse n value = map_ok from_bytes (decode_hex n value)"

definition LOWER_HEX :: string where
  "LOWER_HEX = ''0123456789abcdef''"

definition encode_hex :: "8 word list \<Rightarrow> string" where
  "encode_hex bs =
     concat (map (\<lambda>b. [LOWER_HEX ! unat (drop_bit 4 b), LOWER_HEX ! unat (and b 15)]) bs)"

definition hex_id_to_hex :: "'k id32 \<Rightarrow> string" where
  "hex_id_to_hex x = encode_hex (id_bytes x)"

definition lower_hex_char :: "8 word \<Rightarrow> char" where
  "lower_hex_char v =
     (if unat v \<le> 9 then char_of (unat (48 + v)) else char_of (unat (97 + v - 10)))"

definition write_hex :: "8 word list \<Rightarrow> string" where
  "write_hex bs = concat (map (\<lambda>b. [lower_hex_char (drop_bit 4 b), lower_hex_char (and b 15)]) bs)"

definition hex_id_display :: "'k id32 \<Rightarrow> string" where
  "hex_id_display x = write_hex (id_bytes x)"

lemma decode_hex_nibble_Inr:
  "decode_hex_nibble c = Inr n \<longleftrightarrow> nibble (to_ascii_lowercase c) = Inr n"
  using decode_nibble_Inr [of c 0 n]
  by (auto simp: decode_hex_nibble_def decode_nibble_def)

lemma decode_chunks_Inr:
  "decode_chunks s = Inr bs \<longleftrightarrow> parse_pairs (map to_ascii_lowercase s) = Inr bs"
  by (induction s arbitrary: bs rule: decode_chunks.induct)
    (simp_all add: result_simps decode_hex_nibble_Inr)

lemma encode_hex_eq: "encode_hex bs = concat (map hex_byte bs)"
  using alphabet_nth
  by (simp add: encode_hex_def hex_byte_def [abs_def] LOWER_HEX_def HEX_ALPHABET_def hex_nibbles)

lemma decode_hex_Inr:
  "decode_hex n s = Inr bs \<longleftrightarrow> length bs = n \<and> encode_hex bs = map to_ascii_lowercase s"
  using render_parse_pairs [of "map to_ascii_lowercase s" bs] parse_pairs_render [of bs]
    length_render [of bs]
  by (auto simp: decode_hex_def Let_def decode_chunks_Inr encode_hex_eq)

lemma hex_id_parse_Inr:
  "hex_id_parse n s = Inr x \<longleftrightarrow>
    length (id_bytes x) = n \<and> hex_id_to_hex x = map to_ascii_lowercase s"
  by (cases x) (auto simp: hex_id_parse_def from_bytes_def result_simps decode_hex_Inr hex_id_to_hex_def)

section \<open>Visible tokens\<close>

datatype DTag = DTag (d_tag_str: string)
datatype InventoryBinId = InventoryBinId (bin_id_str: string)
datatype ClassifiedListingAddress = ClassifiedListingAddress (listing_address_str: string)

definition validate_visible_token :: "string \<Rightarrow> nat \<Rightarrow> ParseError + string" where
  "validate_visible_token value max_len =
     (if value = [] then Inl Empty
      else if max_len < length value then Inl (TooLong max_len (length value))
      else if trim value \<noteq> value \<or> has_control value \<or> has_whitespace value then Inl InvalidCharacter
      else Inr value)"

definition validate_d_tag :: "string \<Rightarrow> ParseError + string" where
  "validate_d_tag value = validate_visible_token value 512"

definition validate_commercial_id :: "string \<Rightarrow> ParseError + string" where
  "validate_commercial_id value = validate_visible_token value 128"

definition DTag_parse :: "string \<Rightarrow> ParseError + DTag" where
  "DTag_parse value = map_ok DTag (validate_d_tag value)"

definition InventoryBinId_parse :: "string \<Rightarrow> ParseError + InventoryBinId" where
  "InventoryBinId_parse value = map_ok InventoryBinId (validate_commercial_id value)"

definition visible_token :: "nat \<Rightarrow> string \<Rightarrow> bool" where
  "visible_token max_len s \<longleftrightarrow>
     s \<noteq> [] \<and> length s \<le> max_len \<and> \<not> has_control s \<and> \<not> has_whitespace s"

lemma validate_visible_token_Inr [result_simps]:
  "validate_visible_token s n = Inr t \<longleftrightarrow> visible_token n s \<and> t = s"
  by (auto simp: validate_visible_token_def visible_token_def trim_visible)

lemma DTag_parse_Inr [result_simps]: "DTag_parse s = Inr d \<longleftrightarrow> visible_token 512 s \<and> d = DTag s"
  by (auto simp: DTag_parse_def validate_d_tag_def result_simps)

section \<open>Coordinates\<close>

definition KIND_CLASSIFIED_LISTING :: nat where
  "KIND_CLASSIFIED_LISTING = 30402"

definition RADROOTS_NIP01_COORDINATE_MAX_BYTES :: nat where
  "RADROOTS_NIP01_COORDINATE_MAX_BYTES = 4 * 1024"

text \<open>\<open>str::parse\<close> for \<open>u32\<close>: an optional plus sign, then digits, leading zeros allowed.\<close>

definition parse_u32 :: "string \<Rightarrow> nat option" where
  "parse_u32 s =
     (let digits = (case s of c # rest \<Rightarrow> if c = CHR ''+'' \<and> rest \<noteq> [] then rest else s | [] \<Rightarrow> []) in
      if digits = [] \<or> \<not> list_all is_ascii_digit digits then None else parse_digits 32 digits)"

definition parse_public_key :: "(8 word list \<Rightarrow> bool) \<Rightarrow> string \<Rightarrow> ParseError + PublicKey" where
  "parse_public_key from_sec1_bytes value =
     map_err (\<lambda>e. case e of
         InvalidHexLength required actual \<Rightarrow> InvalidLength required actual
       | InvalidByteLength required actual \<Rightarrow> InvalidLength required actual
       | InvalidHexCharacter _ \<Rightarrow> InvalidCharacter
       | InvalidPublicKeyBytes \<Rightarrow> InvalidPublicKey)
       (key_from_hex from_sec1_bytes value)"

record AddressableCoordinateParts =
  cp_kind :: nat
  cp_pubkey :: PublicKey
  cp_d_tag :: DTag

definition parse_addressable_coordinate_parts ::
  "(8 word list \<Rightarrow> bool) \<Rightarrow> string \<Rightarrow> ParseError + AddressableCoordinateParts" where
  "parse_addressable_coordinate_parts from_sec1_bytes value =
     bindE (ok_or InvalidFormat (split_once (CHR '':'') value)) (\<lambda>(kind, remainder).
     bindE (ok_or InvalidFormat (split_once (CHR '':'') remainder)) (\<lambda>(pubkey, d_tag).
     bindE (ok_or InvalidFormat (parse_u32 kind)) (\<lambda>kind.
     bindE (parse_public_key from_sec1_bytes pubkey) (\<lambda>pubkey.
     bindE (DTag_parse d_tag) (\<lambda>d_tag.
       Inr \<lparr>cp_kind = kind, cp_pubkey = pubkey, cp_d_tag = d_tag\<rparr>)))))"

definition format_coordinate :: "nat \<Rightarrow> PublicKey \<Rightarrow> string \<Rightarrow> string" where
  "format_coordinate kind pubkey rest =
     show_nat kind @ CHR '':'' # key_to_hex pubkey @ CHR '':'' # rest"

definition validate_classified_listing_address ::
  "(8 word list \<Rightarrow> bool) \<Rightarrow> string \<Rightarrow> ParseError + string" where
  "validate_classified_listing_address from_sec1_bytes value =
     bindE (parse_addressable_coordinate_parts from_sec1_bytes value) (\<lambda>parts.
     if cp_kind parts \<noteq> KIND_CLASSIFIED_LISTING
     then Inl (UnexpectedKind KIND_CLASSIFIED_LISTING (cp_kind parts))
     else Inr (format_coordinate KIND_CLASSIFIED_LISTING (cp_pubkey parts) (d_tag_str (cp_d_tag parts))))"

definition ClassifiedListingAddress_parse ::
  "(8 word list \<Rightarrow> bool) \<Rightarrow> string \<Rightarrow> ParseError + ClassifiedListingAddress" where
  "ClassifiedListingAddress_parse from_sec1_bytes value =
     map_ok ClassifiedListingAddress (validate_classified_listing_address from_sec1_bytes value)"

datatype Nip01CoordinateParseError =
    CoordinateEmpty
  | CoordinateInvalidFormat
  | Pubkey ParseError
  | UnsupportedKind nat
  | IdentifierMustBeEmpty nat
  | CoordinateTooLong nat nat

record Nip01Coordinate =
  nc_canonical :: string
  nc_kind :: nat
  nc_pubkey :: PublicKey
  nc_identifier :: string

definition requires_empty_identifier :: "nat \<Rightarrow> bool" where
  "requires_empty_identifier kind \<longleftrightarrow> kind = 0 \<or> kind = 3 \<or> 10000 \<le> kind \<and> kind \<le> 19999"

definition Nip01Coordinate_parse ::
  "(8 word list \<Rightarrow> bool) \<Rightarrow> string \<Rightarrow> Nip01CoordinateParseError + Nip01Coordinate" where
  "Nip01Coordinate_parse from_sec1_bytes value =
     (if value = [] then Inl CoordinateEmpty
      else if RADROOTS_NIP01_COORDINATE_MAX_BYTES < length value
      then Inl (CoordinateTooLong RADROOTS_NIP01_COORDINATE_MAX_BYTES (length value))
      else
       bindE (ok_or CoordinateInvalidFormat (split_once (CHR '':'') value)) (\<lambda>(kind, remainder).
       bindE (ok_or CoordinateInvalidFormat (split_once (CHR '':'') remainder)) (\<lambda>(pubkey, rest).
       bindE (ok_or CoordinateInvalidFormat (parse_u32 kind)) (\<lambda>kind.
       if \<not> requires_empty_identifier kind \<and> \<not> (30000 \<le> kind \<and> kind \<le> 39999)
       then Inl (UnsupportedKind kind)
       else if requires_empty_identifier kind \<and> rest \<noteq> [] then Inl (IdentifierMustBeEmpty kind)
       else bindE (map_err Pubkey (parse_public_key from_sec1_bytes pubkey)) (\<lambda>pubkey.
         Inr \<lparr>nc_canonical = format_coordinate kind pubkey rest, nc_kind = kind,
              nc_pubkey = pubkey, nc_identifier = rest\<rparr>)))))"

section \<open>Coordinates are canonical\<close>

lemma split_once_iff:
  "split_once c s = Some (a, b) \<longleftrightarrow> s = a @ c # b \<and> c \<notin> set a"
proof
  assume split: "split_once c s = Some (a, b)"
  then have "a = takeWhile (\<lambda>d. d \<noteq> c) s" by (auto simp: split_once_def split: if_splits)
  then have "c \<notin> set a" by (auto dest: set_takeWhileD)
  with split_once_Some [OF split] show "s = a @ c # b \<and> c \<notin> set a" by simp
next
  assume s: "s = a @ c # b \<and> c \<notin> set a"
  then have "\<And>d. d \<in> set a \<Longrightarrow> d \<noteq> c" by blast
  with s show "split_once c s = Some (a, b)" by (simp add: split_once_def)
qed

lemma parse_u32_show_nat: "n < 2 ^ 32 \<Longrightarrow> parse_u32 (show_nat n) = Some n"
proof -
  assume n: "n < 2 ^ 32"
  have digits: "list_all is_ascii_digit (show_nat n)" by (auto simp: list_all_iff dest: show_nat_digits)
  obtain c rest where cs: "show_nat n = c # rest" using show_nat_not_Nil [of n] by (cases "show_nat n") auto
  with digits have "c \<noteq> CHR ''+''" by (auto simp: is_ascii_digit_def byte_of_def)
  with cs have "(case show_nat n of c # rest \<Rightarrow> if c = CHR ''+'' \<and> rest \<noteq> [] then rest else show_nat n
      | [] \<Rightarrow> []) = show_nat n" by simp
  with digits n show ?thesis
    by (simp only: parse_u32_def Let_def) (simp add: parse_digits_def fits_u_eq_Some)
qed

lemma parse_u32_Some:
  assumes "parse_u32 s = Some n"
  shows "n < 2 ^ 32" and "length (show_nat n) \<le> length s" and "CHR '':'' \<notin> set (show_nat n)"
proof -
  define digits where
    "digits = (case s of c # rest \<Rightarrow> if c = CHR ''+'' \<and> rest \<noteq> [] then rest else s | [] \<Rightarrow> [])"
  have d: "digits \<noteq> []" "\<forall>c\<in>set digits. is_ascii_digit c" "digits_value digits = n" and n: "n < 2 ^ 32"
    using assms by (auto simp: parse_u32_def Let_def digits_def [symmetric] parse_digits_def
        fits_u_eq_Some list_all_iff split: if_splits)
  have "length digits \<le> length s" by (auto simp: digits_def split: list.splits)
  moreover have "length (show_nat n) \<le> length digits"
    using digits_value_less [OF d(2)] d(1,3) length_show_nat_le by auto
  ultimately show "length (show_nat n) \<le> length s" by simp
  show "n < 2 ^ 32" by (fact n)
  show "CHR '':'' \<notin> set (show_nat n)"
    using show_nat_digits [of "CHR '':''" n] by (auto simp: is_ascii_digit_def byte_of_def)
qed

lemma parse_u32_parts:
  assumes "parse_u32 s = Some n"
  obtains sign digits where "s = sign @ digits" and "sign \<in> {[], ''+''}" and "digits \<noteq> []"
    and "list_all is_ascii_digit digits" and "digits_value digits = n"
proof -
  define digits where
    "digits = (case s of c # rest \<Rightarrow> if c = CHR ''+'' \<and> rest \<noteq> [] then rest else s | [] \<Rightarrow> [])"
  have "digits \<noteq> []" "list_all is_ascii_digit digits" "digits_value digits = n"
    using assms by (auto simp: parse_u32_def Let_def digits_def [symmetric] parse_digits_def fits_u_eq_Some
        split: if_splits)
  moreover have "\<exists>sign\<in>{[], ''+''}. s = sign @ digits" by (auto simp: digits_def split: list.splits)
  ultimately show ?thesis using that by blast
qed

lemma lower_colon: "to_ascii_lowercase c = CHR '':'' \<Longrightarrow> c = CHR '':''"
  by (auto simp: to_ascii_lowercase_def is_ascii_uppercase_def byte_of_def split: if_splits
      dest: arg_cong [where f = "of_char :: char \<Rightarrow> nat"])

lemma parse_public_key_Inr [result_simps]:
  "parse_public_key p s = Inr x \<longleftrightarrow> wf_key p x \<and> key_to_hex x = map to_ascii_lowercase s"
  by (simp add: parse_public_key_def result_simps key_from_hex_Inr key_to_hex_eq)

lemma parse_public_key_to_hex:
  assumes "parse_public_key p s = Inr x" and "CHR '':'' \<notin> set s"
  shows "parse_public_key p (key_to_hex x) = Inr x" and "CHR '':'' \<notin> set (key_to_hex x)"
    and "length (key_to_hex x) = length s"
proof -
  have x: "wf_key p x" "key_to_hex x = map to_ascii_lowercase s" using assms(1) by (simp_all add: result_simps)
  show "parse_public_key p (key_to_hex x) = Inr x"
    using x(1) by (simp add: parse_public_key_Inr key_to_hex_eq lower_id_to_string)
  show "CHR '':'' \<notin> set (key_to_hex x)" using x(2) assms(2) by (auto dest: lower_colon [OF sym])
  show "length (key_to_hex x) = length s" by (simp add: x(2))
qed

lemmas coordinate_simps =
  Nip01Coordinate_parse_def parse_addressable_coordinate_parts_def result_simps split_once_iff

lemma Nip01Coordinate_parse_Inr:
  assumes "Nip01Coordinate_parse p s = Inr c"
  obtains kind pubkey where
    "s = kind @ CHR '':'' # pubkey @ CHR '':'' # nc_identifier c"
    and "CHR '':'' \<notin> set pubkey" and "length s \<le> RADROOTS_NIP01_COORDINATE_MAX_BYTES"
    and "parse_u32 kind = Some (nc_kind c)" and "parse_public_key p pubkey = Inr (nc_pubkey c)"
    and "requires_empty_identifier (nc_kind c) \<or> 30000 \<le> nc_kind c \<and> nc_kind c \<le> 39999"
    and "requires_empty_identifier (nc_kind c) \<longrightarrow> nc_identifier c = []"
    and "nc_canonical c = format_coordinate (nc_kind c) (nc_pubkey c) (nc_identifier c)"
  using assms
  by (auto simp: Nip01Coordinate_parse_def bindE_eq_Inr map_err_eq_Inr ok_or_eq_Inr split_once_iff
      split: if_splits)

lemma Nip01Coordinate_parse_format:
  assumes "kind < 2 ^ 32" and "parse_public_key p (key_to_hex pubkey) = Inr pubkey"
    and "CHR '':'' \<notin> set (key_to_hex pubkey)" and "CHR '':'' \<notin> set (show_nat kind)"
    and "length (format_coordinate kind pubkey rest) \<le> RADROOTS_NIP01_COORDINATE_MAX_BYTES"
    and "requires_empty_identifier kind \<or> 30000 \<le> kind \<and> kind \<le> 39999"
    and "requires_empty_identifier kind \<longrightarrow> rest = []"
  shows "Nip01Coordinate_parse p (format_coordinate kind pubkey rest) =
    Inr \<lparr>nc_canonical = format_coordinate kind pubkey rest, nc_kind = kind, nc_pubkey = pubkey,
         nc_identifier = rest\<rparr>"
proof -
  have outer: "split_once (CHR '':'') (format_coordinate kind pubkey rest) =
      Some (show_nat kind, key_to_hex pubkey @ CHR '':'' # rest)"
    using assms(4) by (simp add: split_once_iff format_coordinate_def)
  have inner: "split_once (CHR '':'') (key_to_hex pubkey @ CHR '':'' # rest) = Some (key_to_hex pubkey, rest)"
    using assms(3) by (simp add: split_once_iff)
  have "format_coordinate kind pubkey rest \<noteq> []" by (simp add: format_coordinate_def)
  with assms outer inner show ?thesis
    by (simp add: Nip01Coordinate_parse_def parse_u32_show_nat)
qed

section \<open>Properties\<close>

text \<open>C39: parsing an event coordinate fixes one canonical spelling. An accepted text is a number of at
  most 32 bits, with an optional plus sign and leading zeros, a key in any letter case and an identifier
  that may hold further colons. The coordinate has that number, that key and that identifier, byte for
  byte; its canonical text is the decimal kind, the lowercase key and the same identifier, it is within
  the length limit, and parsing it gives the same coordinate again; the kind is replaceable with an
  empty identifier, or addressable.\<close>

theorem Nip01Coordinate_canonical:
  assumes "Nip01Coordinate_parse from_sec1_bytes s = Inr c"
  shows "(\<exists>sign digits key. s = sign @ digits @ '':'' @ key @ '':'' @ nc_identifier c
        \<and> sign \<in> {[], ''+''} \<and> digits \<noteq> [] \<and> list_all is_ascii_digit digits
        \<and> digits_value digits = nc_kind c \<and> nc_kind c < 2 ^ 32
        \<and> key_to_hex (nc_pubkey c) = map to_ascii_lowercase key \<and> wf_key from_sec1_bytes (nc_pubkey c))
    \<and> Nip01Coordinate_parse from_sec1_bytes (nc_canonical c) = Inr c
    \<and> nc_canonical c = show_nat (nc_kind c) @ '':'' @ key_to_hex (nc_pubkey c) @ '':'' @ nc_identifier c
    \<and> length (nc_canonical c) \<le> 4096
    \<and> (if requires_empty_identifier (nc_kind c) then nc_identifier c = []
       else 30000 \<le> nc_kind c \<and> nc_kind c \<le> 39999)"
proof -
  obtain kind pubkey where s: "s = kind @ CHR '':'' # pubkey @ CHR '':'' # nc_identifier c"
    and pk: "parse_public_key from_sec1_bytes pubkey = Inr (nc_pubkey c)" "CHR '':'' \<notin> set pubkey"
    and kd: "parse_u32 kind = Some (nc_kind c)"
    and len: "length s \<le> RADROOTS_NIP01_COORDINATE_MAX_BYTES"
    and sup: "requires_empty_identifier (nc_kind c) \<or> 30000 \<le> nc_kind c \<and> nc_kind c \<le> 39999"
      "requires_empty_identifier (nc_kind c) \<longrightarrow> nc_identifier c = []"
    and can: "nc_canonical c = format_coordinate (nc_kind c) (nc_pubkey c) (nc_identifier c)"
    using Nip01Coordinate_parse_Inr [OF assms] by metis
  note hex = parse_public_key_to_hex [OF pk] and num = parse_u32_Some [OF kd]
  have "length (format_coordinate (nc_kind c) (nc_pubkey c) (nc_identifier c)) \<le> length s"
    using num(2) hex(3) by (simp add: s format_coordinate_def)
  with len have short: "length (format_coordinate (nc_kind c) (nc_pubkey c) (nc_identifier c))
      \<le> RADROOTS_NIP01_COORDINATE_MAX_BYTES" by simp
  obtain sign digits where "kind = sign @ digits" "sign \<in> {[], ''+''}" "digits \<noteq> []"
    "list_all is_ascii_digit digits" "digits_value digits = nc_kind c"
    using kd by (rule parse_u32_parts)
  then have "\<exists>sign digits key. s = sign @ digits @ '':'' @ key @ '':'' @ nc_identifier c
        \<and> sign \<in> {[], ''+''} \<and> digits \<noteq> [] \<and> list_all is_ascii_digit digits
        \<and> digits_value digits = nc_kind c \<and> nc_kind c < 2 ^ 32
        \<and> key_to_hex (nc_pubkey c) = map to_ascii_lowercase key \<and> wf_key from_sec1_bytes (nc_pubkey c)"
    using pk(1) num(1)
    by (intro exI [of _ sign] exI [of _ digits] exI [of _ pubkey]) (simp add: s parse_public_key_Inr)
  then show ?thesis
    using Nip01Coordinate_parse_format [OF num(1) hex(1,2) num(3) short sup] sup short can
    by (auto simp: RADROOTS_NIP01_COORDINATE_MAX_BYTES_def format_coordinate_def)
qed

definition sample_key_text :: string where
  "sample_key_text = concat (replicate 32 ''AA'')"

definition sample_coordinate :: Nip01Coordinate where
  "sample_coordinate =
     \<lparr>nc_canonical = format_coordinate 30402 (Id32 (replicate 32 170)) ''farm:1'', nc_kind = 30402,
      nc_pubkey = Id32 (replicate 32 170), nc_identifier = ''farm:1''\<rparr>"

lemma sample_key_parses: "parse_public_key (\<lambda>_. True) sample_key_text = Inr (Id32 (replicate 32 170))"
proof -
  have "hex_byte 170 = map to_ascii_lowercase ''AA''" by code_simp
  then have "key_to_hex (Id32 (replicate 32 170)) = map to_ascii_lowercase sample_key_text"
    by (simp add: key_to_hex_eq id_to_string_def sample_key_text_def map_concat)
  then show ?thesis by (simp add: parse_public_key_Inr wf_key_def wf_id_def)
qed

lemma sample_coordinate_parses:
  "Nip01Coordinate_parse (\<lambda>_. True) (''+030402:'' @ sample_key_text @ '':farm:1'') = Inr sample_coordinate"
proof -
  have "parse_u32 ''+030402'' = Some 30402" by code_simp
  moreover have "split_once (CHR '':'') (''+030402:'' @ sample_key_text @ '':farm:1'') =
      Some (''+030402'', sample_key_text @ '':farm:1'')"
    by (simp add: split_once_iff)
  moreover have "split_once (CHR '':'') (sample_key_text @ '':farm:1'') = Some (sample_key_text, ''farm:1'')"
    by (simp add: split_once_iff sample_key_text_def)
  moreover have "length sample_key_text = 64" by (simp add: sample_key_text_def length_concat sum_list_replicate)
  ultimately show ?thesis
    using sample_key_parses
    by (simp add: Nip01Coordinate_parse_def sample_coordinate_def RADROOTS_NIP01_COORDINATE_MAX_BYTES_def
        requires_empty_identifier_def del: append_Cons)
qed

theorem Nip01Coordinate_canonical_witness:
  "Nip01Coordinate_parse (\<lambda>_. True) (nc_canonical sample_coordinate) = Inr sample_coordinate
   \<and> (\<exists>sign digits key. ''+030402:'' @ sample_key_text @ '':farm:1'' =
        sign @ digits @ '':'' @ key @ '':'' @ nc_identifier sample_coordinate \<and> digits_value digits = 30402)"
  using Nip01Coordinate_canonical [OF sample_coordinate_parses] by (auto simp: sample_coordinate_def)

end
