(* ===== verification/Trade_Event.thy ===== *)
theory Trade_Event
  imports Event_Id
begin

text \<open>
  The trade mutations of \<open>crates/event/src/trade.rs\<close>: proposals, decisions, their revisions and
  cancellations with all the terms they carry, and the validation every mutation passes before it
  is reduced or planned. The canonical JSON content and the hashes computed from it are left out.
\<close>

section \<open>Constants and kinds\<close>

definition RADROOTS_TRADE_SCHEMA_VERSION :: nat where
  "RADROOTS_TRADE_SCHEMA_VERSION = 1"

definition RADROOTS_TRADE_MAX_ACTIVE_LINES :: nat where
  "RADROOTS_TRADE_MAX_ACTIVE_LINES = 64"

definition RADROOTS_TRADE_MAX_ADJUSTMENTS :: nat where
  "RADROOTS_TRADE_MAX_ADJUSTMENTS = 128"

definition RADROOTS_TRADE_MAX_PARENT_MUTATIONS :: nat where
  "RADROOTS_TRADE_MAX_PARENT_MUTATIONS = 4"

datatype TradeMutationKindV1 =
    ProposalKind
  | DecisionKind
  | RevisionProposalKind
  | RevisionDecisionKind
  | CancellationKind

fun contract_id :: "TradeMutationKindV1 \<Rightarrow> string" where
  "contract_id ProposalKind = ''radroots.trade.proposal.v1''"
| "contract_id DecisionKind = ''radroots.trade.decision.v1''"
| "contract_id RevisionProposalKind = ''radroots.trade.revision_proposal.v1''"
| "contract_id RevisionDecisionKind = ''radroots.trade.revision_decision.v1''"
| "contract_id CancellationKind = ''radroots.trade.cancellation.v1''"

fun nostr_kind :: "TradeMutationKindV1 \<Rightarrow> nat" where
  "nostr_kind ProposalKind = 3470"
| "nostr_kind DecisionKind = 3471"
| "nostr_kind RevisionProposalKind = 3472"
| "nostr_kind RevisionDecisionKind = 3473"
| "nostr_kind CancellationKind = 3474"

section \<open>Data\<close>

record TradeCandidateLineV1 =
  tl_line_id :: DTag
  tl_listing_addr :: ClassifiedListingAddress
  tl_listing_event_id :: EventId
  tl_listing_snapshot_sha256 :: string
  tl_product_id :: string
  tl_option_id :: "string option"
  tl_bin_id :: InventoryBinId
  tl_quantity_mantissa :: string
  tl_quantity_scale :: nat
  tl_unit_code :: string
  tl_unit_profile :: string
  tl_unit_price_mantissa :: string
  tl_currency_code :: string
  tl_line_subtotal_mantissa :: string
  tl_replaces_line_id :: "DTag option"

record TradeLineTombstoneV1 =
  tt_line_id :: DTag
  tt_reason :: string

record TradeEconomicAdjustmentV1 =
  aj_adjustment_id :: DTag
  aj_actor :: string
  aj_effect :: string
  aj_amount_mantissa :: string
  aj_reason :: string

record TradeEconomicsProfileV1 =
  ec_profile_id :: string
  ec_currency_code :: string
  ec_currency_exponent :: nat
  ec_rounding_profile :: string
  ec_subtotal_mantissa :: string
  ec_discount_total_mantissa :: string
  ec_adjustment_total_mantissa :: string
  ec_total_mantissa :: string
  ec_adjustments :: "TradeEconomicAdjustmentV1 list"

record FulfillmentProfileV1 =
  fp_profile_id :: string
  fp_method :: string
  fp_starts_at_unix_s :: nat
  fp_ends_at_unix_s :: nat
  fp_timezone :: string
  fp_utc_offset_seconds :: int
  fp_fold :: nat
  fp_location_class :: string
  fp_requires_private_terms :: bool

record TradeCancellationProfileV1 =
  cx_profile_id :: string
  cx_buyer_pre_agreement :: bool
  cx_post_agreement_cutoff_unix_s :: "nat option"

record TradePrivateTermsRefV1 =
  pv_artifact_id :: string
  pv_schema_id :: string
  pv_ciphertext_commitment :: string
  pv_required_acknowledgement :: bool

record TradeCandidateTermsV1 =
  tc_candidate_id :: "CandidateId option"
  tc_schema_version :: nat
  tc_base_candidate_id :: "CandidateId option"
  tc_supersession_intent :: "string option"
  tc_buyer_pubkey :: PublicKey
  tc_seller_pubkey :: PublicKey
  tc_farm_id :: DTag
  tc_lines :: "TradeCandidateLineV1 list"
  tc_line_tombstones :: "TradeLineTombstoneV1 list"
  tc_economics :: TradeEconomicsProfileV1
  tc_fulfillment :: FulfillmentProfileV1
  tc_cancellation :: TradeCancellationProfileV1
  tc_private_terms :: "TradePrivateTermsRefV1 option"
  tc_proposal_expires_at_unix_s :: nat

record SellerReservationLineV1 =
  sv_line_id :: DTag
  sv_bin_id :: InventoryBinId
  sv_quantity_mantissa :: string
  sv_quantity_scale :: nat
  sv_unit_code :: string

record SellerReservationAssertionV1 =
  sr_reservation_id :: DTag
  sr_inventory_authority_id :: PublicKey
  sr_inventory_epoch :: nat
  sr_candidate_id :: CandidateId
  sr_commitments :: "SellerReservationLineV1 list"
  sr_reservation_expires_at_unix_s :: nat
  sr_assertion_commitment :: string

datatype TradeDecisionV1 =
    Accepted "SellerReservationAssertionV1 option"
  | Declined string

text \<open>A decision carries the proposal it decides, the candidate and the decision.\<close>

datatype TradeMutationBodyV1 =
    Proposal TradeCandidateTermsV1
  | Decision MutationId CandidateId TradeDecisionV1
  | RevisionProposal TradeCandidateTermsV1
  | RevisionDecision MutationId CandidateId TradeDecisionV1
  | Cancellation "CandidateId option" "MutationId option" string

record TradeMutationEnvelopeV1 =
  te_mutation_id :: "MutationId option"
  te_contract_id :: string
  te_schema_version :: nat
  te_trade_id :: TradeId
  te_root_mutation_id :: "MutationId option"
  te_buyer_pubkey :: PublicKey
  te_seller_pubkey :: PublicKey
  te_farm_id :: DTag
  te_parent_mutation_ids :: "MutationId list"
  te_author_pubkey :: PublicKey
  te_counterparty_pubkey :: PublicKey
  te_authored_at_unix_s :: nat
  te_body :: TradeMutationBodyV1

fun body_mutation_kind :: "TradeMutationBodyV1 \<Rightarrow> TradeMutationKindV1" where
  "body_mutation_kind (Proposal _) = ProposalKind"
| "body_mutation_kind (Decision _ _ _) = DecisionKind"
| "body_mutation_kind (RevisionProposal _) = RevisionProposalKind"
| "body_mutation_kind (RevisionDecision _ _ _) = RevisionDecisionKind"
| "body_mutation_kind (Cancellation _ _ _) = CancellationKind"

definition mutation_kind :: "TradeMutationEnvelopeV1 \<Rightarrow> TradeMutationKindV1" where
  "mutation_kind m = body_mutation_kind (te_body m)"

section \<open>Errors\<close>

text \<open>Pairs of lengths are the largest admitted and the actual one.\<close>

datatype TradeProtocolError =
    InvalidSchemaVersion nat nat
  | ContractMismatch string string
  | InvalidInitialParents
  | MissingParentMutation
  | TooManyParents nat nat
  | UnsortedParents
  | DuplicateParent
  | SelfParent
  | MissingLines
  | TooManyLines nat nat
  | TooManyAdjustments nat nat
  | DuplicateKey string
  | InvalidJson string
  | NonCanonicalJson
  | UnsupportedNumber
  | ContentTooLarge nat nat
  | EmptyField string
  | InvalidField string
  | InvalidIdentifier string ParseError
  | InvalidTimeRange
  | MissingReservationCommitments
  | MissingCancellationTarget
  | CandidateIdDiffers string string
  | MutationIdDiffers string string

fun TradeProtocolError_to_string :: "TradeProtocolError \<Rightarrow> string" where
  "TradeProtocolError_to_string (InvalidSchemaVersion required actual) =
     ''trade schema version '' @ show_nat actual @ '' must be '' @ show_nat required"
| "TradeProtocolError_to_string (ContractMismatch required actual) =
     ''trade contract '' @ actual @ '' must be '' @ required"
| "TradeProtocolError_to_string InvalidInitialParents = ''initial trade proposal must not have parents''"
| "TradeProtocolError_to_string MissingParentMutation = ''trade mutation requires a parent mutation''"
| "TradeProtocolError_to_string (TooManyParents limit actual) =
     ''trade mutation has '' @ show_nat actual @ '' parents; max is '' @ show_nat limit"
| "TradeProtocolError_to_string UnsortedParents = ''trade mutation parents must be sorted''"
| "TradeProtocolError_to_string DuplicateParent = ''trade mutation parents must be unique''"
| "TradeProtocolError_to_string SelfParent = ''trade mutation cannot reference itself as a parent''"
| "TradeProtocolError_to_string MissingLines = ''trade candidate requires at least one active line''"
| "TradeProtocolError_to_string (TooManyLines limit actual) =
     ''trade candidate has '' @ show_nat actual @ '' active lines; max is '' @ show_nat limit"
| "TradeProtocolError_to_string (TooManyAdjustments limit actual) =
     ''trade economics has '' @ show_nat actual @ '' adjustments; max is '' @ show_nat limit"
| "TradeProtocolError_to_string (DuplicateKey key) = ''trade canonical JSON has duplicate key '' @ key"
| "TradeProtocolError_to_string (InvalidJson error) = ''trade canonical JSON is invalid: '' @ error"
| "TradeProtocolError_to_string NonCanonicalJson = ''trade JSON is not canonical JCS''"
| "TradeProtocolError_to_string UnsupportedNumber = ''trade canonical JSON number is unsupported''"
| "TradeProtocolError_to_string (ContentTooLarge limit actual) =
     ''trade content is '' @ show_nat actual @ '' bytes; max is '' @ show_nat limit"
| "TradeProtocolError_to_string (EmptyField field) = ''trade field '' @ field @ '' cannot be empty''"
| "TradeProtocolError_to_string (InvalidField field) = ''trade field '' @ field @ '' is invalid''"
| "TradeProtocolError_to_string (InvalidIdentifier field error) =
     ''trade field '' @ field @ '' is invalid: '' @ ParseError_to_string error"
| "TradeProtocolError_to_string InvalidTimeRange = ''trade fulfillment time range is invalid''"
| "TradeProtocolError_to_string MissingReservationCommitments =
     ''seller reservation assertion requires commitments''"
| "TradeProtocolError_to_string MissingCancellationTarget = ''trade cancellation requires a target''"
| "TradeProtocolError_to_string (CandidateIdDiffers declared computed) =
     ''trade candidate id mismatch: declared '' @ declared @ '', computed '' @ computed"
| "TradeProtocolError_to_string (MutationIdDiffers declared computed) =
     ''trade mutation id mismatch: declared '' @ declared @ '', computed '' @ computed"

section \<open>Validation\<close>

definition validate_non_empty :: "string \<Rightarrow> string \<Rightarrow> TradeProtocolError + unit" where
  "validate_non_empty value field = (if trim value = [] then Inl (EmptyField field) else Inr ())"

text \<open>
  The sign is skipped once; every byte after it must be a digit and there must be one. A byte of a
  longer encoding is never a digit, so scanning bytes is scanning characters.
\<close>

definition validate_decimal_string :: "string \<Rightarrow> string \<Rightarrow> TradeProtocolError + unit" where
  "validate_decimal_string value field =
     bindE (validate_non_empty value field) (\<lambda>_.
     let chars = (if starts_with (CHR ''-'') value then tl value else value) in
     if \<not> list_all is_ascii_digit chars then Inl (InvalidField field)
     else if chars \<noteq> [] then Inr () else Inl (InvalidField field))"

definition validate_sha256_hex :: "string \<Rightarrow> string \<Rightarrow> TradeProtocolError + unit" where
  "validate_sha256_hex value field =
     map_err (InvalidIdentifier field) (map_ok (\<lambda>_. ()) (hex_id_parse 32 value :: ParseError + MutationId))"

fun sorted_unique_from ::
  "('a \<Rightarrow> string) \<Rightarrow> string \<Rightarrow> string option \<Rightarrow> 'a list \<Rightarrow> TradeProtocolError + unit" where
  "sorted_unique_from key field previous [] = Inr ()"
| "sorted_unique_from key field previous (item # items) =
     bindE (validate_non_empty (key item) field) (\<lambda>_.
     if (case previous of Some p \<Rightarrow> key item \<le> p | None \<Rightarrow> False) then Inl (InvalidField field)
     else sorted_unique_from key field (Some (key item)) items)"

definition validate_sorted_unique_by ::
  "'a list \<Rightarrow> ('a \<Rightarrow> string) \<Rightarrow> string \<Rightarrow> TradeProtocolError + unit" where
  "validate_sorted_unique_by items key field = sorted_unique_from key field None items"

fun parents_from ::
  "MutationId option \<Rightarrow> MutationId option \<Rightarrow> MutationId list \<Rightarrow> TradeProtocolError + unit" where
  "parents_from mutation_id previous [] = Inr ()"
| "parents_from mutation_id previous (parent # parents) =
     (if Some parent = mutation_id then Inl SelfParent
      else case previous of
        None \<Rightarrow> parents_from mutation_id (Some parent) parents
      | Some p \<Rightarrow>
          if parent < p then Inl UnsortedParents
          else if p = parent then Inl DuplicateParent
          else parents_from mutation_id (Some parent) parents)"

definition validate_parent_mutation_ids ::
  "MutationId option \<Rightarrow> MutationId list \<Rightarrow> TradeProtocolError + unit" where
  "validate_parent_mutation_ids mutation_id parents =
     (if RADROOTS_TRADE_MAX_PARENT_MUTATIONS < length parents
      then Inl (TooManyParents RADROOTS_TRADE_MAX_PARENT_MUTATIONS (length parents))
      else parents_from mutation_id None parents)"

definition line_validate :: "TradeCandidateLineV1 \<Rightarrow> TradeProtocolError + unit" where
  "line_validate l =
     bindE (validate_sha256_hex (tl_listing_snapshot_sha256 l) ''listing_snapshot_sha256'') (\<lambda>_.
     bindE (validate_non_empty (tl_product_id l) ''product_id'') (\<lambda>_.
     bindE (case tl_option_id l of Some option_id \<Rightarrow> validate_non_empty option_id ''option_id''
            | None \<Rightarrow> Inr ()) (\<lambda>_.
     bindE (validate_decimal_string (tl_quantity_mantissa l) ''quantity_mantissa'') (\<lambda>_.
     bindE (validate_non_empty (tl_unit_code l) ''unit_code'') (\<lambda>_.
     bindE (validate_non_empty (tl_unit_profile l) ''unit_profile'') (\<lambda>_.
     bindE (validate_decimal_string (tl_unit_price_mantissa l) ''unit_price_mantissa'') (\<lambda>_.
     bindE (validate_non_empty (tl_currency_code l) ''currency_code'') (\<lambda>_.
     validate_decimal_string (tl_line_subtotal_mantissa l) ''line_subtotal_mantissa''))))))))"

definition tombstone_validate :: "TradeLineTombstoneV1 \<Rightarrow> TradeProtocolError + unit" where
  "tombstone_validate t = validate_non_empty (tt_reason t) ''line_tombstone.reason''"

definition adjustment_validate :: "TradeEconomicAdjustmentV1 \<Rightarrow> TradeProtocolError + unit" where
  "adjustment_validate a =
     bindE (validate_non_empty (aj_actor a) ''adjustment.actor'') (\<lambda>_.
     bindE (validate_non_empty (aj_effect a) ''adjustment.effect'') (\<lambda>_.
     bindE (validate_decimal_string (aj_amount_mantissa a) ''adjustment.amount_mantissa'') (\<lambda>_.
     validate_non_empty (aj_reason a) ''adjustment.reason'')))"

definition economics_validate :: "TradeEconomicsProfileV1 \<Rightarrow> TradeProtocolError + unit" where
  "economics_validate e =
     bindE (validate_non_empty (ec_profile_id e) ''economics.profile_id'') (\<lambda>_.
     bindE (validate_non_empty (ec_currency_code e) ''economics.currency_code'') (\<lambda>_.
     bindE (validate_non_empty (ec_rounding_profile e) ''economics.rounding_profile'') (\<lambda>_.
     bindE (validate_decimal_string (ec_subtotal_mantissa e) ''economics.subtotal_mantissa'') (\<lambda>_.
     bindE (validate_decimal_string (ec_discount_total_mantissa e) ''economics.discount_total_mantissa'') (\<lambda>_.
     bindE (validate_decimal_string (ec_adjustment_total_mantissa e)
              ''economics.adjustment_total_mantissa'') (\<lambda>_.
     bindE (validate_decimal_string (ec_total_mantissa e) ''economics.total_mantissa'') (\<lambda>_.
     if RADROOTS_TRADE_MAX_ADJUSTMENTS < length (ec_adjustments e)
     then Inl (TooManyAdjustments RADROOTS_TRADE_MAX_ADJUSTMENTS (length (ec_adjustments e)))
     else bindE (validate_sorted_unique_by (ec_adjustments e) (\<lambda>a. d_tag_str (aj_adjustment_id a))
              ''adjustments'') (\<lambda>_.
     try_all adjustment_validate (ec_adjustments e)))))))))"

definition fulfillment_validate :: "FulfillmentProfileV1 \<Rightarrow> TradeProtocolError + unit" where
  "fulfillment_validate f =
     bindE (validate_non_empty (fp_profile_id f) ''fulfillment.profile_id'') (\<lambda>_.
     bindE (validate_non_empty (fp_method f) ''fulfillment.method'') (\<lambda>_.
     bindE (validate_non_empty (fp_timezone f) ''fulfillment.timezone'') (\<lambda>_.
     bindE (validate_non_empty (fp_location_class f) ''fulfillment.location_class'') (\<lambda>_.
     if fp_ends_at_unix_s f \<le> fp_starts_at_unix_s f then Inl InvalidTimeRange
     else if 1 < fp_fold f then Inl (InvalidField ''fulfillment.fold'')
     else Inr ()))))"

definition cancellation_profile_validate :: "TradeCancellationProfileV1 \<Rightarrow> TradeProtocolError + unit" where
  "cancellation_profile_validate c = validate_non_empty (cx_profile_id c) ''cancellation.profile_id''"

definition private_terms_validate :: "TradePrivateTermsRefV1 \<Rightarrow> TradeProtocolError + unit" where
  "private_terms_validate p =
     bindE (validate_non_empty (pv_artifact_id p) ''private_terms.artifact_id'') (\<lambda>_.
     bindE (validate_non_empty (pv_schema_id p) ''private_terms.schema_id'') (\<lambda>_.
     validate_sha256_hex (pv_ciphertext_commitment p) ''private_terms.ciphertext_commitment''))"

definition candidate_validate :: "TradeCandidateTermsV1 \<Rightarrow> TradeProtocolError + unit" where
  "candidate_validate c =
     (if tc_schema_version c \<noteq> RADROOTS_TRADE_SCHEMA_VERSION
      then Inl (InvalidSchemaVersion RADROOTS_TRADE_SCHEMA_VERSION (tc_schema_version c))
      else if tc_lines c = [] then Inl MissingLines
      else if RADROOTS_TRADE_MAX_ACTIVE_LINES < length (tc_lines c)
      then Inl (TooManyLines RADROOTS_TRADE_MAX_ACTIVE_LINES (length (tc_lines c)))
      else
       bindE (validate_sorted_unique_by (tc_lines c) (\<lambda>l. d_tag_str (tl_line_id l)) ''lines'') (\<lambda>_.
       bindE (validate_sorted_unique_by (tc_line_tombstones c) (\<lambda>l. d_tag_str (tt_line_id l))
                ''line_tombstones'') (\<lambda>_.
       bindE (try_all line_validate (tc_lines c)) (\<lambda>_.
       bindE (try_all tombstone_validate (tc_line_tombstones c)) (\<lambda>_.
       bindE (economics_validate (tc_economics c)) (\<lambda>_.
       bindE (fulfillment_validate (tc_fulfillment c)) (\<lambda>_.
       bindE (cancellation_profile_validate (tc_cancellation c)) (\<lambda>_.
       case tc_private_terms c of Some p \<Rightarrow> private_terms_validate p | None \<Rightarrow> Inr ()))))))))"

definition reservation_line_validate :: "SellerReservationLineV1 \<Rightarrow> TradeProtocolError + unit" where
  "reservation_line_validate l =
     bindE (validate_decimal_string (sv_quantity_mantissa l) ''reservation.line.quantity_mantissa'') (\<lambda>_.
     validate_non_empty (sv_unit_code l) ''reservation.line.unit_code'')"

definition reservation_validate :: "SellerReservationAssertionV1 \<Rightarrow> TradeProtocolError + unit" where
  "reservation_validate r =
     (if sr_commitments r = [] then Inl MissingReservationCommitments
      else
       bindE (validate_sorted_unique_by (sr_commitments r) (\<lambda>l. d_tag_str (sv_line_id l))
                ''reservation.commitments'') (\<lambda>_.
       bindE (try_all reservation_line_validate (sr_commitments r)) (\<lambda>_.
       validate_sha256_hex (sr_assertion_commitment r) ''reservation.assertion_commitment'')))"

definition decision_validate :: "TradeDecisionV1 \<Rightarrow> TradeProtocolError + unit" where
  "decision_validate d =
     (case d of
        Accepted (Some assertion) \<Rightarrow> reservation_validate assertion
      | Accepted None \<Rightarrow> Inr ()
      | Declined reason \<Rightarrow> validate_non_empty reason ''decision.reason'')"

definition body_validate :: "TradeMutationBodyV1 \<Rightarrow> TradeProtocolError + unit" where
  "body_validate b =
     (case b of
        Proposal candidate \<Rightarrow> candidate_validate candidate
      | RevisionProposal candidate \<Rightarrow> candidate_validate candidate
      | Decision _ _ decision \<Rightarrow> decision_validate decision
      | RevisionDecision _ _ decision \<Rightarrow> decision_validate decision
      | Cancellation target_candidate_id target_claim_mutation_id reason \<Rightarrow>
          if target_candidate_id = None \<and> target_claim_mutation_id = None
          then Inl MissingCancellationTarget
          else validate_non_empty reason ''reason'')"

definition envelope_validate :: "TradeMutationEnvelopeV1 \<Rightarrow> TradeProtocolError + unit" where
  "envelope_validate m =
     (if te_schema_version m \<noteq> RADROOTS_TRADE_SCHEMA_VERSION
      then Inl (InvalidSchemaVersion RADROOTS_TRADE_SCHEMA_VERSION (te_schema_version m))
      else if te_contract_id m \<noteq> contract_id (mutation_kind m)
      then Inl (ContractMismatch (contract_id (mutation_kind m)) (te_contract_id m))
      else
       bindE (validate_parent_mutation_ids (te_mutation_id m) (te_parent_mutation_ids m)) (\<lambda>_.
       bindE (case mutation_kind m of
                ProposalKind \<Rightarrow>
                  if te_root_mutation_id m \<noteq> None \<or> te_parent_mutation_ids m \<noteq> []
                  then Inl InvalidInitialParents else Inr ()
              | _ \<Rightarrow>
                  if te_root_mutation_id m = None \<or> te_parent_mutation_ids m = []
                  then Inl MissingParentMutation else Inr ()) (\<lambda>_.
       body_validate (te_body m))))"

section \<open>What validation accepts\<close>

text \<open>
  The accepted values in their own terms: a filled text is not all whitespace, a decimal text is
  an optional minus sign before at least one digit, a hash text is 64 hexadecimal digits, and keys
  are filled and strictly increasing.
\<close>

definition filled :: "string \<Rightarrow> bool" where
  "filled s \<longleftrightarrow> \<not> list_all is_whitespace (utf8_chars s)"

definition decimal_text :: "string \<Rightarrow> bool" where
  "decimal_text s \<longleftrightarrow> (\<exists>digits. digits \<noteq> [] \<and> list_all is_ascii_digit digits \<and> (s = digits \<or> s = ''-'' @ digits))"

definition hash_text :: "string \<Rightarrow> bool" where
  "hash_text s \<longleftrightarrow> length s = 64 \<and> list_all (\<lambda>c. \<not> isl (decode_hex_nibble c)) s"

definition increasing_keys :: "string list \<Rightarrow> bool" where
  "increasing_keys ks \<longleftrightarrow> list_all filled ks \<and> sorted_wrt (<) ks"

definition valid_line :: "TradeCandidateLineV1 \<Rightarrow> bool" where
  "valid_line l \<longleftrightarrow>
     hash_text (tl_listing_snapshot_sha256 l) \<and> filled (tl_product_id l)
     \<and> (case tl_option_id l of None \<Rightarrow> True | Some s \<Rightarrow> filled s)
     \<and> list_all decimal_text
         [tl_quantity_mantissa l, tl_unit_price_mantissa l, tl_line_subtotal_mantissa l]
     \<and> list_all filled [tl_unit_code l, tl_unit_profile l, tl_currency_code l]"

definition valid_economics :: "TradeEconomicsProfileV1 \<Rightarrow> bool" where
  "valid_economics e \<longleftrightarrow>
     list_all filled [ec_profile_id e, ec_currency_code e, ec_rounding_profile e]
     \<and> list_all decimal_text
         [ec_subtotal_mantissa e, ec_discount_total_mantissa e, ec_adjustment_total_mantissa e, ec_total_mantissa e]
     \<and> length (ec_adjustments e) \<le> 128
     \<and> increasing_keys (map (\<lambda>a. d_tag_str (aj_adjustment_id a)) (ec_adjustments e))
     \<and> list_all (\<lambda>a. filled (aj_actor a) \<and> filled (aj_effect a) \<and> decimal_text (aj_amount_mantissa a)
         \<and> filled (aj_reason a)) (ec_adjustments e)"

definition valid_candidate :: "TradeCandidateTermsV1 \<Rightarrow> bool" where
  "valid_candidate c \<longleftrightarrow>
     tc_schema_version c = 1 \<and> tc_lines c \<noteq> [] \<and> length (tc_lines c) \<le> 64
     \<and> increasing_keys (map (\<lambda>l. d_tag_str (tl_line_id l)) (tc_lines c))
     \<and> increasing_keys (map (\<lambda>l. d_tag_str (tt_line_id l)) (tc_line_tombstones c))
     \<and> list_all valid_line (tc_lines c) \<and> list_all (\<lambda>t. filled (tt_reason t)) (tc_line_tombstones c)
     \<and> valid_economics (tc_economics c)
     \<and> list_all filled [fp_profile_id (tc_fulfillment c), fp_method (tc_fulfillment c),
         fp_timezone (tc_fulfillment c), fp_location_class (tc_fulfillment c)]
     \<and> fp_starts_at_unix_s (tc_fulfillment c) < fp_ends_at_unix_s (tc_fulfillment c)
     \<and> fp_fold (tc_fulfillment c) \<le> 1 \<and> filled (cx_profile_id (tc_cancellation c))
     \<and> (case tc_private_terms c of None \<Rightarrow> True
        | Some p \<Rightarrow> filled (pv_artifact_id p) \<and> filled (pv_schema_id p) \<and> hash_text (pv_ciphertext_commitment p))"

definition valid_reservation :: "SellerReservationAssertionV1 \<Rightarrow> bool" where
  "valid_reservation r \<longleftrightarrow>
     sr_commitments r \<noteq> [] \<and> increasing_keys (map (\<lambda>l. d_tag_str (sv_line_id l)) (sr_commitments r))
     \<and> list_all (\<lambda>l. decimal_text (sv_quantity_mantissa l) \<and> filled (sv_unit_code l)) (sr_commitments r)
     \<and> hash_text (sr_assertion_commitment r)"

fun valid_decision :: "TradeDecisionV1 \<Rightarrow> bool" where
  "valid_decision (Accepted None) = True"
| "valid_decision (Accepted (Some r)) = valid_reservation r"
| "valid_decision (Declined reason) = filled reason"

fun valid_body :: "TradeMutationBodyV1 \<Rightarrow> bool" where
  "valid_body (Proposal c) = valid_candidate c"
| "valid_body (RevisionProposal c) = valid_candidate c"
| "valid_body (Decision _ _ d) = valid_decision d"
| "valid_body (RevisionDecision _ _ d) = valid_decision d"
| "valid_body (Cancellation candidate claim reason) =
     ((candidate \<noteq> None \<or> claim \<noteq> None) \<and> filled reason)"

lemma validate_non_empty_Inr [result_simps]: "validate_non_empty s f = Inr () \<longleftrightarrow> filled s"
  by (simp add: validate_non_empty_def filled_def trim_eq_Nil)

lemma filled_ascii:
  assumes "byte_of c < 128" and "byte_of c \<notin> {9..13}" and "byte_of c \<noteq> 32"
    and "\<forall>d\<in>set s. byte_of d < 128"
  shows "filled (c # s)"
proof -
  have "takeWhile is_continuation_byte s = []"
    using assms(4) by (cases s) (auto simp: is_continuation_byte_def)
  with assms(1-3) show ?thesis by (auto simp: filled_def is_whitespace_def)
qed

lemma decimal_text_filled: "decimal_text s \<Longrightarrow> filled s"
proof -
  assume "decimal_text s"
  then obtain ds where ds: "ds \<noteq> []" "list_all is_ascii_digit ds" "s = ds \<or> s = ''-'' @ ds"
    by (auto simp: decimal_text_def)
  from ds(2) have low: "\<forall>d\<in>set ds. byte_of d < 128" by (auto simp: list_all_iff is_ascii_digit_def)
  then show "filled s"
    using ds by (cases ds) (auto simp: is_ascii_digit_def byte_of_def intro!: filled_ascii)
qed

lemma validate_decimal_string_Inr [result_simps]:
  "validate_decimal_string s f = Inr () \<longleftrightarrow> decimal_text s"
proof
  assume "validate_decimal_string s f = Inr ()"
  then show "decimal_text s"
    by (cases s) (auto simp: validate_decimal_string_def decimal_text_def result_simps Let_def
        starts_with_def split: if_splits)
next
  assume dec: "decimal_text s"
  then obtain ds where ds: "ds \<noteq> []" "list_all is_ascii_digit ds" "s = ds \<or> s = ''-'' @ ds"
    by (auto simp: decimal_text_def)
  then have "(if starts_with (CHR ''-'') s then tl s else s) = ds"
    by (cases ds) (auto simp: starts_with_def is_ascii_digit_def byte_of_def)
  with ds(1,2) decimal_text_filled [OF dec] show "validate_decimal_string s f = Inr ()"
    by (simp add: validate_decimal_string_def result_simps)
qed

lemma decode_chunks_Inr_iff:
  "even (length s) \<Longrightarrow> (\<exists>bs. decode_chunks s = Inr bs) \<longleftrightarrow> list_all (\<lambda>c. \<not> isl (decode_hex_nibble c)) s"
  by (induction s rule: decode_chunks.induct) (auto simp: result_simps not_isl_iff)

lemma validate_sha256_hex_Inr [result_simps]: "validate_sha256_hex s f = Inr () \<longleftrightarrow> hash_text s"
  using decode_chunks_Inr_iff [of s]
  by (auto simp: validate_sha256_hex_def hash_text_def hex_id_parse_def decode_hex_def Let_def
      result_simps)

lemma sorted_unique_from_Inr:
  "sorted_unique_from key f prev xs = Inr () \<longleftrightarrow>
    list_all filled (map key xs)
    \<and> sorted_wrt (<) ((case prev of None \<Rightarrow> [] | Some p \<Rightarrow> [p]) @ map key xs)"
proof (induction xs arbitrary: prev)
  case Nil
  then show ?case by (auto split: option.splits)
next
  case (Cons x xs)
  have chain: "sorted_wrt (<) (p # key x # map key xs) \<longleftrightarrow> p < key x \<and> sorted_wrt (<) (key x # map key xs)" for p
    by (auto intro: less_trans)
  show ?case
    by (cases prev) (auto simp: result_simps Cons.IH chain not_le simp del: sorted_wrt.simps(2))
qed

lemma validate_sorted_unique_by_Inr [result_simps]:
  "validate_sorted_unique_by xs key f = Inr () \<longleftrightarrow> increasing_keys (map key xs)"
  by (simp add: validate_sorted_unique_by_def sorted_unique_from_Inr increasing_keys_def)

lemma parents_from_Inr:
  "parents_from m prev ps = Inr () \<longleftrightarrow>
    (\<forall>p\<in>set ps. Some p \<noteq> m) \<and> sorted_wrt (<) ((case prev of None \<Rightarrow> [] | Some p \<Rightarrow> [p]) @ ps)"
proof (induction ps arbitrary: prev)
  case Nil
  then show ?case by (auto split: option.splits)
next
  case (Cons x xs)
  have chain: "sorted_wrt (<) (p # x # xs) \<longleftrightarrow> p < x \<and> sorted_wrt (<) (x # xs)" for p
    by (auto intro: less_trans)
  show ?case
    by (cases prev) (auto simp: Cons.IH chain simp del: sorted_wrt.simps(2))
qed

lemma line_validate_Inr [result_simps]: "line_validate l = Inr () \<longleftrightarrow> valid_line l"
  by (auto simp: line_validate_def valid_line_def result_simps split: option.splits)

lemma economics_validate_Inr [result_simps]: "economics_validate e = Inr () \<longleftrightarrow> valid_economics e"
  by (auto simp: economics_validate_def valid_economics_def adjustment_validate_def result_simps
      list_all_iff RADROOTS_TRADE_MAX_ADJUSTMENTS_def not_less)

lemma candidate_validate_Inr [result_simps]: "candidate_validate c = Inr () \<longleftrightarrow> valid_candidate c"
  by (auto simp: candidate_validate_def valid_candidate_def tombstone_validate_def
      fulfillment_validate_def cancellation_profile_validate_def private_terms_validate_def
      result_simps list_all_iff RADROOTS_TRADE_SCHEMA_VERSION_def RADROOTS_TRADE_MAX_ACTIVE_LINES_def
      split: option.splits)

lemma reservation_validate_Inr [result_simps]: "reservation_validate r = Inr () \<longleftrightarrow> valid_reservation r"
  by (auto simp: reservation_validate_def valid_reservation_def reservation_line_validate_def
      result_simps list_all_iff)

lemma decision_validate_Inr [result_simps]: "decision_validate d = Inr () \<longleftrightarrow> valid_decision d"
  by (cases d rule: valid_decision.cases) (simp_all add: decision_validate_def result_simps)

lemma body_validate_Inr [result_simps]: "body_validate b = Inr () \<longleftrightarrow> valid_body b"
  by (cases b) (auto simp: body_validate_def result_simps)

lemma validate_parent_mutation_ids_Inr [result_simps]:
  "validate_parent_mutation_ids m ps = Inr () \<longleftrightarrow>
    length ps \<le> 4 \<and> sorted_wrt (<) ps \<and> list_all (\<lambda>p. Some p \<noteq> m) ps"
  by (auto simp: validate_parent_mutation_ids_def RADROOTS_TRADE_MAX_PARENT_MUTATIONS_def
      parents_from_Inr list_all_iff)

section \<open>Properties\<close>

text \<open>C20: validation accepts a trade mutation exactly when it is of schema version one, carries the
  contract identifier of its kind, names at most four strictly increasing parents none of which is
  itself, has no root and no parents if it is an initial proposal and both a root and a parent
  otherwise, and its body is well formed: one to 64 lines with strictly increasing identifiers,
  hash, decimal and non-blank texts where they are required, a proper time range, a reservation
  with commitments, a decline or cancellation with its reason and target.\<close>

theorem envelope_validate_exact:
  "envelope_validate m = Inr () \<longleftrightarrow>
    te_schema_version m = 1 \<and> te_contract_id m = contract_id (mutation_kind m)
    \<and> length (te_parent_mutation_ids m) \<le> 4 \<and> sorted_wrt (<) (te_parent_mutation_ids m)
    \<and> list_all (\<lambda>p. Some p \<noteq> te_mutation_id m) (te_parent_mutation_ids m)
    \<and> (if mutation_kind m = ProposalKind
       then te_root_mutation_id m = None \<and> te_parent_mutation_ids m = []
       else te_root_mutation_id m \<noteq> None \<and> te_parent_mutation_ids m \<noteq> [])
    \<and> valid_body (te_body m)"
  by (cases "mutation_kind m")
    (auto simp: envelope_validate_def RADROOTS_TRADE_SCHEMA_VERSION_def result_simps)

end
