(* ===== verification/Trade_Workflow.thy ===== *)
theory Trade_Workflow
  imports Trade_Event
begin

text \<open>
  The planning side of \<open>crates/trade\<close>: workflow plans (\<open>workflow.rs\<close>), the coverage of trade
  evidence (\<open>evidence.rs\<close>) and business order identifiers (\<open>model.rs\<close>).
\<close>

section \<open>Workflow plans\<close>

datatype WorkflowAction = Sign | Persist | Deliver | VerifyPrivateTerms

record PrivateTermsPlan =
  pp_candidate_id :: CandidateId
  pp_artifact_id :: string
  pp_schema_id :: string
  pp_ciphertext_commitment :: string

record WorkflowPlan =
  wp_mutation :: TradeMutationEnvelopeV1
  wp_mutation_id :: MutationId
  wp_kind :: TradeMutationKindV1
  wp_required_actions :: "WorkflowAction list"
  wp_private_terms :: "PrivateTermsPlan option"

datatype ErrorKind = UnsupportedSchema | MissingMutationId | InvalidMutation | InvalidPrivateTerms

record WorkflowError =
  we_kind :: ErrorKind
  we_message :: string
  we_source :: "TradeProtocolError option"

definition unsupported_schema :: "nat \<Rightarrow> WorkflowError" where
  "unsupported_schema found =
     \<lparr>we_kind = UnsupportedSchema,
      we_message = ''unsupported trade schema version '' @ show_nat found @ ''; expected ''
        @ show_nat RADROOTS_TRADE_SCHEMA_VERSION,
      we_source = None\<rparr>"

definition missing_mutation_id :: WorkflowError where
  "missing_mutation_id =
     \<lparr>we_kind = MissingMutationId, we_message = ''canonical trade mutation identifier is missing'',
      we_source = None\<rparr>"

definition invalid_mutation :: "TradeProtocolError \<Rightarrow> WorkflowError" where
  "invalid_mutation source =
     \<lparr>we_kind = InvalidMutation,
      we_message = ''invalid canonical trade mutation: '' @ TradeProtocolError_to_string source,
      we_source = Some source\<rparr>"

definition invalid_private_terms :: "string \<Rightarrow> WorkflowError" where
  "invalid_private_terms message =
     \<lparr>we_kind = InvalidPrivateTerms, we_message = message, we_source = None\<rparr>"

definition candidate_private_terms :: "TradeCandidateTermsV1 \<Rightarrow> WorkflowError + PrivateTermsPlan option" where
  "candidate_private_terms candidate =
     (if \<not> (fp_requires_private_terms (tc_fulfillment candidate) \<or> tc_private_terms candidate \<noteq> None)
      then Inr None
      else
       bindE (ok_or (invalid_private_terms ''required private terms need a canonical candidate identifier'')
         (tc_candidate_id candidate)) (\<lambda>candidate_id.
       bindE (ok_or (invalid_private_terms ''required private terms need an encrypted artifact reference'')
         (tc_private_terms candidate)) (\<lambda>private_terms.
       Inr (Some \<lparr>pp_candidate_id = candidate_id, pp_artifact_id = pv_artifact_id private_terms,
                  pp_schema_id = pv_schema_id private_terms,
                  pp_ciphertext_commitment = pv_ciphertext_commitment private_terms\<rparr>))))"

definition private_terms_plan :: "TradeMutationBodyV1 \<Rightarrow> WorkflowError + PrivateTermsPlan option" where
  "private_terms_plan body =
     (case body of
        Proposal candidate \<Rightarrow> candidate_private_terms candidate
      | RevisionProposal candidate \<Rightarrow> candidate_private_terms candidate
      | Decision _ _ _ \<Rightarrow> Inr None
      | RevisionDecision _ _ _ \<Rightarrow> Inr None
      | Cancellation _ _ _ \<Rightarrow> Inr None)"

definition WorkflowPlan_prepare :: "TradeMutationEnvelopeV1 \<Rightarrow> WorkflowError + WorkflowPlan" where
  "WorkflowPlan_prepare mutation =
     (if te_schema_version mutation \<noteq> RADROOTS_TRADE_SCHEMA_VERSION
      then Inl (unsupported_schema (te_schema_version mutation))
      else
       bindE (ok_or missing_mutation_id (te_mutation_id mutation)) (\<lambda>mutation_id.
       bindE (map_err invalid_mutation (envelope_validate mutation)) (\<lambda>_.
       bindE (private_terms_plan (te_body mutation)) (\<lambda>private_terms.
       let required_actions = [Sign, Persist, Deliver];
           required_actions = (if private_terms \<noteq> None then VerifyPrivateTerms # required_actions
                               else required_actions)
       in Inr \<lparr>wp_mutation = mutation, wp_mutation_id = mutation_id, wp_kind = mutation_kind mutation,
               wp_required_actions = required_actions, wp_private_terms = private_terms\<rparr>))))"

section \<open>Evidence coverage\<close>

definition RADROOTS_TRADE_EVIDENCE_MAXIMUM_SOURCE_COUNT :: nat where
  "RADROOTS_TRADE_EVIDENCE_MAXIMUM_SOURCE_COUNT = 16"

definition RADROOTS_TRADE_EVIDENCE_MAXIMUM_EVENTS_PER_SOURCE :: nat where
  "RADROOTS_TRADE_EVIDENCE_MAXIMUM_EVENTS_PER_SOURCE = 4096"

datatype RadrootsTradeEvidenceCoverageV1 = CoverageMissing | Partial | ScopeSatisfied | Unsupported

datatype RadrootsTradeEvidenceOutcomeV1 = OutcomeValid | OutcomeInvalid | Indeterminate

datatype RadrootsTradeEvidenceSourceCompletionV1 = SourceComplete | Incomplete | SourceUnsupported

datatype RadrootsTradeEvidenceSourceRequirementV1 = Required | Optional

datatype RadrootsTradeEvidenceScopePrerequisitesV1 = Satisfied | Unsatisfied

datatype RadrootsTradeEvidenceCoverageError =
  SourceCountOutOfRange | NoRequiredSource | AdmittedEventCountOutOfRange

definition RadrootsTradeEvidenceCoverageError_to_string :: "RadrootsTradeEvidenceCoverageError \<Rightarrow> string" where
  "RadrootsTradeEvidenceCoverageError_to_string e =
     (case e of
        SourceCountOutOfRange \<Rightarrow> ''evidence source count is out of range''
      | NoRequiredSource \<Rightarrow> ''evidence scope has no required source''
      | AdmittedEventCountOutOfRange \<Rightarrow> ''evidence source admitted event count is out of range'')"

definition permits :: "RadrootsTradeEvidenceCoverageV1 \<Rightarrow> RadrootsTradeEvidenceOutcomeV1 \<Rightarrow> bool" where
  "permits coverage outcome \<longleftrightarrow> outcome = Indeterminate \<or> coverage = ScopeSatisfied"

record RadrootsTradeEvidenceSourceResultV1 =
  es_requirement :: RadrootsTradeEvidenceSourceRequirementV1
  es_completion :: RadrootsTradeEvidenceSourceCompletionV1
  es_admitted_event_count :: nat

definition SourceResult_new ::
  "RadrootsTradeEvidenceSourceRequirementV1 \<Rightarrow> RadrootsTradeEvidenceSourceCompletionV1 \<Rightarrow> nat
    \<Rightarrow> RadrootsTradeEvidenceCoverageError + RadrootsTradeEvidenceSourceResultV1" where
  "SourceResult_new requirement completion admitted_event_count =
     (if RADROOTS_TRADE_EVIDENCE_MAXIMUM_EVENTS_PER_SOURCE < admitted_event_count
      then Inl AdmittedEventCountOutOfRange
      else Inr \<lparr>es_requirement = requirement, es_completion = completion,
                es_admitted_event_count = admitted_event_count\<rparr>)"

record coverage_state =
  cv_source_count :: nat
  cv_has_required_source :: bool
  cv_required_source_unsupported :: bool
  cv_every_required_source_complete :: bool
  cv_any_source_complete :: bool
  cv_any_relevant_evidence :: bool

definition coverage_step ::
  "coverage_state \<Rightarrow> RadrootsTradeEvidenceSourceResultV1
    \<Rightarrow> RadrootsTradeEvidenceCoverageError + coverage_state" where
  "coverage_step st source =
     (let st = st\<lparr>cv_source_count := cv_source_count st + 1\<rparr> in
      if RADROOTS_TRADE_EVIDENCE_MAXIMUM_SOURCE_COUNT < cv_source_count st then Inl SourceCountOutOfRange
      else
       let st = (if es_requirement source = Required
                 then st\<lparr>cv_has_required_source := True,
                         cv_required_source_unsupported :=
                           cv_required_source_unsupported st \<or> es_completion source = SourceUnsupported,
                         cv_every_required_source_complete :=
                           cv_every_required_source_complete st \<and> es_completion source = SourceComplete\<rparr>
                 else st)
       in Inr (st\<lparr>cv_any_source_complete := cv_any_source_complete st \<or> es_completion source = SourceComplete,
                  cv_any_relevant_evidence := cv_any_relevant_evidence st \<or> 0 < es_admitted_event_count source\<rparr>))"

definition classify_trade_evidence_coverage_v1 ::
  "RadrootsTradeEvidenceSourceResultV1 list \<Rightarrow> RadrootsTradeEvidenceScopePrerequisitesV1
    \<Rightarrow> RadrootsTradeEvidenceCoverageError + RadrootsTradeEvidenceCoverageV1" where
  "classify_trade_evidence_coverage_v1 sources scope_prerequisites =
     bindE (try_fold coverage_step
       \<lparr>cv_source_count = 0, cv_has_required_source = False, cv_required_source_unsupported = False,
        cv_every_required_source_complete = True, cv_any_source_complete = False,
        cv_any_relevant_evidence = False\<rparr> sources) (\<lambda>st.
     if cv_source_count st = 0 then Inl SourceCountOutOfRange
     else if \<not> cv_has_required_source st then Inl NoRequiredSource
     else Inr (if cv_required_source_unsupported st then Unsupported
               else if cv_every_required_source_complete st \<and> scope_prerequisites = Satisfied
               then ScopeSatisfied
               else if cv_any_source_complete st \<or> cv_any_relevant_evidence st then Partial
               else CoverageMissing))"

section \<open>Business order identifiers\<close>

definition ORDER_ID_MAX_LEN :: nat where
  "ORDER_ID_MAX_LEN = 128"

datatype BusinessOrderId = BusinessOrderId (order_id_str: string)

datatype OrderIdError = OrderIdEmpty | OrderIdTooLong nat nat | OrderIdInvalidCharacter

definition OrderId_parse :: "string \<Rightarrow> OrderIdError + BusinessOrderId" where
  "OrderId_parse value =
     (if value = [] then Inl OrderIdEmpty
      else if ORDER_ID_MAX_LEN < length value then Inl (OrderIdTooLong ORDER_ID_MAX_LEN (length value))
      else if trim value \<noteq> value \<or> has_control value \<or> has_whitespace value then Inl OrderIdInvalidCharacter
      else Inr (BusinessOrderId value))"

definition OrderIdError_to_string :: "OrderIdError \<Rightarrow> string" where
  "OrderIdError_to_string e =
     (case e of
        OrderIdEmpty \<Rightarrow> ''order identifier is empty''
      | OrderIdTooLong mx actual \<Rightarrow>
          ''order identifier length '' @ show_nat actual @ '' exceeds maximum length '' @ show_nat mx
      | OrderIdInvalidCharacter \<Rightarrow> ''order identifier contains an invalid character'')"

section \<open>What a plan holds\<close>

fun proposed_candidate :: "TradeMutationBodyV1 \<Rightarrow> TradeCandidateTermsV1 option" where
  "proposed_candidate (Proposal c) = Some c"
| "proposed_candidate (RevisionProposal c) = Some c"
| "proposed_candidate _ = None"

definition needs_private_terms :: "TradeMutationBodyV1 \<Rightarrow> bool" where
  "needs_private_terms b \<longleftrightarrow>
     (case proposed_candidate b of None \<Rightarrow> False
      | Some c \<Rightarrow> fp_requires_private_terms (tc_fulfillment c) \<or> tc_private_terms c \<noteq> None)"

definition planned_terms :: "TradeMutationBodyV1 \<Rightarrow> PrivateTermsPlan option" where
  "planned_terms b =
     Option.bind (proposed_candidate b) (\<lambda>c.
     Option.bind (tc_candidate_id c) (\<lambda>i.
     map_option (\<lambda>t. \<lparr>pp_candidate_id = i, pp_artifact_id = pv_artifact_id t, pp_schema_id = pv_schema_id t,
       pp_ciphertext_commitment = pv_ciphertext_commitment t\<rparr>) (tc_private_terms c)))"

lemma private_terms_plan_Inr:
  "private_terms_plan b = Inr r \<longleftrightarrow>
    (if needs_private_terms b then planned_terms b \<noteq> None \<and> r = planned_terms b else r = None)"
  by (cases b; (cases r)?)
    (auto simp: private_terms_plan_def candidate_private_terms_def needs_private_terms_def planned_terms_def
      result_simps bind_eq_Some_conv split: option.splits if_splits)

lemma coverage_fold:
  "try_fold coverage_step st sources =
    (if cv_source_count st \<le> 16 \<and> cv_source_count st + length sources \<le> 16 then
      Inr \<lparr>cv_source_count = cv_source_count st + length sources,
           cv_has_required_source = (cv_has_required_source st \<or> (\<exists>s\<in>set sources. es_requirement s = Required)),
           cv_required_source_unsupported = (cv_required_source_unsupported st
             \<or> (\<exists>s\<in>set sources. es_requirement s = Required \<and> es_completion s = SourceUnsupported)),
           cv_every_required_source_complete = (cv_every_required_source_complete st
             \<and> (\<forall>s\<in>set sources. es_requirement s = Required \<longrightarrow> es_completion s = SourceComplete)),
           cv_any_source_complete = (cv_any_source_complete st \<or> (\<exists>s\<in>set sources. es_completion s = SourceComplete)),
           cv_any_relevant_evidence = (cv_any_relevant_evidence st \<or> (\<exists>s\<in>set sources. 0 < es_admitted_event_count s))\<rparr>
     else Inl SourceCountOutOfRange)"
  if "cv_source_count st \<le> 16"
  using that
proof (induction sources arbitrary: st)
  case Nil
  then show ?case by simp
next
  case (Cons s sources)
  show ?case
  proof (cases "cv_source_count st < 16")
    case True
    then obtain st' where st': "coverage_step st s = Inr st'"
      by (simp add: coverage_step_def Let_def RADROOTS_TRADE_EVIDENCE_MAXIMUM_SOURCE_COUNT_def)
    have fields: "cv_source_count st' = cv_source_count st + 1"
      "cv_has_required_source st' = (cv_has_required_source st \<or> es_requirement s = Required)"
      "cv_required_source_unsupported st' = (cv_required_source_unsupported st
         \<or> es_requirement s = Required \<and> es_completion s = SourceUnsupported)"
      "cv_every_required_source_complete st' = (cv_every_required_source_complete st
         \<and> (es_requirement s = Required \<longrightarrow> es_completion s = SourceComplete))"
      "cv_any_source_complete st' = (cv_any_source_complete st \<or> es_completion s = SourceComplete)"
      "cv_any_relevant_evidence st' = (cv_any_relevant_evidence st \<or> 0 < es_admitted_event_count s)"
      using st' True
      by (auto simp: coverage_step_def Let_def RADROOTS_TRADE_EVIDENCE_MAXIMUM_SOURCE_COUNT_def split: if_splits)
    with True Cons.IH [of st'] show ?thesis by (simp add: st' disj_assoc conj_assoc ball_simps)
  next
    case False
    with Cons.prems show ?thesis
      by (simp add: coverage_step_def Let_def RADROOTS_TRADE_EVIDENCE_MAXIMUM_SOURCE_COUNT_def)
  qed
qed

section \<open>Properties\<close>

text \<open>C21: a workflow plan is prepared exactly for a valid mutation that carries its identifier and whose
  private terms, if the proposed candidate requires or references any, have a candidate identifier and
  an encrypted artifact; the plan holds that mutation unchanged, and asks the host to verify exactly
  those private terms before it signs, persists and delivers.\<close>

theorem WorkflowPlan_prepare_exact:
  "WorkflowPlan_prepare m = Inr p \<longleftrightarrow>
    envelope_validate m = Inr () \<and> te_mutation_id m = Some (wp_mutation_id p)
    \<and> wp_mutation p = m \<and> wp_kind p = mutation_kind m
    \<and> (if needs_private_terms (te_body m)
       then planned_terms (te_body m) \<noteq> None \<and> wp_private_terms p = planned_terms (te_body m)
         \<and> wp_required_actions p = [VerifyPrivateTerms, Sign, Persist, Deliver]
       else wp_private_terms p = None \<and> wp_required_actions p = [Sign, Persist, Deliver])"
proof -
  have "envelope_validate m = Inr () \<Longrightarrow> te_schema_version m = RADROOTS_TRADE_SCHEMA_VERSION"
    by (rule ccontr) (simp add: envelope_validate_def)
  then show ?thesis
    by (cases p) (auto simp: WorkflowPlan_prepare_def Let_def result_simps private_terms_plan_Inr)
qed

text \<open>C22: evidence coverage is refused for no source, for more than sixteen and when none is required;
  otherwise it is unsupported when a required source is, satisfied when every required source completed
  and the other prerequisites hold, partial when any source completed or admitted an event, and
  missing else.  A definite outcome is permitted under satisfied coverage only.\<close>

theorem coverage_exact:
  "classify_trade_evidence_coverage_v1 sources prerequisites =
    (let required = filter (\<lambda>s. es_requirement s = Required) sources in
     if sources = [] \<or> 16 < length sources then Inl SourceCountOutOfRange
     else if required = [] then Inl NoRequiredSource
     else Inr (if list_ex (\<lambda>s. es_completion s = SourceUnsupported) required then Unsupported
               else if list_all (\<lambda>s. es_completion s = SourceComplete) required \<and> prerequisites = Satisfied
               then ScopeSatisfied
               else if list_ex (\<lambda>s. es_completion s = SourceComplete \<or> 0 < es_admitted_event_count s) sources
               then Partial else CoverageMissing))
   \<and> (permits coverage OutcomeValid \<longleftrightarrow> coverage = ScopeSatisfied)
   \<and> (permits coverage OutcomeInvalid \<longleftrightarrow> coverage = ScopeSatisfied)"
  by (auto simp: classify_trade_evidence_coverage_v1_def coverage_fold permits_def Let_def list_ex_iff
      list_all_iff filter_empty_conv)

end
