(* ===== verification/Trade_Reducer.thy ===== *)
theory Trade_Reducer
  imports Trade_Event
begin

text \<open>
  The reducer of \<open>crates/trade/src/reducer_impl.rs\<close>: every mutation, private-term and attestation
  record of one trade is folded into a projection. The digest over the canonical JSON of the
  projection (sha2, serde) is the parameter \<open>json_digest\<close>. The outcome \<open>None\<close> is a call that
  does not return: a failed \<open>expect\<close>, or the recursion over parents when it has no end.
\<close>

section \<open>States\<close>

datatype RadrootsTradeNegotiationStateV1 = NegotiationNone | Open | ClosedDeclined | ClosedExpired

datatype RadrootsTradeAgreementStateV1 = AgreementNone | Agreed | Contested | Cancelled

datatype RadrootsTradeEvidenceStateV1 =
  EvidenceComplete | EvidenceMissing | QueryPartial | UnsupportedVersion

datatype RadrootsTradeConflictStateV1 =
    NoConflict
  | ConcurrentCandidates
  | DoubleAcceptanceState
  | DecisionConflictState
  | CancellationConflictState
  | InvalidCausalChainState
  | InventoryAuthorityConflict

datatype RadrootsTradePrivateTermsStateV1 =
  NotRequired | AvailableVerified | PrivateTermsMissing | Undecryptable | CommitmentMismatch

datatype RadrootsTradeAttestationStateV1 =
  AttestationNone | PresentValid | PresentInvalid | Conflicting

datatype RadrootsTradeFulfillmentStateV1 = NotStarted

datatype RadrootsTradePaymentStateV1 = NotTracked

datatype RadrootsTradeAttestationResultV1 = Valid | Invalid

text \<open>The derived orders that the code compares with: the position of the variant.\<close>

primrec conflict_rank :: "RadrootsTradeConflictStateV1 \<Rightarrow> nat" where
  "conflict_rank NoConflict = 0"
| "conflict_rank ConcurrentCandidates = 1"
| "conflict_rank DoubleAcceptanceState = 2"
| "conflict_rank DecisionConflictState = 3"
| "conflict_rank CancellationConflictState = 4"
| "conflict_rank InvalidCausalChainState = 5"
| "conflict_rank InventoryAuthorityConflict = 6"

primrec private_terms_rank :: "RadrootsTradePrivateTermsStateV1 \<Rightarrow> nat" where
  "private_terms_rank NotRequired = 0"
| "private_terms_rank AvailableVerified = 1"
| "private_terms_rank PrivateTermsMissing = 2"
| "private_terms_rank Undecryptable = 3"
| "private_terms_rank CommitmentMismatch = 4"

primrec attestation_rank :: "RadrootsTradeAttestationResultV1 \<Rightarrow> nat" where
  "attestation_rank Valid = 0"
| "attestation_rank Invalid = 1"

lemma conflict_rank_inject: "conflict_rank a = conflict_rank b \<longleftrightarrow> a = b"
  by (cases a; cases b; simp)

lemma private_terms_rank_inject: "private_terms_rank a = private_terms_rank b \<longleftrightarrow> a = b"
  by (cases a; cases b; simp)

lemma attestation_rank_inject: "attestation_rank a = attestation_rank b \<longleftrightarrow> a = b"
  by (cases a; cases b; simp)

instantiation RadrootsTradeConflictStateV1 :: linorder
begin

definition less_eq_RadrootsTradeConflictStateV1 ::
  "RadrootsTradeConflictStateV1 \<Rightarrow> RadrootsTradeConflictStateV1 \<Rightarrow> bool" where
  "less_eq_RadrootsTradeConflictStateV1 a b \<longleftrightarrow> conflict_rank a \<le> conflict_rank b"

definition less_RadrootsTradeConflictStateV1 ::
  "RadrootsTradeConflictStateV1 \<Rightarrow> RadrootsTradeConflictStateV1 \<Rightarrow> bool" where
  "less_RadrootsTradeConflictStateV1 a b \<longleftrightarrow> conflict_rank a < conflict_rank b"

instance
  by standard
    (auto simp: less_eq_RadrootsTradeConflictStateV1_def less_RadrootsTradeConflictStateV1_def
      conflict_rank_inject [symmetric])

end

instantiation RadrootsTradePrivateTermsStateV1 :: linorder
begin

definition less_eq_RadrootsTradePrivateTermsStateV1 ::
  "RadrootsTradePrivateTermsStateV1 \<Rightarrow> RadrootsTradePrivateTermsStateV1 \<Rightarrow> bool" where
  "less_eq_RadrootsTradePrivateTermsStateV1 a b \<longleftrightarrow> private_terms_rank a \<le> private_terms_rank b"

definition less_RadrootsTradePrivateTermsStateV1 ::
  "RadrootsTradePrivateTermsStateV1 \<Rightarrow> RadrootsTradePrivateTermsStateV1 \<Rightarrow> bool" where
  "less_RadrootsTradePrivateTermsStateV1 a b \<longleftrightarrow> private_terms_rank a < private_terms_rank b"

instance
  by standard
    (auto simp: less_eq_RadrootsTradePrivateTermsStateV1_def less_RadrootsTradePrivateTermsStateV1_def
      private_terms_rank_inject [symmetric])

end

section \<open>Records\<close>

record RadrootsTradeMutationRecordV1 =
  mr_transport_event_id :: "EventId option"
  mr_mutation :: TradeMutationEnvelopeV1

record RadrootsTradePrivateTermsEvidenceV1 =
  pe_candidate_id :: CandidateId
  pe_state :: RadrootsTradePrivateTermsStateV1

record RadrootsTradeAttestationRecordV1 =
  at_event_id :: EventId
  at_claim_mutation_id :: MutationId
  at_result :: RadrootsTradeAttestationResultV1

record RadrootsTradeReductionInputV1 =
  ri_trade_id :: TradeId
  ri_mutations :: "RadrootsTradeMutationRecordV1 list"
  ri_private_terms :: "RadrootsTradePrivateTermsEvidenceV1 list"
  ri_attestations :: "RadrootsTradeAttestationRecordV1 list"
  ri_evidence_state :: RadrootsTradeEvidenceStateV1
  ri_observed_at_unix_s :: "nat option"

record RadrootsTradeAgreementClaimV1 =
  gc_claim_mutation_id :: MutationId
  gc_proposal_mutation_id :: MutationId
  gc_candidate_id :: CandidateId
  gc_candidate_author_pubkey :: PublicKey
  gc_accepted_by_pubkey :: PublicKey
  gc_reservation_commitment :: string

record CandidateRecord =
  cd_proposal_mutation_id :: MutationId
  cd_author_pubkey :: PublicKey
  cd_candidate :: TradeCandidateTermsV1

record CancellationRecord =
  cl_mutation_id :: MutationId
  cl_parent_mutation_ids :: "MutationId list"
  cl_target_candidate_id :: "CandidateId option"
  cl_target_claim_mutation_id :: "MutationId option"

section \<open>Issues\<close>

datatype RadrootsTradeReducerIssueV1 =
    MissingRootProposal
  | MultipleRootProposals
  | MissingMutationId
  | TradeIdentityMismatch MutationId
  | UnsupportedSchema MutationId nat
  | InvalidMutation "MutationId option" string
  | MissingParent MutationId MutationId
  | MissingProposal MutationId MutationId
  | CandidateIdMismatch MutationId MutationId
  | DecisionAuthorMismatch MutationId
  | DecisionParentMissing MutationId MutationId
  | MissingSellerReservation MutationId
  | ReservationCandidateMismatch MutationId
  | ReservationAuthorityMismatch MutationId
  | ReservationLineMismatch MutationId
  | DecisionConflict MutationId
  | DoubleAcceptance MutationId
  | CancellationConflict MutationId
  | InvalidCausalChain MutationId
  | PrivateTermsUnavailable CandidateId
  | ProjectionDigestUnavailable string

text \<open>
  The derived order: the position of the variant, then its fields from left to right. Every field
  is written as a list of numbers whose lexicographic order is the field's own.
\<close>

definition id_digits :: "'k id32 \<Rightarrow> nat list" where
  "id_digits x = map unat (id_bytes x)"

definition text_digits :: "string \<Rightarrow> nat list" where
  "text_digits s = map byte_of s"

primrec issue_key :: "RadrootsTradeReducerIssueV1 \<Rightarrow> nat \<times> nat list list" where
  "issue_key MissingRootProposal = (0, [])"
| "issue_key MultipleRootProposals = (1, [])"
| "issue_key MissingMutationId = (2, [])"
| "issue_key (TradeIdentityMismatch m) = (3, [id_digits m])"
| "issue_key (UnsupportedSchema m v) = (4, [id_digits m, [v]])"
| "issue_key (InvalidMutation m r) =
     (5, [case m of None \<Rightarrow> [] | Some i \<Rightarrow> 1 # id_digits i, text_digits r])"
| "issue_key (MissingParent m p) = (6, [id_digits m, id_digits p])"
| "issue_key (MissingProposal d p) = (7, [id_digits d, id_digits p])"
| "issue_key (CandidateIdMismatch d p) = (8, [id_digits d, id_digits p])"
| "issue_key (DecisionAuthorMismatch d) = (9, [id_digits d])"
| "issue_key (DecisionParentMissing d p) = (10, [id_digits d, id_digits p])"
| "issue_key (MissingSellerReservation d) = (11, [id_digits d])"
| "issue_key (ReservationCandidateMismatch d) = (12, [id_digits d])"
| "issue_key (ReservationAuthorityMismatch d) = (13, [id_digits d])"
| "issue_key (ReservationLineMismatch d) = (14, [id_digits d])"
| "issue_key (DecisionConflict p) = (15, [id_digits p])"
| "issue_key (DoubleAcceptance p) = (16, [id_digits p])"
| "issue_key (CancellationConflict c) = (17, [id_digits c])"
| "issue_key (InvalidCausalChain m) = (18, [id_digits m])"
| "issue_key (PrivateTermsUnavailable c) = (19, [id_digits c])"
| "issue_key (ProjectionDigestUnavailable r) = (20, [text_digits r])"

lemma id_digits_inject: "id_digits x = id_digits y \<longleftrightarrow> x = y"
  using inj_map_eq_map [of "unat :: 8 word \<Rightarrow> nat"]
  by (cases x; cases y) (auto simp: id_digits_def intro: injI unsigned_word_eqI)

lemma text_digits_inject: "text_digits s = text_digits t \<longleftrightarrow> s = t"
  by (auto simp: text_digits_def byte_of_def inj_map_eq_map inj_def)

lemma issue_key_inject: "issue_key a = issue_key b \<longleftrightarrow> a = b"
  by (cases a; cases b; simp add: id_digits_inject text_digits_inject split: option.split)

instantiation RadrootsTradeReducerIssueV1 :: linorder
begin

definition less_eq_RadrootsTradeReducerIssueV1 ::
  "RadrootsTradeReducerIssueV1 \<Rightarrow> RadrootsTradeReducerIssueV1 \<Rightarrow> bool" where
  "less_eq_RadrootsTradeReducerIssueV1 a b \<longleftrightarrow> issue_key a \<le> issue_key b"

definition less_RadrootsTradeReducerIssueV1 ::
  "RadrootsTradeReducerIssueV1 \<Rightarrow> RadrootsTradeReducerIssueV1 \<Rightarrow> bool" where
  "less_RadrootsTradeReducerIssueV1 a b \<longleftrightarrow> issue_key a < issue_key b"

instance
  by standard
    (auto simp: less_eq_RadrootsTradeReducerIssueV1_def less_RadrootsTradeReducerIssueV1_def
      issue_key_inject [symmetric])

end

section \<open>Projections\<close>

record RadrootsTradeProjectionV1 =
  pj_reducer_contract_id :: string
  pj_reducer_version :: nat
  pj_trade_id :: TradeId
  pj_root_mutation_id :: "MutationId option"
  pj_buyer_pubkey :: "PublicKey option"
  pj_seller_pubkey :: "PublicKey option"
  pj_farm_id :: "DTag option"
  pj_negotiation_state :: RadrootsTradeNegotiationStateV1
  pj_agreement_state :: RadrootsTradeAgreementStateV1
  pj_evidence_state :: RadrootsTradeEvidenceStateV1
  pj_conflict_state :: RadrootsTradeConflictStateV1
  pj_private_terms_state :: RadrootsTradePrivateTermsStateV1
  pj_attestation_state :: RadrootsTradeAttestationStateV1
  pj_fulfillment_state :: RadrootsTradeFulfillmentStateV1
  pj_payment_state :: RadrootsTradePaymentStateV1
  pj_candidate_heads :: "MutationId list"
  pj_agreement_claims :: "RadrootsTradeAgreementClaimV1 list"
  pj_active_agreement_claim_ids :: "MutationId list"
  pj_contested_claim_ids :: "MutationId list"
  pj_cancelled_claim_ids :: "MutationId list"
  pj_declined_candidate_ids :: "CandidateId list"
  pj_missing_parent_ids :: "MutationId list"
  pj_missing_proposal_ids :: "MutationId list"
  pj_unsupported_mutation_ids :: "MutationId list"
  pj_issues :: "RadrootsTradeReducerIssueV1 list"
  pj_attestations :: "RadrootsTradeAttestationRecordV1 list"
  pj_projection_digest :: string

definition Projection_empty :: "TradeId \<Rightarrow> RadrootsTradeProjectionV1" where
  "Projection_empty trade_id =
     \<lparr>pj_reducer_contract_id = ''radroots.trade.reducer.v1'', pj_reducer_version = 1,
      pj_trade_id = trade_id, pj_root_mutation_id = None, pj_buyer_pubkey = None,
      pj_seller_pubkey = None, pj_farm_id = None, pj_negotiation_state = NegotiationNone,
      pj_agreement_state = AgreementNone, pj_evidence_state = EvidenceMissing,
      pj_conflict_state = NoConflict, pj_private_terms_state = NotRequired,
      pj_attestation_state = AttestationNone, pj_fulfillment_state = NotStarted,
      pj_payment_state = NotTracked, pj_candidate_heads = [], pj_agreement_claims = [],
      pj_active_agreement_claim_ids = [], pj_contested_claim_ids = [], pj_cancelled_claim_ids = [],
      pj_declined_candidate_ids = [], pj_missing_parent_ids = [], pj_missing_proposal_ids = [],
      pj_unsupported_mutation_ids = [], pj_issues = [], pj_attestations = [],
      pj_projection_digest = []\<rparr>"

text \<open>\<open>sort\<close> followed by \<open>dedup\<close>, and \<open>issues.push\<close>.\<close>

definition sort_dedup :: "'a::linorder list \<Rightarrow> 'a list" where
  "sort_dedup xs = remdups_adj (sort xs)"

definition push_issue ::
  "RadrootsTradeReducerIssueV1 \<Rightarrow> RadrootsTradeProjectionV1 \<Rightarrow> RadrootsTradeProjectionV1" where
  "push_issue issue p = p\<lparr>pj_issues := pj_issues p @ [issue]\<rparr>"

definition set_conflict ::
  "RadrootsTradeConflictStateV1 \<Rightarrow> RadrootsTradeProjectionV1 \<Rightarrow> RadrootsTradeProjectionV1" where
  "set_conflict candidate p =
     (if pj_conflict_state p = NoConflict \<or> pj_conflict_state p < candidate
      then p\<lparr>pj_conflict_state := candidate\<rparr> else p)"

text \<open>The digest is computed from the projection with its digest field cleared.\<close>

definition projection_digest ::
  "(RadrootsTradeProjectionV1 \<Rightarrow> string + string) \<Rightarrow> RadrootsTradeProjectionV1 \<Rightarrow> string + string" where
  "projection_digest json_digest p = json_digest (p\<lparr>pj_projection_digest := []\<rparr>)"

text \<open>The build without the json feature has no digest.\<close>

definition no_json_digest :: "RadrootsTradeProjectionV1 \<Rightarrow> string + string" where
  "no_json_digest p = Inl ''projection digest requires the json feature''"

definition attestation_key :: "RadrootsTradeAttestationRecordV1 \<Rightarrow> EventId \<times> MutationId \<times> nat" where
  "attestation_key a = (at_event_id a, at_claim_mutation_id a, attestation_rank (at_result a))"

definition sort_fields :: "RadrootsTradeProjectionV1 \<Rightarrow> RadrootsTradeProjectionV1" where
  "sort_fields p =
     p\<lparr>pj_candidate_heads := sort_dedup (pj_candidate_heads p),
       pj_active_agreement_claim_ids := sort_dedup (pj_active_agreement_claim_ids p),
       pj_contested_claim_ids := sort_dedup (pj_contested_claim_ids p),
       pj_cancelled_claim_ids := sort_dedup (pj_cancelled_claim_ids p),
       pj_declined_candidate_ids := sort_dedup (pj_declined_candidate_ids p),
       pj_missing_parent_ids := sort_dedup (pj_missing_parent_ids p),
       pj_missing_proposal_ids := sort_dedup (pj_missing_proposal_ids p),
       pj_unsupported_mutation_ids := sort_dedup (pj_unsupported_mutation_ids p),
       pj_agreement_claims := sort_key gc_claim_mutation_id (pj_agreement_claims p),
       pj_issues := sort_dedup (pj_issues p),
       pj_attestations := remdups_adj (sort_key attestation_key (pj_attestations p))\<rparr>"

definition finish ::
  "(RadrootsTradeProjectionV1 \<Rightarrow> string + string) \<Rightarrow> RadrootsTradeProjectionV1 \<Rightarrow> RadrootsTradeProjectionV1" where
  "finish json_digest p =
     (let p = sort_fields p in
      case projection_digest json_digest p of
        Inr digest \<Rightarrow> p\<lparr>pj_projection_digest := digest\<rparr>
      | Inl reason \<Rightarrow>
          let p = push_issue (ProjectionDigestUnavailable reason) (p\<lparr>pj_projection_digest := []\<rparr>)
          in p\<lparr>pj_issues := sort_dedup (pj_issues p)\<rparr>)"

section \<open>Collecting the mutations\<close>

type_synonym mutation_map = "(MutationId, TradeMutationEnvelopeV1) btree_map"
type_synonym candidate_map = "(MutationId, CandidateRecord) btree_map"
type_synonym claim_map = "(MutationId, RadrootsTradeAgreementClaimV1) btree_map"

text \<open>One round of the first loop; an identifier that is already present keeps its first mutation.\<close>

definition collect_step ::
  "TradeId \<Rightarrow> RadrootsTradeMutationRecordV1 \<Rightarrow> RadrootsTradeProjectionV1 \<times> mutation_map
    \<Rightarrow> RadrootsTradeProjectionV1 \<times> mutation_map" where
  "collect_step trade_id r st =
     (let (p, mutations) = st; m = mr_mutation r in
      case te_mutation_id m of
        None \<Rightarrow> (push_issue MissingMutationId p, mutations)
      | Some mutation_id \<Rightarrow>
          if te_schema_version m \<noteq> RADROOTS_TRADE_SCHEMA_VERSION
          then (push_issue (UnsupportedSchema mutation_id (te_schema_version m))
                  (p\<lparr>pj_unsupported_mutation_ids := pj_unsupported_mutation_ids p @ [mutation_id]\<rparr>), mutations)
          else (case envelope_validate m of
              Inl error \<Rightarrow>
                (push_issue (InvalidMutation (Some mutation_id) (TradeProtocolError_to_string error)) p, mutations)
            | Inr _ \<Rightarrow>
                if te_trade_id m \<noteq> trade_id
                then (push_issue (TradeIdentityMismatch mutation_id) p, mutations)
                else (p, case bt_get mutations mutation_id of
                           Some _ \<Rightarrow> mutations | None \<Rightarrow> bt_insert mutation_id m mutations)))"

section \<open>Indexing\<close>

record index_state =
  ix_root_proposals :: "MutationId list"
  ix_candidates :: candidate_map
  ix_cancellations :: "CancellationRecord list"
  ix_referenced_parents :: "MutationId list"
  ix_projection :: RadrootsTradeProjectionV1

definition parent_step ::
  "mutation_map \<Rightarrow> MutationId \<Rightarrow> MutationId \<Rightarrow> index_state \<Rightarrow> index_state" where
  "parent_step mutations mutation_id parent ix =
     (let ix = ix\<lparr>ix_referenced_parents := bs_insert parent (ix_referenced_parents ix)\<rparr> in
      if bt_get mutations parent = None then
        let p = ix_projection ix in
        ix\<lparr>ix_projection := push_issue (MissingParent mutation_id parent)
             (p\<lparr>pj_missing_parent_ids := pj_missing_parent_ids p @ [parent]\<rparr>)\<rparr>
      else ix)"

definition index_body ::
  "MutationId \<Rightarrow> TradeMutationEnvelopeV1 \<Rightarrow> index_state \<Rightarrow> index_state" where
  "index_body mutation_id m ix =
     (let insert_candidate = (\<lambda>candidate.
        ix\<lparr>ix_candidates := bt_insert mutation_id
             \<lparr>cd_proposal_mutation_id = mutation_id, cd_author_pubkey = te_author_pubkey m,
              cd_candidate = candidate\<rparr> (ix_candidates ix)\<rparr>)
      in case te_body m of
           Proposal candidate \<Rightarrow> insert_candidate candidate
         | RevisionProposal candidate \<Rightarrow> insert_candidate candidate
         | Decision _ _ _ \<Rightarrow> ix
         | RevisionDecision _ _ _ \<Rightarrow> ix
         | Cancellation target_candidate_id target_claim_mutation_id _ \<Rightarrow>
             ix\<lparr>ix_cancellations := ix_cancellations ix @
                  [\<lparr>cl_mutation_id = mutation_id, cl_parent_mutation_ids = te_parent_mutation_ids m,
                    cl_target_candidate_id = target_candidate_id,
                    cl_target_claim_mutation_id = target_claim_mutation_id\<rparr>]\<rparr>)"

definition index_step ::
  "mutation_map \<Rightarrow> MutationId \<times> TradeMutationEnvelopeV1 \<Rightarrow> index_state \<Rightarrow> index_state" where
  "index_step mutations entry ix =
     (let (mutation_id, m) = entry;
          ix = (case te_body m of
                  Proposal _ \<Rightarrow> ix\<lparr>ix_root_proposals := ix_root_proposals ix @ [mutation_id]\<rparr>
                | _ \<Rightarrow> ix);
          ix = fold (parent_step mutations mutation_id) (te_parent_mutation_ids m) ix
      in index_body mutation_id m ix)"

section \<open>Decisions\<close>

definition candidate_record_author_counterparty ::
  "CandidateRecord \<Rightarrow> TradeMutationEnvelopeV1 \<Rightarrow> PublicKey" where
  "candidate_record_author_counterparty c m =
     (if cd_author_pubkey c = te_buyer_pubkey m then te_seller_pubkey m else te_buyer_pubkey m)"

definition line_differs :: "TradeCandidateLineV1 \<times> SellerReservationLineV1 \<Rightarrow> bool" where
  "line_differs lc \<longleftrightarrow>
     (case lc of (l, c) \<Rightarrow>
        tl_line_id l \<noteq> sv_line_id c \<or> tl_bin_id l \<noteq> sv_bin_id c
        \<or> tl_quantity_mantissa l \<noteq> sv_quantity_mantissa c \<or> tl_quantity_scale l \<noteq> sv_quantity_scale c
        \<or> tl_unit_code l \<noteq> sv_unit_code c)"

definition validate_reservation ::
  "MutationId \<Rightarrow> CandidateId \<Rightarrow> TradeCandidateTermsV1 \<Rightarrow> SellerReservationAssertionV1
    \<Rightarrow> RadrootsTradeProjectionV1 \<Rightarrow> bool \<times> RadrootsTradeProjectionV1" where
  "validate_reservation decision_id candidate_id candidate reservation p =
     (let (valid, p) =
        (if sr_candidate_id reservation \<noteq> candidate_id
         then (False, push_issue (ReservationCandidateMismatch decision_id) p) else (True, p));
          (valid, p) =
        (if sr_inventory_authority_id reservation \<noteq> tc_seller_pubkey candidate
         then (False, set_conflict InventoryAuthorityConflict
                 (push_issue (ReservationAuthorityMismatch decision_id) p)) else (valid, p))
      in if length (sr_commitments reservation) \<noteq> length (tc_lines candidate)
         then (False, push_issue (ReservationLineMismatch decision_id) p)
         else if list_ex line_differs (zip (tc_lines candidate) (sr_commitments reservation))
         then (False, push_issue (ReservationLineMismatch decision_id) p)
         else (valid, p))"

definition apply_decision ::
  "MutationId \<Rightarrow> TradeMutationEnvelopeV1 \<Rightarrow> MutationId \<Rightarrow> CandidateId \<Rightarrow> TradeDecisionV1 \<Rightarrow> candidate_map
    \<Rightarrow> claim_map \<times> RadrootsTradeProjectionV1 \<Rightarrow> claim_map \<times> RadrootsTradeProjectionV1" where
  "apply_decision mutation_id m proposal_id candidate_id decision candidates st =
     (let (claims, p) = st in
      case bt_get candidates proposal_id of
        None \<Rightarrow>
          (claims, push_issue (MissingProposal mutation_id proposal_id)
             (p\<lparr>pj_missing_proposal_ids := pj_missing_proposal_ids p @ [proposal_id]\<rparr>))
      | Some c \<Rightarrow>
          if tc_candidate_id (cd_candidate c) \<noteq> Some candidate_id
          then (claims, set_conflict DecisionConflictState
                  (push_issue (CandidateIdMismatch mutation_id proposal_id) p))
          else if te_author_pubkey m \<noteq> candidate_record_author_counterparty c m
          then (claims, push_issue (DecisionAuthorMismatch mutation_id) p)
          else
            let p = (if proposal_id \<notin> set (te_parent_mutation_ids m)
                     then set_conflict InvalidCausalChainState
                       (push_issue (DecisionParentMissing mutation_id proposal_id) p) else p)
            in case decision of
                 Accepted None \<Rightarrow> (claims, push_issue (MissingSellerReservation mutation_id) p)
               | Accepted (Some reservation) \<Rightarrow>
                   let (valid, p) = validate_reservation mutation_id candidate_id (cd_candidate c) reservation p
                   in (if valid
                       then bt_insert mutation_id
                         \<lparr>gc_claim_mutation_id = mutation_id,
                          gc_proposal_mutation_id = cd_proposal_mutation_id c,
                          gc_candidate_id = candidate_id,
                          gc_candidate_author_pubkey = cd_author_pubkey c,
                          gc_accepted_by_pubkey = te_author_pubkey m,
                          gc_reservation_commitment = sr_assertion_commitment reservation\<rparr> claims
                       else claims, p)
               | Declined _ \<Rightarrow> (claims, p))"

record decision_state =
  ds_decisions :: "(MutationId, MutationId list) btree_map"
  ds_claims :: claim_map
  ds_projection :: RadrootsTradeProjectionV1

fun body_decision :: "TradeMutationBodyV1 \<Rightarrow> (MutationId \<times> CandidateId \<times> TradeDecisionV1) option" where
  "body_decision (Decision proposal_id candidate_id decision) = Some (proposal_id, candidate_id, decision)"
| "body_decision (RevisionDecision proposal_id candidate_id decision) = Some (proposal_id, candidate_id, decision)"
| "body_decision _ = None"

definition decision_step ::
  "candidate_map \<Rightarrow> MutationId \<times> TradeMutationEnvelopeV1 \<Rightarrow> decision_state \<Rightarrow> decision_state" where
  "decision_step candidates entry ds =
     (let (mutation_id, m) = entry in
      case body_decision (te_body m) of
        Some (proposal_id, candidate_id, decision) \<Rightarrow>
          let listed = (case bt_get (ds_decisions ds) proposal_id of Some ids \<Rightarrow> ids | None \<Rightarrow> []);
              (claims, p) = apply_decision mutation_id m proposal_id candidate_id decision candidates
                (ds_claims ds, ds_projection ds)
          in \<lparr>ds_decisions = bt_insert proposal_id (listed @ [mutation_id]) (ds_decisions ds),
              ds_claims = claims, ds_projection = p\<rparr>
      | None \<Rightarrow> ds)"

section \<open>The root and the decided proposals\<close>

definition select_root ::
  "mutation_map \<Rightarrow> MutationId list \<Rightarrow> RadrootsTradeProjectionV1 \<Rightarrow> RadrootsTradeProjectionV1 option" where
  "select_root mutations root_proposals p =
     (case root_proposals of
        [] \<Rightarrow> Some (push_issue MissingRootProposal p)
      | [root_id] \<Rightarrow>
          (case bt_get mutations root_id of
             None \<Rightarrow> None
           | Some proposal \<Rightarrow> Some (p\<lparr>pj_root_mutation_id := Some root_id,
               pj_buyer_pubkey := Some (te_buyer_pubkey proposal),
               pj_seller_pubkey := Some (te_seller_pubkey proposal),
               pj_farm_id := Some (te_farm_id proposal)\<rparr>))
      | _ \<Rightarrow> Some (set_conflict ConcurrentCandidates (push_issue MultipleRootProposals p)))"

definition is_acceptance :: "TradeMutationBodyV1 \<Rightarrow> bool" where
  "is_acceptance b = (case body_decision b of Some (_, _, Accepted _) \<Rightarrow> True | _ \<Rightarrow> False)"

definition proposal_step ::
  "mutation_map \<Rightarrow> MutationId \<times> MutationId list \<Rightarrow> RadrootsTradeProjectionV1 \<Rightarrow> RadrootsTradeProjectionV1" where
  "proposal_step mutations entry p =
     (let (proposal_id, decision_ids) = entry; unique = bs_collect decision_ids in
      if 1 < length unique then
        let accept_count = length (filter (\<lambda>d. case bt_get mutations d of
                Some m \<Rightarrow> is_acceptance (te_body m) | None \<Rightarrow> False) unique);
            p = (if 1 < accept_count
                 then set_conflict DoubleAcceptanceState (push_issue (DoubleAcceptance proposal_id) p) else p)
        in if 0 < accept_count \<and> accept_count < length unique
           then set_conflict DecisionConflictState (push_issue (DecisionConflict proposal_id) p) else p
      else p)"

definition declined_candidate_ids :: "mutation_map \<Rightarrow> CandidateId list" where
  "declined_candidate_ids mutations =
     List.map_filter (\<lambda>(_, m). case body_decision (te_body m) of
       Some (_, candidate_id, Declined _) \<Rightarrow> Some candidate_id | _ \<Rightarrow> None) mutations"

section \<open>Ancestors\<close>

type_synonym ancestor_memo = "(MutationId, MutationId list) btree_map"

text \<open>
  The loop of \<open>ancestors_of\<close> over the parents of a mutation, with the recursive call written out:
  a parent is answered from the memo, or by running the loop over its own parents. Nothing bounds
  the recursion, so the loop is a partial function.
\<close>

partial_function (option) ancestors_loop ::
  "mutation_map \<Rightarrow> MutationId list \<Rightarrow> MutationId list \<Rightarrow> ancestor_memo
    \<Rightarrow> (MutationId list \<times> ancestor_memo) option" where
  "ancestors_loop mutations parents ancestors memo =
     (case parents of
        [] \<Rightarrow> Some (ancestors, memo)
      | parent # rest \<Rightarrow>
          Option.bind
            (case bt_get memo parent of
               Some cached \<Rightarrow> Some (cached, memo)
             | None \<Rightarrow>
                 Option.bind
                   (case bt_get mutations parent of
                      Some m \<Rightarrow> ancestors_loop mutations (te_parent_mutation_ids m) [] memo
                    | None \<Rightarrow> Some ([], memo))
                   (\<lambda>(found, memo). Some (found, bt_insert parent found memo)))
            (\<lambda>(found, memo).
               ancestors_loop mutations rest (fold bs_insert found (bs_insert parent ancestors)) memo))"

declare ancestors_loop.simps [code]

definition ancestors_of ::
  "MutationId \<Rightarrow> mutation_map \<Rightarrow> ancestor_memo \<Rightarrow> (MutationId list \<times> ancestor_memo) option" where
  "ancestors_of mutation_id mutations memo =
     (case bt_get memo mutation_id of
        Some cached \<Rightarrow> Some (cached, memo)
      | None \<Rightarrow>
          Option.bind
            (case bt_get mutations mutation_id of
               Some m \<Rightarrow> ancestors_loop mutations (te_parent_mutation_ids m) [] memo
             | None \<Rightarrow> Some ([], memo))
            (\<lambda>(ancestors, memo). Some (ancestors, bt_insert mutation_id ancestors memo)))"

fun dominated ::
  "mutation_map \<Rightarrow> MutationId \<Rightarrow> MutationId list \<Rightarrow> ancestor_memo \<Rightarrow> (bool \<times> ancestor_memo) option" where
  "dominated mutations claim_id [] memo = Some (False, memo)"
| "dominated mutations claim_id (other # others) memo =
     (if other \<noteq> claim_id then
        Option.bind (ancestors_of other mutations memo) (\<lambda>(ancestors, memo).
          if claim_id \<in> set ancestors then Some (True, memo)
          else dominated mutations claim_id others memo)
      else dominated mutations claim_id others memo)"

fun non_dominated_loop ::
  "mutation_map \<Rightarrow> MutationId list \<Rightarrow> MutationId list \<Rightarrow> ancestor_memo \<Rightarrow> MutationId list option" where
  "non_dominated_loop mutations keys [] memo = Some []"
| "non_dominated_loop mutations keys (claim_id # rest) memo =
     Option.bind (dominated mutations claim_id keys memo) (\<lambda>(below, memo).
       map_option (\<lambda>ids. if below then ids else claim_id # ids)
         (non_dominated_loop mutations keys rest memo))"

definition non_dominated_claim_ids :: "claim_map \<Rightarrow> mutation_map \<Rightarrow> MutationId list option" where
  "non_dominated_claim_ids claims mutations =
     non_dominated_loop mutations (map fst claims) (map fst claims) []"

section \<open>Agreement\<close>

definition cancellation_without_claim :: "CancellationRecord list \<Rightarrow> candidate_map \<Rightarrow> bool" where
  "cancellation_without_claim cancellations candidates \<longleftrightarrow>
     list_ex (\<lambda>c. case cl_target_candidate_id c of
         None \<Rightarrow> False
       | Some candidate_id \<Rightarrow>
           list_ex (\<lambda>(_, r). tc_candidate_id (cd_candidate r) = Some candidate_id
             \<and> cx_buyer_pre_agreement (tc_cancellation (cd_candidate r))) candidates) cancellations"

text \<open>\<open>first\<close> fails on an empty list.\<close>

definition compatible_claims :: "RadrootsTradeAgreementClaimV1 list \<Rightarrow> bool option" where
  "compatible_claims claims =
     (case claims of
        [] \<Rightarrow> None
      | first # _ \<Rightarrow>
          Some (list_all (\<lambda>c. gc_candidate_id c = gc_candidate_id first
            \<and> gc_reservation_commitment c = gc_reservation_commitment first) claims))"

definition cancellation_step ::
  "claim_map \<Rightarrow> CancellationRecord \<Rightarrow> RadrootsTradeProjectionV1 \<Rightarrow> RadrootsTradeProjectionV1" where
  "cancellation_step claims c p =
     (case cl_target_claim_mutation_id c of
        None \<Rightarrow> p
      | Some target_claim_id \<Rightarrow>
          if bt_get claims target_claim_id = None then p
          else if target_claim_id \<in> set (cl_parent_mutation_ids c) then
            let p = p\<lparr>pj_cancelled_claim_ids := pj_cancelled_claim_ids p @ [target_claim_id]\<rparr>
            in if pj_active_agreement_claim_ids p = [target_claim_id]
               then p\<lparr>pj_agreement_state := Cancelled\<rparr> else p
          else set_conflict CancellationConflictState
            ((push_issue (CancellationConflict (cl_mutation_id c)) p)\<lparr>pj_agreement_state := Contested\<rparr>))"

definition judge_claims ::
  "claim_map \<Rightarrow> MutationId list \<Rightarrow> RadrootsTradeProjectionV1 \<Rightarrow> RadrootsTradeProjectionV1 option" where
  "judge_claims claims active_claim_ids p =
     Option.bind (compatible_claims (List.map_filter (bt_get claims) active_claim_ids)) (\<lambda>compatible.
       let p = p\<lparr>pj_active_agreement_claim_ids := active_claim_ids\<rparr> in
       if compatible then Some (p\<lparr>pj_agreement_state := Agreed\<rparr>)
       else
         let p = p\<lparr>pj_agreement_state := Contested,
                   pj_contested_claim_ids := pj_active_agreement_claim_ids p\<rparr>
         in Some (if pj_conflict_state p = NoConflict then set_conflict DecisionConflictState p else p))"

definition apply_agreement_state ::
  "claim_map \<Rightarrow> mutation_map \<Rightarrow> candidate_map \<Rightarrow> CancellationRecord list
    \<Rightarrow> RadrootsTradeProjectionV1 \<Rightarrow> RadrootsTradeProjectionV1 option" where
  "apply_agreement_state claims mutations candidates cancellations p =
     (if claims = [] then
        Some (if cancellation_without_claim cancellations candidates
              then p\<lparr>pj_agreement_state := Cancelled\<rparr> else p)
      else
        Option.bind (non_dominated_claim_ids claims mutations) (\<lambda>active_claim_ids.
        Option.bind (judge_claims claims active_claim_ids p) (\<lambda>p.
          Some (fold (cancellation_step claims) cancellations p))))"

section \<open>The remaining states\<close>

definition apply_negotiation_state ::
  "candidate_map \<Rightarrow> claim_map \<Rightarrow> nat option \<Rightarrow> RadrootsTradeProjectionV1 \<Rightarrow> RadrootsTradeProjectionV1" where
  "apply_negotiation_state candidates claims observed_at_unix_s p =
     p\<lparr>pj_negotiation_state :=
       (if candidates = [] then NegotiationNone
        else if claims = [] \<and> (case observed_at_unix_s of
            None \<Rightarrow> False
          | Some observed_at \<Rightarrow>
              list_all (\<lambda>(_, c). tc_proposal_expires_at_unix_s (cd_candidate c) \<le> observed_at) candidates)
        then ClosedExpired
        else if claims = [] \<and> pj_declined_candidate_ids p \<noteq> [] then ClosedDeclined
        else Open)\<rparr>"

definition private_terms_step ::
  "RadrootsTradePrivateTermsEvidenceV1 \<Rightarrow> (CandidateId, RadrootsTradePrivateTermsStateV1) btree_map
    \<Rightarrow> (CandidateId, RadrootsTradePrivateTermsStateV1) btree_map" where
  "private_terms_step r states =
     bt_insert (pe_candidate_id r)
       (case bt_get states (pe_candidate_id r) of
          Some state \<Rightarrow> max state (pe_state r) | None \<Rightarrow> pe_state r) states"

fun required_states ::
  "candidate_map \<Rightarrow> (CandidateId, RadrootsTradePrivateTermsStateV1) btree_map
    \<Rightarrow> RadrootsTradeAgreementClaimV1 list \<Rightarrow> RadrootsTradePrivateTermsStateV1 list option" where
  "required_states candidates states [] = Some []"
| "required_states candidates states (claim # claims) =
     (case bt_get candidates (gc_proposal_mutation_id claim) of
        None \<Rightarrow> None
      | Some c \<Rightarrow>
          map_option (\<lambda>rest.
            if tc_private_terms (cd_candidate c) \<noteq> None
               \<or> fp_requires_private_terms (tc_fulfillment (cd_candidate c))
            then (case bt_get states (gc_candidate_id claim) of
                    Some state \<Rightarrow> state | None \<Rightarrow> PrivateTermsMissing) # rest
            else rest) (required_states candidates states claims))"

definition reduce_private_terms_state ::
  "RadrootsTradeProjectionV1 \<Rightarrow> candidate_map \<Rightarrow> RadrootsTradePrivateTermsEvidenceV1 list
    \<Rightarrow> RadrootsTradePrivateTermsStateV1 option" where
  "reduce_private_terms_state p candidates private_terms =
     (let states = fold private_terms_step private_terms [] in
      map_option (\<lambda>required.
        if required = [] then NotRequired
        else if CommitmentMismatch \<in> set required then CommitmentMismatch
        else if Undecryptable \<in> set required then Undecryptable
        else if PrivateTermsMissing \<in> set required then PrivateTermsMissing
        else AvailableVerified) (required_states candidates states (pj_agreement_claims p)))"

fun push_unavailable ::
  "claim_map \<Rightarrow> MutationId list \<Rightarrow> RadrootsTradeProjectionV1 \<Rightarrow> RadrootsTradeProjectionV1 option" where
  "push_unavailable claims [] p = Some p"
| "push_unavailable claims (claim_id # rest) p =
     (case bt_get claims claim_id of
        None \<Rightarrow> None
      | Some claim \<Rightarrow>
          push_unavailable claims rest (push_issue (PrivateTermsUnavailable (gc_candidate_id claim)) p))"

definition reduce_attestation_state ::
  "RadrootsTradeAttestationRecordV1 list \<Rightarrow> RadrootsTradeAttestationStateV1" where
  "reduce_attestation_state attestations =
     (case (list_ex (\<lambda>a. at_result a = Valid) attestations, list_ex (\<lambda>a. at_result a = Invalid) attestations) of
        (False, False) \<Rightarrow> AttestationNone
      | (True, False) \<Rightarrow> PresentValid
      | (False, True) \<Rightarrow> PresentInvalid
      | (True, True) \<Rightarrow> Conflicting)"

definition reduce_evidence_state ::
  "RadrootsTradeProjectionV1 \<Rightarrow> RadrootsTradeEvidenceStateV1 \<Rightarrow> RadrootsTradeEvidenceStateV1" where
  "reduce_evidence_state p requested_state =
     (if pj_unsupported_mutation_ids p \<noteq> [] then UnsupportedVersion
      else if pj_missing_parent_ids p \<noteq> [] \<or> pj_missing_proposal_ids p \<noteq> []
              \<or> pj_root_mutation_id p = None
      then EvidenceMissing
      else requested_state)"

section \<open>The reduction\<close>

text \<open>The body of \<open>reduce_trade_records\<close> in the order of the source, in three parts.\<close>

definition decide_stage ::
  "mutation_map \<Rightarrow> RadrootsTradeProjectionV1
    \<Rightarrow> (candidate_map \<times> CancellationRecord list \<times> claim_map \<times> RadrootsTradeProjectionV1) option" where
  "decide_stage mutations p =
     (let ix = fold (index_step mutations) mutations
            \<lparr>ix_root_proposals = [], ix_candidates = [], ix_cancellations = [],
             ix_referenced_parents = [], ix_projection = p\<rparr>;
          candidates = ix_candidates ix;
          ds = fold (decision_step candidates) mutations
            \<lparr>ds_decisions = [], ds_claims = [], ds_projection = ix_projection ix\<rparr>
      in Option.bind (select_root mutations (ix_root_proposals ix) (ds_projection ds)) (\<lambda>p.
         let p = fold (proposal_step mutations) (ds_decisions ds) p;
             p = p\<lparr>pj_candidate_heads := filter (\<lambda>m. m \<notin> set (ix_referenced_parents ix)) (map fst mutations),
                   pj_declined_candidate_ids := declined_candidate_ids mutations,
                   pj_agreement_claims := map snd (ds_claims ds)\<rparr>
         in Some (candidates, ix_cancellations ix, ds_claims ds, p)))"

definition private_terms_stage ::
  "candidate_map \<Rightarrow> claim_map \<Rightarrow> RadrootsTradePrivateTermsEvidenceV1 list
    \<Rightarrow> RadrootsTradeProjectionV1 \<Rightarrow> RadrootsTradeProjectionV1 option" where
  "private_terms_stage candidates claims private_terms p =
     Option.bind (reduce_private_terms_state p candidates private_terms) (\<lambda>state.
       let p = p\<lparr>pj_private_terms_state := state\<rparr> in
       if state \<in> {PrivateTermsMissing, Undecryptable, CommitmentMismatch}
       then push_unavailable claims (pj_active_agreement_claim_ids p) p else Some p)"

definition reduce_trade_records ::
  "(RadrootsTradeProjectionV1 \<Rightarrow> string + string) \<Rightarrow> RadrootsTradeReductionInputV1
    \<Rightarrow> RadrootsTradeProjectionV1 option" where
  "reduce_trade_records json_digest input =
     (let (p, mutations) = fold (collect_step (ri_trade_id input)) (ri_mutations input)
            (Projection_empty (ri_trade_id input), [])
      in
      Option.bind (decide_stage mutations p) (\<lambda>(candidates, cancellations, claims, p).
      Option.bind (apply_agreement_state claims mutations candidates cancellations p) (\<lambda>p.
      let p = apply_negotiation_state candidates claims (ri_observed_at_unix_s input) p in
      Option.bind (private_terms_stage candidates claims (ri_private_terms input) p) (\<lambda>p.
      let p = p\<lparr>pj_attestations := ri_attestations input\<rparr>;
          p = p\<lparr>pj_attestation_state := reduce_attestation_state (pj_attestations p)\<rparr>;
          p = p\<lparr>pj_evidence_state := reduce_evidence_state p (ri_evidence_state input)\<rparr>
      in Some (finish json_digest p)))))"

end
