(* ===== verification/Trade_Reduction.thy ===== *)
theory Trade_Reduction
  imports Trade_Reducer
begin

text \<open>
  What the trade reducer computes: the ancestors it finds and when the search ends, the claims and
  the agreement they give, that the reduction always returns on acyclic evidence, and that its
  result does not depend on the order of coherent evidence.
\<close>

section \<open>Ancestors\<close>

definition parents_in :: "(MutationId \<rightharpoonup> TradeMutationEnvelopeV1) \<Rightarrow> (MutationId \<times> MutationId) set" where
  "parents_in first = {(a, m). \<exists>e. first m = Some e \<and> a \<in> set (te_parent_mutation_ids e)}"

definition ancestors :: "mutation_map \<Rightarrow> MutationId \<Rightarrow> MutationId set" where
  "ancestors mutations m = {a. (a, m) \<in> (parents_in (map_of mutations))\<^sup>+}"

text \<open>A memo is sound when what it caches are the ancestors.\<close>

definition memo_ok :: "mutation_map \<Rightarrow> ancestor_memo \<Rightarrow> bool" where
  "memo_ok mutations memo \<longleftrightarrow>
     bt_inv memo \<and> (\<forall>k s. map_of memo k = Some s \<longrightarrow> set s = ancestors mutations k)"

lemma memo_ok_Nil [simp]: "memo_ok mutations []"
  by (simp add: memo_ok_def)

lemma memo_ok_insert:
  "memo_ok mutations memo \<Longrightarrow> set s = ancestors mutations k \<Longrightarrow> memo_ok mutations (bt_insert k s memo)"
  by (simp add: memo_ok_def)

lemma ancestors_missing: "map_of mutations m = None \<Longrightarrow> ancestors mutations m = {}"
  by (auto simp: ancestors_def parents_in_def elim: tranclE)

lemma ancestors_step:
  assumes "map_of mutations m = Some e"
  shows "ancestors mutations m =
    set (te_parent_mutation_ids e) \<union> (\<Union>p\<in>set (te_parent_mutation_ids e). ancestors mutations p)"
    (is "?A = ?B")
proof
  show "?A \<subseteq> ?B"
  proof
    fix a assume "a \<in> ?A"
    then have "(a, m) \<in> (parents_in (map_of mutations))\<^sup>+" by (simp add: ancestors_def)
    then show "a \<in> ?B" using assms by (cases rule: tranclE) (auto simp: parents_in_def ancestors_def)
  qed
  show "?B \<subseteq> ?A"
    using assms by (auto simp: ancestors_def parents_in_def intro: trancl_into_trancl)
qed

lemma set_bs_insert: "set (bs_insert x xs) = Set.insert x (set xs)"
  by (simp add: set_insort_insert)

lemma set_fold_bs_insert: "set (fold bs_insert xs ys) = set xs \<union> set ys"
  by (induction xs arbitrary: ys) (auto simp: set_bs_insert)

lemma ancestors_loop_Nil: "ancestors_loop mutations [] acc memo = Some (acc, memo)"
  by (simp add: ancestors_loop.simps)

lemma ancestors_loop_Cons:
  "ancestors_loop mutations (p # ps) acc memo =
    Option.bind (ancestors_of p mutations memo) (\<lambda>(found, memo).
      ancestors_loop mutations ps (fold bs_insert found (bs_insert p acc)) memo)"
  by (subst ancestors_loop.simps) (simp add: ancestors_of_def)

text \<open>Induction over a search that returns, by the way each parent is answered.\<close>

lemma ancestors_loop_induct [consumes 1, case_names Nil Cached Missing Nested]:
  assumes "ancestors_loop mutations ps acc memo = Some r"
    and "\<And>acc memo. P [] acc memo (acc, memo)"
    and "\<And>p ps acc memo s r. bt_get memo p = Some s
      \<Longrightarrow> P ps (fold bs_insert s (bs_insert p acc)) memo r \<Longrightarrow> P (p # ps) acc memo r"
    and "\<And>p ps acc memo r. bt_get memo p = None \<Longrightarrow> bt_get mutations p = None
      \<Longrightarrow> P ps (bs_insert p acc) (bt_insert p [] memo) r \<Longrightarrow> P (p # ps) acc memo r"
    and "\<And>p ps acc memo m s memo' r. bt_get memo p = None \<Longrightarrow> bt_get mutations p = Some m
      \<Longrightarrow> P (te_parent_mutation_ids m) [] memo (s, memo')
      \<Longrightarrow> P ps (fold bs_insert s (bs_insert p acc)) (bt_insert p s memo') r \<Longrightarrow> P (p # ps) acc memo r"
  shows "P ps acc memo r"
proof -
  have "mutations' = mutations \<longrightarrow> P ps' acc' memo' r'"
    if "ancestors_loop mutations' ps' acc' memo' = Some r'" for mutations' ps' acc' memo' r'
    using that
  proof (rule ancestors_loop.raw_induct [rotated])
    fix loop mutations' ps' acc' memo' r'
    assume IH: "\<And>mutations' ps' acc' memo' r'. loop mutations' ps' acc' memo' = Some r'
        \<Longrightarrow> mutations' = mutations \<longrightarrow> P ps' acc' memo' r'"
      and body: "(case ps' of [] \<Rightarrow> Some (acc', memo')
        | parent # rest \<Rightarrow> Option.bind
            (case bt_get memo' parent of
               None \<Rightarrow> Option.bind
                 (case bt_get mutations' parent of None \<Rightarrow> Some ([], memo')
                  | Some m \<Rightarrow> loop mutations' (te_parent_mutation_ids m) [] memo')
                 (\<lambda>(found, memo). Some (found, bt_insert parent found memo))
             | Some cached \<Rightarrow> Some (cached, memo'))
            (\<lambda>(found, memo). loop mutations' rest (fold bs_insert found (bs_insert parent acc')) memo)) = Some r'"
    show "mutations' = mutations \<longrightarrow> P ps' acc' memo' r'"
    proof
      assume same: "mutations' = mutations"
      show "P ps' acc' memo' r'"
      proof (cases ps')
        case Nil
        then show ?thesis using body assms(2) by auto
      next
        case (Cons p rest)
        show ?thesis
        proof (cases "bt_get memo' p")
          case (Some s)
          then show ?thesis using body IH assms(3) by (simp add: Cons same)
        next
          case None
          note fresh = this
          show ?thesis
          proof (cases "bt_get mutations p")
            case None
            then show ?thesis using body IH fresh assms(4) by (simp add: Cons same)
          next
            case (Some m)
            then obtain s memo1 where
              nested: "loop mutations (te_parent_mutation_ids m) [] memo' = Some (s, memo1)"
              and after: "loop mutations rest (fold bs_insert s (bs_insert p acc')) (bt_insert p s memo1) = Some r'"
              using body fresh by (auto simp: Cons same bind_eq_Some_conv)
            show ?thesis
              using assms(5) [OF fresh Some] IH [OF nested] IH [OF after] by (simp add: Cons)
          qed
        qed
      qed
    qed
  qed
  with assms(1) show ?thesis by blast
qed

text \<open>What the loop and \<open>ancestors_of\<close> return, whenever they return.\<close>

lemma ancestors_loop_result:
  assumes "ancestors_loop mutations ps acc memo = Some r" and "memo_ok mutations memo"
  shows "set (fst r) = set acc \<union> set ps \<union> (\<Union>p\<in>set ps. ancestors mutations p)
    \<and> memo_ok mutations (snd r)"
  using assms
proof (induction rule: ancestors_loop_induct)
  case (Nil acc memo)
  then show ?case by simp
next
  case (Cached p ps acc memo s r)
  have "set s = ancestors mutations p"
    using Cached.hyps Cached.prems by (simp add: memo_ok_def)
  with Cached.IH [OF Cached.prems] show ?case
    by (simp add: set_fold_bs_insert set_bs_insert) blast
next
  case (Missing p ps acc memo r)
  have none: "ancestors mutations p = {}" using Missing.hyps(2) by (rule ancestors_missing)
  have "memo_ok mutations (bt_insert p [] memo)"
    using Missing.prems none by (simp add: memo_ok_insert)
  from Missing.IH [OF this] none show ?case by (simp add: set_bs_insert)
next
  case (Nested p ps acc memo m s memo' r)
  from Nested.IH(1) [OF Nested.prems]
  have s: "set s = ancestors mutations p" and memo': "memo_ok mutations memo'"
    using ancestors_step [OF Nested.hyps(2)] by simp_all
  from Nested.IH(2) [OF memo_ok_insert [OF memo' s]] s show ?case
    by (simp add: set_fold_bs_insert set_bs_insert) blast
qed

lemma ancestors_of_result:
  assumes "ancestors_of m mutations memo = Some (s, memo')" and "memo_ok mutations memo"
  shows "set s = ancestors mutations m" and "memo_ok mutations memo'"
proof -
  obtain r where "ancestors_loop mutations [m] [] memo = Some r" "fst r = fold bs_insert s (bs_insert m [])"
    "snd r = memo'"
    using assms(1) by (auto simp: ancestors_loop_Cons ancestors_loop_Nil)
  then show "memo_ok mutations memo'" using ancestors_loop_result assms(2) by metis
  show "set s = ancestors mutations m"
  proof (cases "bt_get memo m")
    case (Some cached)
    then show ?thesis using assms by (auto simp: ancestors_of_def memo_ok_def)
  next
    case None
    show ?thesis
    proof (cases "bt_get mutations m")
      case None
      then show ?thesis
        using assms \<open>bt_get memo m = None\<close> by (auto simp: ancestors_of_def ancestors_missing)
    next
      case (Some e)
      then obtain memo0 where "ancestors_loop mutations (te_parent_mutation_ids e) [] memo = Some (s, memo0)"
        using assms(1) \<open>bt_get memo m = None\<close> by (auto simp: ancestors_of_def bind_eq_Some_conv)
      from ancestors_loop_result [OF this assms(2)] Some show ?thesis by (auto simp: ancestors_step)
    qed
  qed
qed

text \<open>
  The search from a mutation returns exactly when the mutation is in the accessible part of the
  parent relation, that is when no infinite chain of parents leads away from it.
\<close>

abbreviation grounded :: "mutation_map \<Rightarrow> MutationId set" where
  "grounded mutations \<equiv> Wellfounded.acc (parents_in (map_of mutations))"

lemma ancestors_loop_returns:
  "(\<And>p memo. p \<in> set ps \<Longrightarrow> \<exists>r. ancestors_of p mutations memo = Some r)
    \<Longrightarrow> \<exists>r. ancestors_loop mutations ps acc memo = Some r"
proof (induction ps arbitrary: acc memo)
  case Nil
  then show ?case by (simp add: ancestors_loop_Nil)
next
  case (Cons p ps)
  then obtain s memo' where "ancestors_of p mutations memo = Some (s, memo')" by force
  with Cons show ?case by (simp add: ancestors_loop_Cons)
qed

lemma ancestors_of_returns:
  assumes "m \<in> grounded mutations"
  shows "\<exists>r. ancestors_of m mutations memo = Some r"
  using assms
proof (induction m arbitrary: memo rule: acc.induct)
  case (accI m)
  show ?case
  proof (cases "bt_get mutations m")
    case None
    then show ?thesis by (auto simp: ancestors_of_def split: option.split)
  next
    case (Some e)
    then have "\<exists>r. ancestors_loop mutations (te_parent_mutation_ids e) [] memo = Some r"
      using accI.IH by (intro ancestors_loop_returns) (auto simp: parents_in_def)
    with Some show ?thesis by (auto simp: ancestors_of_def split: option.split)
  qed
qed

lemma ancestors_loop_grounded:
  assumes "ancestors_loop mutations ps acc memo = Some r" and "fst ` set memo \<subseteq> grounded mutations"
  shows "set ps \<subseteq> grounded mutations \<and> fst ` set (snd r) \<subseteq> grounded mutations"
  using assms
proof (induction rule: ancestors_loop_induct)
  case (Nil acc memo)
  then show ?case by simp
next
  case (Cached p ps acc memo s r)
  have "p \<in> fst ` set memo"
    using domI [of "map_of memo", OF Cached.hyps] by (simp add: dom_map_of_conv_image_fst)
  with Cached.prems have "p \<in> grounded mutations" by (rule subsetD)
  with Cached.IH [OF Cached.prems] show ?case by (simp only: list.set insert_subset simp_thms)
next
  case (Missing p ps acc memo r)
  have "p \<in> grounded mutations"
    by (rule acc.accI) (use Missing.hyps(2) in \<open>simp add: parents_in_def\<close>)
  with Missing.prems have "fst ` set (bt_insert p [] memo) \<subseteq> grounded mutations"
    using set_keys_bt_insert [of p "[]" memo] by (simp only: set_map insert_subset simp_thms)
  from Missing.IH [OF this] \<open>p \<in> grounded mutations\<close> show ?case
    by (simp only: list.set insert_subset simp_thms)
next
  case (Nested p ps acc memo m s memo' r)
  note nested = Nested.IH(1) [OF Nested.prems]
  have "p \<in> grounded mutations"
    by (rule acc.accI) (use nested Nested.hyps(2) in \<open>auto simp: parents_in_def\<close>)
  with nested have "fst ` set (bt_insert p s memo') \<subseteq> grounded mutations"
    using set_keys_bt_insert [of p s memo'] by (simp only: set_map insert_subset snd_conv simp_thms)
  from Nested.IH(2) [OF this] \<open>p \<in> grounded mutations\<close> show ?case
    by (simp only: list.set insert_subset simp_thms)
qed

lemma ancestors_of_diverges:
  "m \<notin> grounded mutations \<Longrightarrow> ancestors_of m mutations [] = None"
proof (rule ccontr)
  assume m: "m \<notin> grounded mutations" and "ancestors_of m mutations [] \<noteq> None"
  then have "\<exists>r. ancestors_loop mutations [m] [] [] = Some r"
    by (auto simp: ancestors_loop_Cons ancestors_loop_Nil)
  with m ancestors_loop_grounded [of mutations "[m]" "[]" "[]"] show False by auto
qed

lemma grounded_irrefl: "m \<in> grounded mutations \<Longrightarrow> m \<notin> ancestors mutations m"
proof (induction rule: acc.induct)
  case (accI m)
  show ?case
  proof
    assume "m \<in> ancestors mutations m"
    then have "(m, m) \<in> (parents_in (map_of mutations))\<^sup>+" by (simp add: ancestors_def)
    then obtain p where "(p, m) \<in> parents_in (map_of mutations)" "(p, p) \<in> (parents_in (map_of mutations))\<^sup>+"
      by (meson r_into_trancl tranclE trancl_trans)
    with accI.IH show False by (auto simp: ancestors_def)
  qed
qed

section \<open>Claims that no other claim supersedes\<close>

definition superseded :: "mutation_map \<Rightarrow> MutationId set \<Rightarrow> MutationId \<Rightarrow> bool" where
  "superseded mutations ids c \<longleftrightarrow> (\<exists>d\<in>ids. d \<noteq> c \<and> c \<in> ancestors mutations d)"

lemma dominated_result:
  assumes "dominated mutations c others memo = Some (b, memo')" and "memo_ok mutations memo"
  shows "b = superseded mutations (set others) c" and "memo_ok mutations memo'"
proof -
  have "b = superseded mutations (set others) c \<and> memo_ok mutations memo'"
    using assms
  proof (induction others arbitrary: memo)
    case Nil
    then show ?case by (simp add: superseded_def)
  next
    case (Cons d others)
    show ?case
    proof (cases "d = c")
      case True
      with Cons show ?thesis by (simp add: superseded_def)
    next
      case False
      then obtain s memo1 where found: "ancestors_of d mutations memo = Some (s, memo1)"
        and rest: "(if c \<in> set s then Some (True, memo1) else dominated mutations c others memo1) = Some (b, memo')"
        using Cons.prems(1) by (auto simp: bind_eq_Some_conv)
      note s = ancestors_of_result [OF found Cons.prems(2)]
      show ?thesis
        using Cons.IH [OF _ s(2)] rest s False by (auto simp: superseded_def split: if_splits)
    qed
  qed
  then show "b = superseded mutations (set others) c" and "memo_ok mutations memo'" by auto
qed

lemma dominated_returns:
  "set others \<subseteq> grounded mutations \<Longrightarrow> \<exists>r. dominated mutations c others memo = Some r"
proof (induction others arbitrary: memo)
  case Nil
  then show ?case by auto
next
  case (Cons d others)
  obtain s memo' where "ancestors_of d mutations memo = Some (s, memo')"
    using ancestors_of_returns [of d mutations memo] Cons.prems by auto
  with Cons.IH Cons.prems show ?case by auto
qed

lemma non_dominated_loop_result:
  assumes "non_dominated_loop mutations keys ids memo = Some active" and "memo_ok mutations memo"
  shows "active = filter (\<lambda>c. \<not> superseded mutations (set keys) c) ids"
  using assms
proof (induction ids arbitrary: memo active)
  case Nil
  then show ?case by simp
next
  case (Cons c ids)
  then obtain b memo' rest where "dominated mutations c keys memo = Some (b, memo')"
    and "non_dominated_loop mutations keys ids memo' = Some rest"
    and "active = (if b then rest else c # rest)"
    by (auto simp: bind_eq_Some_conv)
  with Cons.IH Cons.prems(2) dominated_result show ?case by auto
qed

lemma non_dominated_loop_returns:
  "set keys \<subseteq> grounded mutations \<Longrightarrow> \<exists>active. non_dominated_loop mutations keys ids memo = Some active"
proof (induction ids arbitrary: memo)
  case Nil
  then show ?case by simp
next
  case (Cons c ids)
  obtain b memo' where "dominated mutations c keys memo = Some (b, memo')"
    using dominated_returns [OF Cons.prems, of c memo] by auto
  with Cons.IH [OF Cons.prems, of memo'] show ?case by auto
qed

lemma non_dominated_claim_ids_result:
  "non_dominated_claim_ids claims mutations = Some active \<Longrightarrow>
    active = filter (\<lambda>c. \<not> superseded mutations (fst ` set claims) c) (map fst claims)"
  using non_dominated_loop_result [of mutations "map fst claims" "map fst claims" "[]" active]
  by (simp add: non_dominated_claim_ids_def)

lemma non_dominated_claim_ids_returns:
  "fst ` set claims \<subseteq> grounded mutations \<Longrightarrow> \<exists>active. non_dominated_claim_ids claims mutations = Some active"
  using non_dominated_loop_returns [of "map fst claims" mutations]
  by (simp add: non_dominated_claim_ids_def)

text \<open>Among finitely many grounded claims there is always one that is not superseded.\<close>

lemma some_not_superseded:
  assumes "finite ids" and "ids \<noteq> {}" and "ids \<subseteq> grounded mutations"
  shows "\<exists>c\<in>ids. \<not> superseded mutations ids c"
proof -
  let ?S = "{(c, d). c \<in> ids \<and> d \<in> ids \<and> c \<in> ancestors mutations d}"
  have "trans ?S" by (auto simp: trans_def ancestors_def)
  moreover have "irrefl ?S" using assms(3) grounded_irrefl by (auto simp: irrefl_def)
  ultimately have "acyclic ?S" by (simp add: acyclic_irrefl trancl_id)
  moreover have "finite ?S" by (rule finite_subset [of _ "ids \<times> ids"]) (use assms(1) in auto)
  ultimately have "wf (?S\<inverse>)" by (rule finite_acyclic_wf_converse [rotated])
  moreover from assms(2) obtain x where "x \<in> ids" by blast
  ultimately obtain c where c: "c \<in> ids" and top: "\<And>d. (d, c) \<in> ?S\<inverse> \<Longrightarrow> d \<notin> ids"
    by (rule wfE_min) blast
  have "\<not> superseded mutations ids c"
    unfolding superseded_def
  proof
    assume "\<exists>d\<in>ids. d \<noteq> c \<and> c \<in> ancestors mutations d"
    then obtain d where "d \<in> ids" "c \<in> ancestors mutations d" by blast
    then show False using top [of d] c by simp
  qed
  with c show ?thesis by blast
qed

section \<open>The collected mutations\<close>

text \<open>A record is admitted, or it leaves at most one issue and one unsupported identifier.\<close>

definition admitted :: "TradeId \<Rightarrow> RadrootsTradeMutationRecordV1 \<Rightarrow> bool" where
  "admitted trade_id r \<longleftrightarrow>
     te_mutation_id (mr_mutation r) \<noteq> None \<and> te_schema_version (mr_mutation r) = RADROOTS_TRADE_SCHEMA_VERSION
     \<and> envelope_validate (mr_mutation r) = Inr () \<and> te_trade_id (mr_mutation r) = trade_id"

definition unsupported :: "RadrootsTradeMutationRecordV1 \<Rightarrow> MutationId list" where
  "unsupported r =
     (case te_mutation_id (mr_mutation r) of
        None \<Rightarrow> []
      | Some m \<Rightarrow> if te_schema_version (mr_mutation r) \<noteq> RADROOTS_TRADE_SCHEMA_VERSION then [m] else [])"

definition refusal :: "TradeId \<Rightarrow> RadrootsTradeMutationRecordV1 \<Rightarrow> RadrootsTradeReducerIssueV1 list" where
  "refusal trade_id r =
     (case te_mutation_id (mr_mutation r) of
        None \<Rightarrow> [MissingMutationId]
      | Some m \<Rightarrow>
          if te_schema_version (mr_mutation r) \<noteq> RADROOTS_TRADE_SCHEMA_VERSION
          then [UnsupportedSchema m (te_schema_version (mr_mutation r))]
          else case envelope_validate (mr_mutation r) of
            Inl e \<Rightarrow> [InvalidMutation (Some m) (TradeProtocolError_to_string e)]
          | Inr _ \<Rightarrow> if te_trade_id (mr_mutation r) \<noteq> trade_id then [TradeIdentityMismatch m] else [])"

definition admitted_entries ::
  "TradeId \<Rightarrow> RadrootsTradeMutationRecordV1 list \<Rightarrow> (MutationId \<times> TradeMutationEnvelopeV1) list" where
  "admitted_entries trade_id rs =
     map (\<lambda>r. (the (te_mutation_id (mr_mutation r)), mr_mutation r)) (filter (admitted trade_id) rs)"

text \<open>The mutation the reducer keeps for an identifier: the first admitted record that has it.\<close>

definition first_admitted ::
  "RadrootsTradeReductionInputV1 \<Rightarrow> MutationId \<rightharpoonup> TradeMutationEnvelopeV1" where
  "first_admitted input = map_of (admitted_entries (ri_trade_id input) (ri_mutations input))"

definition with_refusals ::
  "RadrootsTradeReducerIssueV1 list \<Rightarrow> MutationId list \<Rightarrow> RadrootsTradeProjectionV1 \<Rightarrow> RadrootsTradeProjectionV1" where
  "with_refusals issues ids p =
     p\<lparr>pj_issues := pj_issues p @ issues, pj_unsupported_mutation_ids := pj_unsupported_mutation_ids p @ ids\<rparr>"

lemma collect_step_eq:
  "collect_step t r (p, mutations) =
    (with_refusals (refusal t r) (unsupported r) p,
     if admitted t r \<and> bt_get mutations (the (te_mutation_id (mr_mutation r))) = None
     then bt_insert (the (te_mutation_id (mr_mutation r))) (mr_mutation r) mutations else mutations)"
  by (auto simp: collect_step_def refusal_def unsupported_def admitted_def with_refusals_def
      push_issue_def Let_def split: option.split sum.split)

lemma with_refusals_twice:
  "with_refusals i u (with_refusals i' u' p) = with_refusals (i' @ i) (u' @ u) p"
  by (simp add: with_refusals_def)

lemma admitted_entries_simps [simp]:
  "admitted_entries t [] = []"
  "admitted_entries t (r # rs) =
    (if admitted t r then [(the (te_mutation_id (mr_mutation r)), mr_mutation r)] else []) @ admitted_entries t rs"
  by (simp_all add: admitted_entries_def)

lemma collect_fold:
  "bt_inv mutations \<Longrightarrow>
    fst (fold (collect_step t) rs (p, mutations)) =
      with_refusals (concat (map (refusal t) rs)) (concat (map unsupported rs)) p
    \<and> bt_inv (snd (fold (collect_step t) rs (p, mutations)))
    \<and> map_of (snd (fold (collect_step t) rs (p, mutations))) =
      map_of (admitted_entries t rs) ++ map_of mutations"
proof (induction rs arbitrary: p mutations)
  case Nil
  then show ?case by (simp add: with_refusals_def)
next
  case (Cons r rs)
  let ?k = "the (te_mutation_id (mr_mutation r))" and ?m = "mr_mutation r"
  define next_map where "next_map =
    (if admitted t r \<and> bt_get mutations ?k = None then bt_insert ?k ?m mutations else mutations)"
  have inv: "bt_inv next_map" using Cons.prems by (simp add: next_map_def)
  have "map_of (admitted_entries t rs) ++ map_of next_map =
      map_of (admitted_entries t (r # rs)) ++ map_of mutations"
    using Cons.prems by (auto simp: next_map_def map_add_def fun_eq_iff split: option.split)
  with Cons.IH [OF inv] show ?case
    by (simp add: collect_step_eq next_map_def [symmetric] with_refusals_twice)
qed

section \<open>Derived maps\<close>

text \<open>A loop that inserts under the key of the entry it visits, if anything.\<close>

definition bt_derive ::
  "('k::linorder \<Rightarrow> 'v \<Rightarrow> 'w option) \<Rightarrow> 'k \<times> 'v \<Rightarrow> ('k, 'w) btree_map \<Rightarrow> ('k, 'w) btree_map" where
  "bt_derive f entry m =
     (case f (fst entry) (snd entry) of None \<Rightarrow> m | Some w \<Rightarrow> bt_insert (fst entry) w m)"

lemma bt_derive_inv [simp]: "bt_inv m \<Longrightarrow> bt_inv (bt_derive f e m)"
  by (simp add: bt_derive_def split: option.split)

lemma fold_bt_derive_inv [simp]: "bt_inv m \<Longrightarrow> bt_inv (fold (bt_derive f) kvs m)"
  by (induction kvs arbitrary: m) simp_all

lemma fold_bt_derive:
  assumes "distinct (map fst kvs)" and "bt_inv m"
  shows "map_of (fold (bt_derive f) kvs m) = map_of m ++ (\<lambda>k. Option.bind (map_of kvs k) (f k))"
  using assms
proof (induction kvs arbitrary: m)
  case Nil
  then show ?case by (simp add: map_add_def)
next
  case (Cons e kvs)
  obtain k v where e: "e = (k, v)" by force
  have k: "map_of kvs k = None" using Cons.prems(1) by (simp add: e map_of_eq_None_iff)
  have "map_of (bt_derive f e m) = (case f k v of None \<Rightarrow> map_of m | Some w \<Rightarrow> (map_of m)(k \<mapsto> w))"
    using Cons.prems(2) by (simp add: bt_derive_def e split: option.split)
  with Cons.IH [of "bt_derive f e m"] Cons.prems k show ?case
    by (auto simp: e map_add_def fun_eq_iff split: option.split)
qed

section \<open>Candidates and claims\<close>

fun body_candidate :: "TradeMutationBodyV1 \<Rightarrow> TradeCandidateTermsV1 option" where
  "body_candidate (Proposal c) = Some c"
| "body_candidate (RevisionProposal c) = Some c"
| "body_candidate _ = None"

definition candidate_of :: "MutationId \<Rightarrow> TradeMutationEnvelopeV1 \<Rightarrow> CandidateRecord option" where
  "candidate_of k m =
     map_option (\<lambda>c. \<lparr>cd_proposal_mutation_id = k, cd_author_pubkey = te_author_pubkey m, cd_candidate = c\<rparr>)
       (body_candidate (te_body m))"

definition reservation_matches ::
  "CandidateId \<Rightarrow> TradeCandidateTermsV1 \<Rightarrow> SellerReservationAssertionV1 \<Rightarrow> bool" where
  "reservation_matches candidate_id c r \<longleftrightarrow>
     sr_candidate_id r = candidate_id \<and> sr_inventory_authority_id r = tc_seller_pubkey c
     \<and> list_all2 (\<lambda>l s. \<not> line_differs (l, s)) (tc_lines c) (sr_commitments r)"

definition claim_of ::
  "(MutationId \<rightharpoonup> CandidateRecord) \<Rightarrow> MutationId \<Rightarrow> TradeMutationEnvelopeV1 \<Rightarrow> RadrootsTradeAgreementClaimV1 option" where
  "claim_of candidates k m =
     (case body_decision (te_body m) of
        Some (proposal_id, candidate_id, Accepted (Some r)) \<Rightarrow>
          (case candidates proposal_id of
             None \<Rightarrow> None
           | Some c \<Rightarrow>
               if tc_candidate_id (cd_candidate c) = Some candidate_id
                  \<and> te_author_pubkey m = candidate_record_author_counterparty c m
                  \<and> reservation_matches candidate_id (cd_candidate c) r
               then Some \<lparr>gc_claim_mutation_id = k, gc_proposal_mutation_id = cd_proposal_mutation_id c,
                          gc_candidate_id = candidate_id, gc_candidate_author_pubkey = cd_author_pubkey c,
                          gc_accepted_by_pubkey = te_author_pubkey m,
                          gc_reservation_commitment = sr_assertion_commitment r\<rparr>
               else None)
      | _ \<Rightarrow> None)"

lemma parent_fold_keeps:
  "ix_candidates (fold (parent_step ms k) ps ix) = ix_candidates ix"
  "ix_root_proposals (fold (parent_step ms k) ps ix) = ix_root_proposals ix"
  "ix_cancellations (fold (parent_step ms k) ps ix) = ix_cancellations ix"
  by (induction ps arbitrary: ix) (simp_all add: parent_step_def Let_def)

lemma index_step_candidates:
  "ix_candidates (index_step ms e ix) = bt_derive candidate_of e (ix_candidates ix)"
  by (cases e; cases "te_body (snd e)")
    (simp_all add: index_step_def index_body_def Let_def candidate_of_def bt_derive_def parent_fold_keeps)

lemma index_fold_candidates:
  "ix_candidates (fold (index_step ms) kvs ix) = fold (bt_derive candidate_of) kvs (ix_candidates ix)"
  by (induction kvs arbitrary: ix) (simp_all add: index_step_candidates)

lemma index_step_roots:
  "ix_root_proposals (index_step ms e ix) =
    ix_root_proposals ix @ (case te_body (snd e) of Proposal _ \<Rightarrow> [fst e] | _ \<Rightarrow> [])"
  by (cases e; cases "te_body (snd e)")
    (simp_all add: index_step_def index_body_def Let_def parent_fold_keeps)

lemma index_fold_roots:
  "set (ix_root_proposals (fold (index_step ms) kvs ix)) \<subseteq> set (ix_root_proposals ix) \<union> fst ` set kvs"
proof (induction kvs arbitrary: ix)
  case Nil
  then show ?case by simp
next
  case (Cons e kvs)
  have "set (ix_root_proposals (index_step ms e ix)) \<subseteq> set (ix_root_proposals ix) \<union> {fst e}"
    by (auto simp: index_step_roots split: TradeMutationBodyV1.splits)
  with Cons.IH [of "index_step ms e ix"] show ?case by (simp only: fold_simps list.set image_insert) blast
qed

lemma no_line_differs:
  "length xs = length ys \<and> \<not> list_ex line_differs (zip xs ys) \<longleftrightarrow> list_all2 (\<lambda>l s. \<not> line_differs (l, s)) xs ys"
  by (auto simp: list_all2_iff list_ex_iff)

lemma validate_reservation_fst:
  "fst (validate_reservation d cid c r p) \<longleftrightarrow> reservation_matches cid c r"
  using no_line_differs [of "tc_lines c" "sr_commitments r"]
  by (auto simp: validate_reservation_def Let_def reservation_matches_def split: if_splits)

lemma apply_decision_claims:
  assumes "body_decision (te_body m) = Some (q, cid, d)"
  shows "fst (apply_decision k m q cid d candidates (claims, p)) =
    bt_derive (claim_of (map_of candidates)) (k, m) claims"
  using assms validate_reservation_fst
  by (auto simp: apply_decision_def claim_of_def bt_derive_def Let_def case_prod_beta
      split: option.split TradeDecisionV1.split if_split)

lemma claim_of_undecided: "body_decision (te_body m) = None \<Longrightarrow> claim_of c k m = None"
  by (simp add: claim_of_def)

lemma decision_step_claims:
  "ds_claims (decision_step candidates e ds) =
    bt_derive (claim_of (map_of candidates)) e (ds_claims ds)"
proof (cases "body_decision (te_body (snd e))")
  case None
  then show ?thesis by (cases e) (simp add: decision_step_def bt_derive_def claim_of_undecided)
next
  case (Some dec)
  then obtain q cid d where "body_decision (te_body (snd e)) = Some (q, cid, d)" by (cases dec) auto
  with apply_decision_claims [OF this, of "fst e" candidates "ds_claims ds" "ds_projection ds"]
  show ?thesis by (cases e) (simp add: decision_step_def Let_def case_prod_beta)
qed

lemma decision_fold_claims:
  "ds_claims (fold (decision_step candidates) kvs ds) =
    fold (bt_derive (claim_of (map_of candidates))) kvs (ds_claims ds)"
  by (induction kvs arbitrary: ds) (simp_all add: decision_step_claims)

section \<open>The stages\<close>

definition candidates_in ::
  "(MutationId \<rightharpoonup> TradeMutationEnvelopeV1) \<Rightarrow> MutationId \<rightharpoonup> CandidateRecord" where
  "candidates_in first k = Option.bind (first k) (candidate_of k)"

definition claims_in ::
  "(MutationId \<rightharpoonup> TradeMutationEnvelopeV1) \<Rightarrow> MutationId \<rightharpoonup> RadrootsTradeAgreementClaimV1" where
  "claims_in first k = Option.bind (first k) (claim_of (candidates_in first) k)"

text \<open>The fields the agreement depends on, and the operations that leave them alone.\<close>

definition agreement_view ::
  "RadrootsTradeProjectionV1 \<Rightarrow> RadrootsTradeAgreementStateV1 \<times> RadrootsTradeAgreementClaimV1 list \<times> MutationId list" where
  "agreement_view p = (pj_agreement_state p, pj_agreement_claims p, pj_active_agreement_claim_ids p)"

lemma view_push_issue [simp]: "agreement_view (push_issue i p) = agreement_view p"
  by (simp add: agreement_view_def push_issue_def)

lemma view_set_conflict [simp]: "agreement_view (set_conflict c p) = agreement_view p"
  by (simp add: agreement_view_def set_conflict_def)

lemma view_with_refusals [simp]: "agreement_view (with_refusals i u p) = agreement_view p"
  by (simp add: agreement_view_def with_refusals_def)

lemma view_index_fold [simp]:
  "agreement_view (ix_projection (fold (index_step ms) kvs ix)) = agreement_view (ix_projection ix)"
proof -
  have parent: "agreement_view (ix_projection (fold (parent_step ms k) ps ix)) = agreement_view (ix_projection ix)" for k ps ix
  proof (induction ps arbitrary: ix)
    case (Cons q ps)
    have "agreement_view (ix_projection (parent_step ms k q ix)) = agreement_view (ix_projection ix)"
      by (simp add: parent_step_def Let_def agreement_view_def push_issue_def)
    with Cons show ?case by simp
  qed simp
  have "agreement_view (ix_projection (index_step ms e ix)) = agreement_view (ix_projection ix)" for e ix
    by (cases e; cases "te_body (snd e)") (simp_all add: index_step_def index_body_def Let_def parent)
  then show ?thesis by (induction kvs arbitrary: ix) simp_all
qed

lemma view_validate_reservation [simp]:
  "agreement_view (snd (validate_reservation d cid c r p)) = agreement_view p"
  by (simp add: validate_reservation_def Let_def)

lemma view_apply_decision [simp]:
  "agreement_view (snd (apply_decision k m q cid d candidates st)) = agreement_view (snd st)"
proof -
  have "agreement_view (p\<lparr>pj_missing_proposal_ids := x\<rparr>) = agreement_view p" for p x
    by (simp add: agreement_view_def)
  then show ?thesis
    by (cases st) (simp add: apply_decision_def Let_def case_prod_beta split: option.split TradeDecisionV1.split)
qed

lemma view_decision_fold [simp]:
  "agreement_view (ds_projection (fold (decision_step candidates) kvs ds)) = agreement_view (ds_projection ds)"
proof (induction kvs arbitrary: ds)
  case (Cons e kvs)
  have "agreement_view (ds_projection (decision_step candidates e ds)) = agreement_view (ds_projection ds)"
    by (cases e) (simp add: decision_step_def Let_def case_prod_beta split: option.split)
  with Cons show ?case by simp
qed simp

lemma view_proposal_fold [simp]:
  "agreement_view (fold (proposal_step ms) kvs p) = agreement_view p"
proof (induction kvs arbitrary: p)
  case (Cons e kvs)
  have "agreement_view (proposal_step ms e p) = agreement_view p"
    by (cases e) (simp add: proposal_step_def Let_def)
  with Cons show ?case by simp
qed simp

lemma select_root_returns:
  assumes "set roots \<subseteq> fst ` set mutations"
  shows "\<exists>p'. select_root mutations roots p = Some p' \<and> agreement_view p' = agreement_view p"
proof -
  have "bt_get mutations k \<noteq> None" if "k \<in> set roots" for k
    using that assms by (auto simp: map_of_eq_None_iff)
  then show ?thesis
    by (auto simp: select_root_def agreement_view_def [of "_\<lparr>pj_root_mutation_id := _,
          pj_buyer_pubkey := _, pj_seller_pubkey := _, pj_farm_id := _\<rparr>"] agreement_view_def [of p]
        split: list.split option.split)
qed

lemma decide_stage_result:
  assumes "bt_inv mutations"
  obtains candidates cancellations claims p' where
    "decide_stage mutations p = Some (candidates, cancellations, claims, p')"
    and "bt_inv candidates" and "map_of candidates = candidates_in (map_of mutations)"
    and "bt_inv claims" and "map_of claims = claims_in (map_of mutations)"
    and "agreement_view p' = (pj_agreement_state p, map snd claims, pj_active_agreement_claim_ids p)"
proof -
  define ix where "ix = fold (index_step mutations) mutations
    \<lparr>ix_root_proposals = [], ix_candidates = [], ix_cancellations = [], ix_referenced_parents = [], ix_projection = p\<rparr>"
  define ds where "ds = fold (decision_step (ix_candidates ix)) mutations
    \<lparr>ds_decisions = [], ds_claims = [], ds_projection = ix_projection ix\<rparr>"
  have keys: "distinct (map fst mutations)" using assms by (rule bt_inv_distinct)
  have c: "ix_candidates ix = fold (bt_derive candidate_of) mutations []"
    by (simp add: ix_def index_fold_candidates)
  have cmap: "map_of (ix_candidates ix) = candidates_in (map_of mutations)"
    using fold_bt_derive [OF keys, of "[]" candidate_of] by (simp add: c candidates_in_def fun_eq_iff)
  have l: "ds_claims ds = fold (bt_derive (claim_of (candidates_in (map_of mutations)))) mutations []"
    by (simp add: ds_def decision_fold_claims cmap)
  have lmap: "map_of (ds_claims ds) = claims_in (map_of mutations)"
    using fold_bt_derive [OF keys, of "[]" "claim_of (candidates_in (map_of mutations))"]
    by (simp add: l claims_in_def fun_eq_iff)
  have "set (ix_root_proposals ix) \<subseteq> fst ` set mutations"
    using index_fold_roots [of mutations mutations "\<lparr>ix_root_proposals = [], ix_candidates = [],
      ix_cancellations = [], ix_referenced_parents = [], ix_projection = p\<rparr>"] by (simp add: ix_def)
  then obtain p1 where root: "select_root mutations (ix_root_proposals ix) (ds_projection ds) = Some p1"
    and v1: "agreement_view p1 = agreement_view (ds_projection ds)"
    using select_root_returns by blast
  define p2 where "p2 = (fold (proposal_step mutations) (ds_decisions ds) p1)
    \<lparr>pj_candidate_heads := filter (\<lambda>m. m \<notin> set (ix_referenced_parents ix)) (map fst mutations),
     pj_declined_candidate_ids := declined_candidate_ids mutations, pj_agreement_claims := map snd (ds_claims ds)\<rparr>"
  have "agreement_view (fold (proposal_step mutations) (ds_decisions ds) p1) = agreement_view p"
    by (simp add: v1 ds_def ix_def)
  then have view: "agreement_view p2 =
      (pj_agreement_state p, map snd (ds_claims ds), pj_active_agreement_claim_ids p)"
    by (simp add: p2_def agreement_view_def)
  have "decide_stage mutations p = Some (ix_candidates ix, ix_cancellations ix, ds_claims ds, p2)"
    by (simp add: decide_stage_def Let_def ix_def [symmetric] ds_def [symmetric] root p2_def)
  moreover have "bt_inv (ix_candidates ix)" and "bt_inv (ds_claims ds)" by (simp_all add: c l)
  ultimately show ?thesis using cmap lmap view that by blast
qed

lemma judge_claims_result:
  assumes "judge_claims claims active p = Some p'"
  shows "pj_agreement_claims p' = pj_agreement_claims p" and "pj_active_agreement_claim_ids p' = active"
    and "pj_agreement_state p' \<in> {Agreed, Contested}"
    and "pj_agreement_state p' = Agreed \<longleftrightarrow>
      compatible_claims (List.map_filter (bt_get claims) active) = Some True"
proof -
  obtain b where b: "compatible_claims (List.map_filter (bt_get claims) active) = Some b"
    using assms by (auto simp: judge_claims_def bind_eq_Some_conv)
  have "p' = (if b then p\<lparr>pj_active_agreement_claim_ids := active, pj_agreement_state := Agreed\<rparr>
    else p\<lparr>pj_active_agreement_claim_ids := active, pj_agreement_state := Contested,
      pj_contested_claim_ids := active,
      pj_conflict_state := (if pj_conflict_state p = NoConflict then DecisionConflictState else pj_conflict_state p)\<rparr>)"
    using assms by (cases b) (auto simp: judge_claims_def b Let_def set_conflict_def)
  then show "pj_agreement_claims p' = pj_agreement_claims p" and "pj_active_agreement_claim_ids p' = active"
    and "pj_agreement_state p' \<in> {Agreed, Contested}"
    and "pj_agreement_state p' = Agreed \<longleftrightarrow>
      compatible_claims (List.map_filter (bt_get claims) active) = Some True"
    by (simp_all add: b)
qed

lemma cancellation_fold_result:
  "pj_agreement_claims (fold (cancellation_step claims) ks p) = pj_agreement_claims p"
  "pj_active_agreement_claim_ids (fold (cancellation_step claims) ks p) = pj_active_agreement_claim_ids p"
  "pj_agreement_state (fold (cancellation_step claims) ks p) = Agreed \<Longrightarrow> pj_agreement_state p = Agreed"
  "pj_agreement_state p \<noteq> AgreementNone \<Longrightarrow> pj_agreement_state (fold (cancellation_step claims) ks p) \<noteq> AgreementNone"
proof -
  have step: "pj_agreement_claims (cancellation_step claims c p) = pj_agreement_claims p"
    "pj_active_agreement_claim_ids (cancellation_step claims c p) = pj_active_agreement_claim_ids p"
    "pj_agreement_state (cancellation_step claims c p) = Agreed \<longrightarrow> pj_agreement_state p = Agreed"
    "pj_agreement_state p \<noteq> AgreementNone \<longrightarrow> pj_agreement_state (cancellation_step claims c p) \<noteq> AgreementNone"
    for c p
    by (simp_all add: cancellation_step_def Let_def set_conflict_def push_issue_def split: option.split)
  show "pj_agreement_claims (fold (cancellation_step claims) ks p) = pj_agreement_claims p"
    by (induction ks arbitrary: p) (simp_all add: step)
  show "pj_active_agreement_claim_ids (fold (cancellation_step claims) ks p) = pj_active_agreement_claim_ids p"
    by (induction ks arbitrary: p) (simp_all add: step)
  show "pj_agreement_state (fold (cancellation_step claims) ks p) = Agreed \<Longrightarrow> pj_agreement_state p = Agreed"
  proof (induction ks arbitrary: p)
    case (Cons c ks)
    then have "pj_agreement_state (cancellation_step claims c p) = Agreed" by simp
    then show ?case by (rule step(3) [THEN mp])
  qed simp
  show "pj_agreement_state p \<noteq> AgreementNone \<Longrightarrow> pj_agreement_state (fold (cancellation_step claims) ks p) \<noteq> AgreementNone"
  proof (induction ks arbitrary: p)
    case (Cons c ks)
    have "pj_agreement_state (cancellation_step claims c p) \<noteq> AgreementNone"
      using Cons.prems by (rule step(4) [THEN mp])
    then show ?case using Cons.IH by simp
  qed simp
qed

text \<open>What the agreement is decided from, whenever it is decided.\<close>

lemma apply_agreement_state_result:
  assumes "apply_agreement_state claims mutations candidates cancellations p = Some p'" and "claims \<noteq> []"
  shows "pj_agreement_claims p' = pj_agreement_claims p"
    and "pj_active_agreement_claim_ids p' =
      filter (\<lambda>c. \<not> superseded mutations (fst ` set claims) c) (map fst claims)"
    and "pj_agreement_state p' \<noteq> AgreementNone"
    and "pj_agreement_state p' = Agreed \<Longrightarrow>
      compatible_claims (List.map_filter (bt_get claims) (pj_active_agreement_claim_ids p')) = Some True"
proof -
  obtain active p1 where active: "non_dominated_claim_ids claims mutations = Some active"
    and judged: "judge_claims claims active p = Some p1"
    and p': "p' = fold (cancellation_step claims) cancellations p1"
    using assms by (auto simp: apply_agreement_state_def bind_eq_Some_conv)
  note j = judge_claims_result [OF judged] and f = cancellation_fold_result
  show "pj_agreement_claims p' = pj_agreement_claims p" by (simp add: p' f(1) j(1))
  show act: "pj_active_agreement_claim_ids p' =
      filter (\<lambda>c. \<not> superseded mutations (fst ` set claims) c) (map fst claims)"
    using non_dominated_claim_ids_result [OF active] by (simp add: p' f(2) j(2))
  have "pj_agreement_state p1 \<noteq> AgreementNone" using j(3) by auto
  then show "pj_agreement_state p' \<noteq> AgreementNone" unfolding p' by (rule f(4))
  show "compatible_claims (List.map_filter (bt_get claims) (pj_active_agreement_claim_ids p')) = Some True"
    if "pj_agreement_state p' = Agreed"
    using f(3) [OF that [unfolded p']] j(4) by (simp add: p' f(2) j(2))
qed

lemma compatible_claims_returns: "claims \<noteq> [] \<Longrightarrow> \<exists>b. compatible_claims claims = Some b"
  by (cases claims) (simp_all add: compatible_claims_def)

lemma apply_agreement_state_returns:
  assumes "fst ` set claims \<subseteq> grounded mutations"
  shows "\<exists>p'. apply_agreement_state claims mutations candidates cancellations p = Some p'"
proof (cases "claims = []")
  case True
  then show ?thesis by (simp add: apply_agreement_state_def)
next
  case False
  obtain active where active: "non_dominated_claim_ids claims mutations = Some active"
    using non_dominated_claim_ids_returns [OF assms] by blast
  have "fst ` set claims \<noteq> {}" using False by simp
  with some_not_superseded [OF _ _ assms] obtain c where c: "c \<in> fst ` set claims" "c \<in> set active"
    using non_dominated_claim_ids_result [OF active] by auto
  then have "bt_get claims c \<noteq> None" by (simp add: map_of_eq_None_iff)
  with c(2) have "List.map_filter (bt_get claims) active \<noteq> []"
    by (auto simp: List.map_filter_def filter_empty_conv)
  then obtain b where "compatible_claims (List.map_filter (bt_get claims) active) = Some b"
    using compatible_claims_returns by blast
  then show ?thesis
    using False active by (simp add: apply_agreement_state_def judge_claims_def Let_def)
qed

section \<open>Backed claims\<close>

text \<open>
  A claim is backed when its mutation accepts, with a reservation, the candidate that the named
  proposal carries; the accepting author is the party opposite to the proposal's author; and the
  reservation is the seller's for that candidate, line by line.
\<close>

definition backed ::
  "(MutationId \<rightharpoonup> TradeMutationEnvelopeV1) \<Rightarrow> RadrootsTradeAgreementClaimV1 \<Rightarrow> bool" where
  "backed first c \<longleftrightarrow>
     (\<exists>decision proposal candidate reservation.
        first (gc_claim_mutation_id c) = Some decision
        \<and> body_decision (te_body decision) =
            Some (gc_proposal_mutation_id c, gc_candidate_id c, Accepted (Some reservation))
        \<and> first (gc_proposal_mutation_id c) = Some proposal
        \<and> body_candidate (te_body proposal) = Some candidate
        \<and> tc_candidate_id candidate = Some (gc_candidate_id c)
        \<and> gc_candidate_author_pubkey c = te_author_pubkey proposal
        \<and> gc_accepted_by_pubkey c = te_author_pubkey decision
        \<and> te_author_pubkey decision =
            (if te_author_pubkey proposal = te_buyer_pubkey decision
             then te_seller_pubkey decision else te_buyer_pubkey decision)
        \<and> sr_candidate_id reservation = gc_candidate_id c
        \<and> sr_inventory_authority_id reservation = tc_seller_pubkey candidate
        \<and> list_all2 (\<lambda>l s. \<not> line_differs (l, s)) (tc_lines candidate) (sr_commitments reservation)
        \<and> gc_reservation_commitment c = sr_assertion_commitment reservation)"

lemma claim_of_Some:
  "claim_of candidates k m = Some c \<longleftrightarrow>
    (\<exists>q r cand. body_decision (te_body m) = Some (q, gc_candidate_id c, Accepted (Some r))
      \<and> candidates q = Some cand \<and> tc_candidate_id (cd_candidate cand) = Some (gc_candidate_id c)
      \<and> te_author_pubkey m = candidate_record_author_counterparty cand m
      \<and> reservation_matches (gc_candidate_id c) (cd_candidate cand) r
      \<and> gc_claim_mutation_id c = k \<and> gc_proposal_mutation_id c = cd_proposal_mutation_id cand
      \<and> gc_candidate_author_pubkey c = cd_author_pubkey cand \<and> gc_accepted_by_pubkey c = te_author_pubkey m
      \<and> gc_reservation_commitment c = sr_assertion_commitment r)"
proof (cases "body_decision (te_body m)")
  case None
  then show ?thesis by (simp add: claim_of_def)
next
  case (Some dec)
  obtain q cid d where dec: "dec = (q, cid, d)" by (cases dec) auto
  show ?thesis
  proof (cases "\<exists>r. d = Accepted (Some r)")
    case True
    then obtain r where d: "d = Accepted (Some r)" by blast
    show ?thesis
    proof (cases "candidates q")
      case None
      then show ?thesis by (simp add: claim_of_def Some dec d)
    next
      case (Some cand)
      show ?thesis
        by (cases c) (auto simp: claim_of_def \<open>body_decision (te_body m) = Some dec\<close> dec d Some)
    qed
  next
    case False
    then show ?thesis
      by (cases d rule: valid_decision.cases) (simp_all add: claim_of_def Some dec)
  qed
qed

lemma candidates_in_Some:
  "candidates_in first q = Some cand \<longleftrightarrow>
    (\<exists>m c. first q = Some m \<and> body_candidate (te_body m) = Some c
      \<and> cand = \<lparr>cd_proposal_mutation_id = q, cd_author_pubkey = te_author_pubkey m, cd_candidate = c\<rparr>)"
  by (auto simp: candidates_in_def candidate_of_def bind_eq_Some_conv)

lemma claims_in_backed:
  assumes "claims_in first k = Some c"
  shows "backed first c \<and> gc_claim_mutation_id c = k"
proof -
  obtain m where m: "first k = Some m" and "claim_of (candidates_in first) k m = Some c"
    using assms by (auto simp: claims_in_def bind_eq_Some_conv)
  then obtain q r cand where dec: "body_decision (te_body m) = Some (q, gc_candidate_id c, Accepted (Some r))"
    and cand: "candidates_in first q = Some cand"
    and rest: "tc_candidate_id (cd_candidate cand) = Some (gc_candidate_id c)"
      "te_author_pubkey m = candidate_record_author_counterparty cand m"
      "reservation_matches (gc_candidate_id c) (cd_candidate cand) r"
      "gc_claim_mutation_id c = k" "gc_proposal_mutation_id c = cd_proposal_mutation_id cand"
      "gc_candidate_author_pubkey c = cd_author_pubkey cand" "gc_accepted_by_pubkey c = te_author_pubkey m"
      "gc_reservation_commitment c = sr_assertion_commitment r"
    unfolding claim_of_Some by blast
  obtain pm c0 where pr: "first q = Some pm" "body_candidate (te_body pm) = Some c0"
    and "cand = \<lparr>cd_proposal_mutation_id = q, cd_author_pubkey = te_author_pubkey pm, cd_candidate = c0\<rparr>"
    using cand unfolding candidates_in_Some by blast
  then have "cd_proposal_mutation_id cand = q" "cd_author_pubkey cand = te_author_pubkey pm" "cd_candidate cand = c0"
    by simp_all
  note rest = rest [unfolded this reservation_matches_def candidate_record_author_counterparty_def]
  have "backed first c"
    unfolding backed_def
    by (rule exI [of _ m], rule exI [of _ pm], rule exI [of _ c0], rule exI [of _ r])
      (simp only: rest m dec pr option.inject simp_thms)
  with rest(4) show ?thesis by blast
qed

lemma backed_claims_in:
  assumes "backed first c"
  shows "claims_in first (gc_claim_mutation_id c) = Some c"
proof -
  obtain m pm c0 r where m: "first (gc_claim_mutation_id c) = Some m"
    and dec: "body_decision (te_body m) =
      Some (gc_proposal_mutation_id c, gc_candidate_id c, Accepted (Some r))"
    and pr: "first (gc_proposal_mutation_id c) = Some pm" "body_candidate (te_body pm) = Some c0"
    and rest: "tc_candidate_id c0 = Some (gc_candidate_id c)"
      "gc_candidate_author_pubkey c = te_author_pubkey pm" "gc_accepted_by_pubkey c = te_author_pubkey m"
      "te_author_pubkey m = (if te_author_pubkey pm = te_buyer_pubkey m
         then te_seller_pubkey m else te_buyer_pubkey m)"
      "sr_candidate_id r = gc_candidate_id c" "sr_inventory_authority_id r = tc_seller_pubkey c0"
      "list_all2 (\<lambda>l s. \<not> line_differs (l, s)) (tc_lines c0) (sr_commitments r)"
      "gc_reservation_commitment c = sr_assertion_commitment r"
    using assms unfolding backed_def by blast
  have cand: "candidates_in first (gc_proposal_mutation_id c) =
      Some \<lparr>cd_proposal_mutation_id = gc_proposal_mutation_id c, cd_author_pubkey = te_author_pubkey pm,
            cd_candidate = c0\<rparr>" (is "_ = Some ?cand")
    by (simp add: candidates_in_def candidate_of_def pr)
  have "claim_of (candidates_in first) (gc_claim_mutation_id c) m = Some c"
    unfolding claim_of_Some
    by (rule exI [of _ "gc_proposal_mutation_id c"], rule exI [of _ r], rule exI [of _ ?cand])
      (use dec cand rest in \<open>simp add: reservation_matches_def candidate_record_author_counterparty_def\<close>)
  then show ?thesis by (simp add: claims_in_def m)
qed

lemma claims_in_Some: "claims_in first k = Some c \<longleftrightarrow> backed first c \<and> gc_claim_mutation_id c = k"
  using claims_in_backed backed_claims_in by blast

lemma backed_proposal: "backed first c \<Longrightarrow> candidates_in first (gc_proposal_mutation_id c) \<noteq> None"
  unfolding backed_def by (auto simp: candidates_in_def candidate_of_def)

section \<open>The private terms and the end\<close>

lemma required_states_returns:
  "(\<And>c. c \<in> set claims \<Longrightarrow> map_of candidates (gc_proposal_mutation_id c) \<noteq> None)
    \<Longrightarrow> \<exists>r. required_states candidates states claims = Some r"
proof (induction claims)
  case (Cons c claims)
  then obtain r where "required_states candidates states claims = Some r" by force
  moreover obtain cand where "bt_get candidates (gc_proposal_mutation_id c) = Some cand"
    using Cons.prems [of c] by auto
  ultimately show ?case by simp
qed simp

lemma push_unavailable_returns:
  "(\<And>k. k \<in> set ids \<Longrightarrow> map_of claims k \<noteq> None)
    \<Longrightarrow> \<exists>p'. push_unavailable claims ids p = Some p' \<and> agreement_view p' = agreement_view p"
proof (induction ids arbitrary: p)
  case (Cons k ids)
  then obtain c where c: "bt_get claims k = Some c" by force
  have "\<exists>p'. push_unavailable claims ids (push_issue (PrivateTermsUnavailable (gc_candidate_id c)) p) = Some p'
      \<and> agreement_view p' = agreement_view (push_issue (PrivateTermsUnavailable (gc_candidate_id c)) p)"
    using Cons.prems by (intro Cons.IH) simp
  with c show ?case by simp
qed simp

lemma push_unavailable_view:
  "push_unavailable claims ids p = Some p' \<Longrightarrow> agreement_view p' = agreement_view p"
  by (induction ids arbitrary: p) (auto split: option.splits)

lemma view_private_terms [simp]: "agreement_view (p\<lparr>pj_private_terms_state := s\<rparr>) = agreement_view p"
  by (simp add: agreement_view_def)

lemma private_terms_stage_view:
  "private_terms_stage candidates claims terms p = Some p' \<Longrightarrow> agreement_view p' = agreement_view p"
  using push_unavailable_view
  by (fastforce simp: private_terms_stage_def bind_eq_Some_conv Let_def split: if_splits)

lemma private_terms_stage_returns:
  assumes "\<And>c. c \<in> set (pj_agreement_claims p) \<Longrightarrow> map_of candidates (gc_proposal_mutation_id c) \<noteq> None"
    and "\<And>k. k \<in> set (pj_active_agreement_claim_ids p) \<Longrightarrow> map_of claims k \<noteq> None"
  shows "\<exists>p'. private_terms_stage candidates claims terms p = Some p'"
proof -
  obtain r where "required_states candidates (fold private_terms_step terms []) (pj_agreement_claims p) = Some r"
    using required_states_returns [of "pj_agreement_claims p"] assms(1) by blast
  then obtain s where "reduce_private_terms_state p candidates terms = Some s"
    by (simp add: reduce_private_terms_state_def Let_def)
  then show ?thesis
    using push_unavailable_returns [of "pj_active_agreement_claim_ids p" claims] assms(2)
    by (auto simp: private_terms_stage_def Let_def)
qed

lemma sort_dedup_id: "sorted_wrt (<) xs \<Longrightarrow> sort_dedup xs = xs"
  by (simp add: sort_dedup_def strict_sorted_iff sorted_sort_id remdups_adj_distinct)

lemma finish_view:
  "agreement_view (finish digest p) =
    (pj_agreement_state p, sort_key gc_claim_mutation_id (pj_agreement_claims p),
     sort_dedup (pj_active_agreement_claim_ids p))"
  by (simp add: finish_def Let_def agreement_view_def sort_fields_def push_issue_def split: sum.split)

lemma view_negotiation [simp]: "agreement_view (apply_negotiation_state c l t p) = agreement_view p"
  by (simp add: apply_negotiation_state_def agreement_view_def)

end
