(* ===== verification/Trade_Samples.thy ===== *)
theory Trade_Samples
  imports Trade_Reduction
begin

text \<open>
  One concrete trade for the witnesses: a buyer's proposal of one line and the seller's
  acceptances of it, with their identifiers as 32 equal bytes.
\<close>

definition sample_id :: "8 word \<Rightarrow> 'k id32" where
  "sample_id n = Id32 (replicate 32 n)"

definition sample_trade :: TradeId where
  "sample_trade = Id32 (replicate 16 7)"

definition sample_hash :: "char \<Rightarrow> string" where
  "sample_hash c = replicate 64 c"

definition sample_line :: TradeCandidateLineV1 where
  "sample_line =
     \<lparr>tl_line_id = DTag ''line-1'', tl_listing_addr = ClassifiedListingAddress ''listing'',
      tl_listing_event_id = sample_id 90, tl_listing_snapshot_sha256 = sample_hash (CHR ''d''),
      tl_product_id = ''carrots'', tl_option_id = None, tl_bin_id = InventoryBinId ''bin-1'',
      tl_quantity_mantissa = ''2'', tl_quantity_scale = 0, tl_unit_code = ''count'',
      tl_unit_profile = ''mvp'', tl_unit_price_mantissa = ''500'', tl_currency_code = ''USD'',
      tl_line_subtotal_mantissa = ''1000'', tl_replaces_line_id = None\<rparr>"

definition sample_candidate :: TradeCandidateTermsV1 where
  "sample_candidate =
     \<lparr>tc_candidate_id = Some (sample_id 50), tc_schema_version = 1, tc_base_candidate_id = None,
      tc_supersession_intent = None, tc_buyer_pubkey = sample_id 10, tc_seller_pubkey = sample_id 11,
      tc_farm_id = DTag ''farm'', tc_lines = [sample_line], tc_line_tombstones = [],
      tc_economics = \<lparr>ec_profile_id = ''mvp'', ec_currency_code = ''USD'', ec_currency_exponent = 2,
        ec_rounding_profile = ''even'', ec_subtotal_mantissa = ''1000'', ec_discount_total_mantissa = ''0'',
        ec_adjustment_total_mantissa = ''0'', ec_total_mantissa = ''1000'', ec_adjustments = []\<rparr>,
      tc_fulfillment = \<lparr>fp_profile_id = ''mvp'', fp_method = ''pickup'', fp_starts_at_unix_s = 100,
        fp_ends_at_unix_s = 200, fp_timezone = ''UTC'', fp_utc_offset_seconds = 0, fp_fold = 0,
        fp_location_class = ''farm'', fp_requires_private_terms = False\<rparr>,
      tc_cancellation = \<lparr>cx_profile_id = ''mvp'', cx_buyer_pre_agreement = True,
        cx_post_agreement_cutoff_unix_s = None\<rparr>,
      tc_private_terms = None, tc_proposal_expires_at_unix_s = 90\<rparr>"

definition sample_reservation :: "string \<Rightarrow> SellerReservationAssertionV1" where
  "sample_reservation commitment =
     \<lparr>sr_reservation_id = DTag ''reservation'', sr_inventory_authority_id = sample_id 11,
      sr_inventory_epoch = 1, sr_candidate_id = sample_id 50,
      sr_commitments = [\<lparr>sv_line_id = DTag ''line-1'', sv_bin_id = InventoryBinId ''bin-1'',
        sv_quantity_mantissa = ''2'', sv_quantity_scale = 0, sv_unit_code = ''count''\<rparr>],
      sr_reservation_expires_at_unix_s = 300, sr_assertion_commitment = commitment\<rparr>"

definition sample_proposal :: TradeMutationEnvelopeV1 where
  "sample_proposal =
     \<lparr>te_mutation_id = Some (sample_id 1), te_contract_id = ''radroots.trade.proposal.v1'',
      te_schema_version = 1, te_trade_id = sample_trade, te_root_mutation_id = None,
      te_buyer_pubkey = sample_id 10, te_seller_pubkey = sample_id 11, te_farm_id = DTag ''farm'',
      te_parent_mutation_ids = [], te_author_pubkey = sample_id 10, te_counterparty_pubkey = sample_id 11,
      te_authored_at_unix_s = 10, te_body = Proposal sample_candidate\<rparr>"

definition sample_acceptance ::
  "8 word \<Rightarrow> 8 word list \<Rightarrow> char \<Rightarrow> TradeMutationEnvelopeV1" where
  "sample_acceptance n parents c =
     \<lparr>te_mutation_id = Some (sample_id n), te_contract_id = ''radroots.trade.decision.v1'',
      te_schema_version = 1, te_trade_id = sample_trade, te_root_mutation_id = Some (sample_id 1),
      te_buyer_pubkey = sample_id 10, te_seller_pubkey = sample_id 11, te_farm_id = DTag ''farm'',
      te_parent_mutation_ids = map sample_id parents, te_author_pubkey = sample_id 11,
      te_counterparty_pubkey = sample_id 10, te_authored_at_unix_s = 20,
      te_body = Decision (sample_id 1) (sample_id 50) (Accepted (Some (sample_reservation (sample_hash c))))\<rparr>"

definition sample_record :: "TradeMutationEnvelopeV1 \<Rightarrow> RadrootsTradeMutationRecordV1" where
  "sample_record m = \<lparr>mr_transport_event_id = None, mr_mutation = m\<rparr>"

definition sample_input :: "TradeMutationEnvelopeV1 list \<Rightarrow> RadrootsTradeReductionInputV1" where
  "sample_input ms =
     \<lparr>ri_trade_id = sample_trade, ri_mutations = map sample_record ms, ri_private_terms = [],
      ri_attestations = [], ri_evidence_state = EvidenceComplete, ri_observed_at_unix_s = None\<rparr>"

section \<open>The sample is admitted\<close>

lemma sample_id_inject [simp]: "(sample_id a :: 'k id32) = sample_id b \<longleftrightarrow> a = b"
  by (auto simp: sample_id_def dest: arg_cong [where f = hd])

lemma sample_id_less [simp]: "(sample_id a :: 'k id32) < sample_id b \<longleftrightarrow> a < b"
proof -
  have "replicate 32 n = n # replicate 31 n" for n :: "8 word"
    by (simp add: numeral_eq_Suc)
  then show ?thesis by (auto simp: sample_id_def less_id32_def)
qed

lemma sample_hash_text: "\<not> isl (decode_hex_nibble c) \<Longrightarrow> hash_text (sample_hash c)"
  by (simp add: hash_text_def sample_hash_def list_all_iff)

lemma sample_texts:
  "filled ''mvp''" "filled ''USD''" "filled ''even''" "filled ''UTC''" "filled ''farm''"
  "filled ''pickup''" "filled ''carrots''" "filled ''count''" "filled ''line-1''"
  "decimal_text ''2''" "decimal_text ''500''" "decimal_text ''1000''" "decimal_text ''0''"
proof -
  show "filled ''mvp''" "filled ''USD''" "filled ''even''" "filled ''UTC''" "filled ''farm''"
    "filled ''pickup''" "filled ''carrots''" "filled ''count''" "filled ''line-1''"
    by code_simp+
  have "validate_decimal_string ''2'' [] = Inr ()" "validate_decimal_string ''500'' [] = Inr ()"
    "validate_decimal_string ''1000'' [] = Inr ()" "validate_decimal_string ''0'' [] = Inr ()"
    by code_simp+
  then show "decimal_text ''2''" "decimal_text ''500''" "decimal_text ''1000''" "decimal_text ''0''"
    by (simp_all only: validate_decimal_string_Inr)
qed

lemma sample_candidate_valid: "candidate_validate sample_candidate = Inr ()"
proof -
  have "hash_text (sample_hash (CHR ''d''))" by (rule sample_hash_text) code_simp
  then show ?thesis
    by (simp add: result_simps valid_candidate_def valid_line_def valid_economics_def increasing_keys_def
        sample_candidate_def sample_line_def sample_texts)
qed

lemma sample_reservation_valid:
  "\<not> isl (decode_hex_nibble c) \<Longrightarrow> reservation_validate (sample_reservation (sample_hash c)) = Inr ()"
  by (simp add: result_simps valid_reservation_def increasing_keys_def sample_reservation_def
      sample_texts sample_hash_text)

lemma sample_proposal_valid: "envelope_validate sample_proposal = Inr ()"
  using sample_candidate_valid
  by (simp add: envelope_validate_def mutation_kind_def sample_proposal_def RADROOTS_TRADE_SCHEMA_VERSION_def
      result_simps body_validate_def)

lemma sample_acceptance_valid:
  assumes "ps \<noteq> []" and "length ps \<le> 4" and "sorted_wrt (<) ps" and "n \<notin> set ps"
    and "\<not> isl (decode_hex_nibble c)"
  shows "envelope_validate (sample_acceptance n ps c) = Inr ()"
proof -
  have "sorted_wrt (<) (map sample_id ps :: MutationId list)" using assms(3) by (simp add: sorted_wrt_map)
  then have "validate_parent_mutation_ids (Some (sample_id n)) (map sample_id ps) = Inr ()"
    using assms(2,4) by (auto simp: result_simps list_all_iff)
  with assms(1) sample_reservation_valid [OF assms(5)] show ?thesis
    by (simp add: envelope_validate_def mutation_kind_def sample_acceptance_def RADROOTS_TRADE_SCHEMA_VERSION_def
        result_simps body_validate_def decision_validate_def)
qed

lemma sample_first_admitted:
  assumes "list_all (\<lambda>m. envelope_validate m = Inr () \<and> te_mutation_id m \<noteq> None \<and> te_schema_version m = 1
    \<and> te_trade_id m = sample_trade) ms"
  shows "first_admitted (sample_input ms) = map_of (map (\<lambda>m. (the (te_mutation_id m), m)) ms)"
proof -
  have "filter (admitted sample_trade) (map sample_record ms) = map sample_record ms"
    using assms by (auto simp: filter_id_conv list_all_iff admitted_def sample_record_def
        RADROOTS_TRADE_SCHEMA_VERSION_def)
  then show ?thesis
    by (simp add: first_admitted_def admitted_entries_def sample_input_def sample_record_def comp_def)
qed

section \<open>An agreed trade and a cycle\<close>

definition sample_agreed :: RadrootsTradeReductionInputV1 where
  "sample_agreed = sample_input [sample_proposal, sample_acceptance 2 [1] (CHR ''a'')]"

definition sample_claim :: RadrootsTradeAgreementClaimV1 where
  "sample_claim =
     \<lparr>gc_claim_mutation_id = sample_id 2, gc_proposal_mutation_id = sample_id 1,
      gc_candidate_id = sample_id 50, gc_candidate_author_pubkey = sample_id 10,
      gc_accepted_by_pubkey = sample_id 11, gc_reservation_commitment = sample_hash (CHR ''a'')\<rparr>"

text \<open>Two acceptances that name each other as a parent.\<close>

definition sample_cycle :: RadrootsTradeReductionInputV1 where
  "sample_cycle = sample_input [sample_proposal, sample_acceptance 2 [1, 3] (CHR ''a''),
     sample_acceptance 3 [1, 2] (CHR ''a'')]"

lemma sample_digit: "\<not> isl (decode_hex_nibble (CHR ''a''))"
  by code_simp

lemma sample_agreed_first:
  "first_admitted sample_agreed =
    [sample_id 1 \<mapsto> sample_proposal, sample_id 2 \<mapsto> sample_acceptance 2 [1] (CHR ''a'')]"
proof -
  have "envelope_validate (sample_acceptance 2 [1] (CHR ''a'')) = Inr ()"
    by (rule sample_acceptance_valid) (simp_all add: sample_digit)
  then show ?thesis
    unfolding sample_agreed_def
    by (subst sample_first_admitted)
      (simp_all add: sample_proposal_valid, auto simp: sample_proposal_def sample_acceptance_def)
qed

lemma sample_cycle_first:
  "first_admitted sample_cycle =
    [sample_id 1 \<mapsto> sample_proposal, sample_id 2 \<mapsto> sample_acceptance 2 [1, 3] (CHR ''a''),
     sample_id 3 \<mapsto> sample_acceptance 3 [1, 2] (CHR ''a'')]"
proof -
  have "envelope_validate (sample_acceptance 2 [1, 3] (CHR ''a'')) = Inr ()"
    "envelope_validate (sample_acceptance 3 [1, 2] (CHR ''a'')) = Inr ()"
    by (rule sample_acceptance_valid; simp add: sample_digit)+
  then show ?thesis
    unfolding sample_cycle_def
    by (subst sample_first_admitted)
      (simp_all add: sample_proposal_valid, auto simp: sample_proposal_def sample_acceptance_def)
qed

lemma sample_claim_backed: "backed (first_admitted sample_agreed) sample_claim"
  unfolding backed_def
  by (rule exI [of _ "sample_acceptance 2 [1] (CHR ''a'')"],
      rule exI [of _ sample_proposal], rule exI [of _ sample_candidate],
      rule exI [of _ "sample_reservation (sample_hash (CHR ''a''))"])
    (simp add: sample_agreed_first sample_claim_def sample_acceptance_def sample_proposal_def
      sample_candidate_def sample_reservation_def sample_line_def line_differs_def)

end
