(* ===== verification/Trade_Projection.thy ===== *)
theory Trade_Projection
  imports Trade_Samples
begin

text \<open>
  The properties of the trade reducer as a whole: when it returns, which claims and which
  agreement its projection holds, and that coherent evidence gives one projection in any order.
\<close>

section \<open>The shape of a reduction\<close>

lemma collected:
  fixes input :: RadrootsTradeReductionInputV1
  obtains mutations where
    "fold (collect_step (ri_trade_id input)) (ri_mutations input) (Projection_empty (ri_trade_id input), []) =
      (with_refusals (concat (map (refusal (ri_trade_id input)) (ri_mutations input)))
         (concat (map unsupported (ri_mutations input))) (Projection_empty (ri_trade_id input)), mutations)"
    and "bt_inv mutations" and "map_of mutations = first_admitted input"
proof -
  note fold = collect_fold [OF bt_inv_Nil, of "ri_trade_id input" "ri_mutations input"
      "Projection_empty (ri_trade_id input)"]
  show ?thesis
    by (rule that [of "snd (fold (collect_step (ri_trade_id input)) (ri_mutations input)
        (Projection_empty (ri_trade_id input), []))"])
      (use fold in \<open>auto simp: first_admitted_def intro!: prod_eqI\<close>)
qed

lemma projection_empty_view: "agreement_view (Projection_empty t) = (AgreementNone, [], [])"
  by (simp add: agreement_view_def Projection_empty_def)

text \<open>
  The run behind a result: the mutations collected, the candidates, cancellations and claims found
  in them, and the projections before and after the agreement is decided.
\<close>

lemma reduction_run:
  fixes input :: RadrootsTradeReductionInputV1
  obtains mutations candidates cancellations claims p where
    "bt_inv mutations" and "map_of mutations = first_admitted input"
    and "map_of candidates = candidates_in (first_admitted input)"
    and "bt_inv claims" and "map_of claims = claims_in (first_admitted input)"
    and "agreement_view p = (AgreementNone, map snd claims, [])"
    and "reduce_trade_records json_digest input =
      Option.bind (apply_agreement_state claims mutations candidates cancellations p) (\<lambda>p.
      let p = apply_negotiation_state candidates claims (ri_observed_at_unix_s input) p in
      Option.bind (private_terms_stage candidates claims (ri_private_terms input) p) (\<lambda>p.
      let p = p\<lparr>pj_attestations := ri_attestations input\<rparr>;
          p = p\<lparr>pj_attestation_state := reduce_attestation_state (pj_attestations p)\<rparr>;
          p = p\<lparr>pj_evidence_state := reduce_evidence_state p (ri_evidence_state input)\<rparr>
      in Some (finish json_digest p)))"
proof -
  obtain mutations where m: "fold (collect_step (ri_trade_id input)) (ri_mutations input)
        (Projection_empty (ri_trade_id input), []) =
      (with_refusals (concat (map (refusal (ri_trade_id input)) (ri_mutations input)))
         (concat (map unsupported (ri_mutations input))) (Projection_empty (ri_trade_id input)), mutations)"
      (is "_ = (?p0, _)")
    and inv: "bt_inv mutations" and first: "map_of mutations = first_admitted input"
    by (rule collected)
  obtain candidates cancellations claims p where d: "decide_stage mutations ?p0 =
      Some (candidates, cancellations, claims, p)"
    and c: "map_of candidates = candidates_in (map_of mutations)"
    and l: "bt_inv claims" "map_of claims = claims_in (map_of mutations)"
    and v: "agreement_view p = (pj_agreement_state ?p0, map snd claims, pj_active_agreement_claim_ids ?p0)"
    by (rule decide_stage_result [OF inv])
  have "agreement_view ?p0 = (AgreementNone, [], [])" by (simp add: projection_empty_view)
  then have "agreement_view p = (AgreementNone, map snd claims, [])"
    using v by (simp add: agreement_view_def)
  moreover have "reduce_trade_records json_digest input =
      Option.bind (apply_agreement_state claims mutations candidates cancellations p) (\<lambda>p.
      let p = apply_negotiation_state candidates claims (ri_observed_at_unix_s input) p in
      Option.bind (private_terms_stage candidates claims (ri_private_terms input) p) (\<lambda>p.
      let p = p\<lparr>pj_attestations := ri_attestations input\<rparr>;
          p = p\<lparr>pj_attestation_state := reduce_attestation_state (pj_attestations p)\<rparr>;
          p = p\<lparr>pj_evidence_state := reduce_evidence_state p (ri_evidence_state input)\<rparr>
      in Some (finish json_digest p)))"
    unfolding reduce_trade_records_def by (simp only: Let_def m d case_prod_conv bind.simps)
  ultimately show ?thesis using that inv first c l by (simp only: first)
qed

lemma claims_keys:
  assumes "bt_inv claims" and "map_of claims = claims_in first"
  shows "map gc_claim_mutation_id (map snd claims) = map fst claims"
    and "set (map snd claims) = {c. backed first c}"
proof -
  have entry: "e \<in> set claims \<longleftrightarrow> claims_in first (fst e) = Some (snd e)" for e
    using assms(2) bt_inv_distinct [OF assms(1)] by (cases e) (simp flip: assms(2))
  then show "map gc_claim_mutation_id (map snd claims) = map fst claims"
    by (auto simp: claims_in_Some)
  show "set (map snd claims) = {c. backed first c}"
  proof (rule set_eqI)
    fix c
    show "c \<in> set (map snd claims) \<longleftrightarrow> c \<in> {c. backed first c}"
    proof
      assume "c \<in> set (map snd claims)"
      then obtain e where "e \<in> set claims" "snd e = c" by auto
      then show "c \<in> {c. backed first c}" using entry [of e] by (simp add: claims_in_Some)
    next
      assume "c \<in> {c. backed first c}"
      then have "(gc_claim_mutation_id c, c) \<in> set claims"
        using entry [of "(gc_claim_mutation_id c, c)"] by (simp add: claims_in_Some)
      then show "c \<in> set (map snd claims)" by force
    qed
  qed
qed

lemma bt_inv_strict: "bt_inv m \<Longrightarrow> sorted_wrt (<) (map fst m)"
  by (simp add: bt_inv_def)

lemma reduction_result:
  assumes "reduce_trade_records json_digest input = Some q"
  obtains mutations claims where
    "map_of mutations = first_admitted input"
    and "bt_inv claims" and "map_of claims = claims_in (first_admitted input)"
    and "pj_agreement_claims q = map snd claims"
    and "pj_active_agreement_claim_ids q =
      filter (\<lambda>c. \<not> superseded mutations (fst ` set claims) c) (map fst claims)"
    and "claims = [] \<longrightarrow> pj_agreement_state q \<in> {AgreementNone, Cancelled}"
    and "claims \<noteq> [] \<longrightarrow> pj_agreement_state q \<noteq> AgreementNone"
    and "claims \<noteq> [] \<longrightarrow> pj_agreement_state q = Agreed \<longrightarrow>
      compatible_claims (List.map_filter (bt_get claims) (pj_active_agreement_claim_ids q)) = Some True"
proof -
  obtain mutations candidates cancellations claims p where first: "map_of mutations = first_admitted input"
    and l: "bt_inv claims" "map_of claims = claims_in (first_admitted input)"
    and v: "agreement_view p = (AgreementNone, map snd claims, [])"
    and red: "reduce_trade_records json_digest input =
      Option.bind (apply_agreement_state claims mutations candidates cancellations p) (\<lambda>p.
      let p = apply_negotiation_state candidates claims (ri_observed_at_unix_s input) p in
      Option.bind (private_terms_stage candidates claims (ri_private_terms input) p) (\<lambda>p.
      let p = p\<lparr>pj_attestations := ri_attestations input\<rparr>;
          p = p\<lparr>pj_attestation_state := reduce_attestation_state (pj_attestations p)\<rparr>;
          p = p\<lparr>pj_evidence_state := reduce_evidence_state p (ri_evidence_state input)\<rparr>
      in Some (finish json_digest p)))"
    by (rule reduction_run [of input json_digest]) blast
  obtain p1 p2 p3 where agr: "apply_agreement_state claims mutations candidates cancellations p = Some p1"
    and priv: "private_terms_stage candidates claims (ri_private_terms input)
      (apply_negotiation_state candidates claims (ri_observed_at_unix_s input) p1) = Some p2"
    and q: "q = finish json_digest p3" and p3: "agreement_view p3 = agreement_view p2"
    using assms unfolding red by (auto simp: bind_eq_Some_conv Let_def agreement_view_def)
  have view: "agreement_view p3 = agreement_view p1"
    using private_terms_stage_view [OF priv] p3 by simp
  let ?active = "filter (\<lambda>c. \<not> superseded mutations (fst ` set claims) c) (map fst claims)"
  have p1: "pj_agreement_claims p1 = map snd claims \<and> pj_active_agreement_claim_ids p1 = ?active
      \<and> (claims = [] \<longrightarrow> pj_agreement_state p1 \<in> {AgreementNone, Cancelled})"
  proof (cases "claims = []")
    case True
    then show ?thesis using agr v by (auto simp: apply_agreement_state_def agreement_view_def)
  next
    case False
    then show ?thesis using apply_agreement_state_result(1,2) [OF agr False] v by (simp add: agreement_view_def)
  qed
  have "sorted_wrt (<) ?active" using bt_inv_strict [OF l(1)] by (rule sorted_wrt_filter)
  then have dedup: "sort_dedup ?active = ?active" by (rule sort_dedup_id)
  have "sorted (map gc_claim_mutation_id (map snd claims))"
    unfolding claims_keys(1) [OF l] using bt_inv_strict [OF l(1)] by (simp add: strict_sorted_iff)
  then have claims: "sort_key gc_claim_mutation_id (map snd claims) = map snd claims"
    by (rule sort_key_id_if_sorted)
  have "pj_agreement_state p3 = pj_agreement_state p1" "pj_agreement_claims p3 = map snd claims"
    "pj_active_agreement_claim_ids p3 = ?active"
    using view p1 by (simp_all add: agreement_view_def)
  then have "agreement_view q = (pj_agreement_state p1, map snd claims, ?active)"
    unfolding q finish_view by (simp only: dedup claims)
  then have fields: "pj_agreement_state q = pj_agreement_state p1" "pj_agreement_claims q = map snd claims"
    "pj_active_agreement_claim_ids q = ?active"
    by (simp_all add: agreement_view_def)
  show ?thesis
  proof (rule that [OF first l fields(2,3)])
    show "claims = [] \<longrightarrow> pj_agreement_state q \<in> {AgreementNone, Cancelled}" using p1 fields(1) by simp
    show "claims \<noteq> [] \<longrightarrow> pj_agreement_state q \<noteq> AgreementNone"
      using apply_agreement_state_result(3) [OF agr] fields(1) by simp
    show "claims \<noteq> [] \<longrightarrow> pj_agreement_state q = Agreed \<longrightarrow>
        compatible_claims (List.map_filter (bt_get claims) (pj_active_agreement_claim_ids q)) = Some True"
      using apply_agreement_state_result(4) [OF agr] p1 fields by simp
  qed
qed

section \<open>Returning\<close>

lemma finite_parents: "finite (parents_in (map_of mutations))"
proof -
  have "parents_in (map_of mutations) \<subseteq>
      (\<Union>(m, e)\<in>set mutations. set (te_parent_mutation_ids e) \<times> {m})"
    by (auto simp: parents_in_def dest!: map_of_SomeD)
  then show ?thesis by (rule finite_subset) auto
qed

lemma acyclic_grounded: "acyclic (parents_in (map_of mutations)) \<Longrightarrow> grounded mutations = UNIV"
proof -
  assume "acyclic (parents_in (map_of mutations))"
  then have "wf (parents_in (map_of mutations))" by (rule finite_acyclic_wf [OF finite_parents])
  then have "m \<in> grounded mutations" for m by (rule acc_wfD)
  then show ?thesis by (simp add: set_eq_iff)
qed

lemma reduction_returns:
  assumes "acyclic (parents_in (first_admitted input))"
  shows "\<exists>p. reduce_trade_records json_digest input = Some p"
proof -
  obtain mutations candidates cancellations claims p where
    first: "map_of mutations = first_admitted input"
    and c: "map_of candidates = candidates_in (first_admitted input)"
    and l: "bt_inv claims" "map_of claims = claims_in (first_admitted input)"
    and v: "agreement_view p = (AgreementNone, map snd claims, [])"
    and red: "reduce_trade_records json_digest input =
      Option.bind (apply_agreement_state claims mutations candidates cancellations p) (\<lambda>p.
      let p = apply_negotiation_state candidates claims (ri_observed_at_unix_s input) p in
      Option.bind (private_terms_stage candidates claims (ri_private_terms input) p) (\<lambda>p.
      let p = p\<lparr>pj_attestations := ri_attestations input\<rparr>;
          p = p\<lparr>pj_attestation_state := reduce_attestation_state (pj_attestations p)\<rparr>;
          p = p\<lparr>pj_evidence_state := reduce_evidence_state p (ri_evidence_state input)\<rparr>
      in Some (finish json_digest p)))"
    by (rule reduction_run [of input json_digest]) blast
  have "grounded mutations = UNIV" using assms by (intro acyclic_grounded) (simp add: first)
  then obtain p1 where agr: "apply_agreement_state claims mutations candidates cancellations p = Some p1"
    using apply_agreement_state_returns [of claims mutations] by blast
  have p1: "set (pj_agreement_claims p1) = {c. backed (first_admitted input) c}
      \<and> set (pj_active_agreement_claim_ids p1) \<subseteq> fst ` set claims"
  proof (cases "claims = []")
    case True
    have "pj_agreement_claims p1 = map snd claims" "pj_active_agreement_claim_ids p1 = []"
      using agr v True by (auto simp: apply_agreement_state_def agreement_view_def)
    then show ?thesis using claims_keys(2) [OF l] by simp
  next
    case False
    have "pj_agreement_claims p1 = map snd claims"
      using apply_agreement_state_result(1) [OF agr False] v by (simp add: agreement_view_def)
    then show ?thesis
      using claims_keys(2) [OF l] apply_agreement_state_result(2) [OF agr False] by auto
  qed
  let ?p2 = "apply_negotiation_state candidates claims (ri_observed_at_unix_s input) p1"
  have view: "pj_agreement_claims ?p2 = pj_agreement_claims p1"
    "pj_active_agreement_claim_ids ?p2 = pj_active_agreement_claim_ids p1"
    by (simp_all add: apply_negotiation_state_def)
  have "\<exists>p3. private_terms_stage candidates claims (ri_private_terms input) ?p2 = Some p3"
  proof (rule private_terms_stage_returns)
    fix x assume "x \<in> set (pj_agreement_claims ?p2)"
    then have "backed (first_admitted input) x" using p1 by (simp add: view)
    then show "map_of candidates (gc_proposal_mutation_id x) \<noteq> None" unfolding c by (rule backed_proposal)
  next
    fix k assume "k \<in> set (pj_active_agreement_claim_ids ?p2)"
    then have "k \<in> fst ` set claims" using p1 by (auto simp: view)
    then show "map_of claims k \<noteq> None" by (simp add: map_of_eq_None_iff)
  qed
  then show ?thesis unfolding red by (auto simp: agr Let_def)
qed

text \<open>C6: the reduction returns on every input whose admitted mutations have no cycle of parents.
  No failure of its internal expectations is possible: a unique root is found among the collected
  mutations, some claim is not superseded whenever there is a claim, and every claim's proposal
  and every active claim is indexed.\<close>

theorem reduce_returns:
  assumes "acyclic (parents_in (first_admitted input))"
  shows "\<exists>p. reduce_trade_records json_digest input = Some p"
  using assms by (rule reduction_returns)

lemma sample_agreed_acyclic: "acyclic (parents_in (first_admitted sample_agreed))"
proof (rule acyclicI_order [where f = "\<lambda>m. if m = sample_id 1 then 1 else (0 :: nat)"])
  fix a m
  assume "(a, m) \<in> parents_in (first_admitted sample_agreed)"
  then have "a = sample_id 1 \<and> m = sample_id 2"
    by (auto simp: parents_in_def sample_agreed_first sample_proposal_def sample_acceptance_def split: if_splits)
  then show "(if m = sample_id 1 then 1 else (0 :: nat)) < (if a = sample_id 1 then 1 else 0)" by simp
qed

theorem reduce_returns_witness: "\<exists>p. reduce_trade_records no_json_digest sample_agreed = Some p"
  by (rule reduce_returns [OF sample_agreed_acyclic])

text \<open>The sample evaluated: one active claim and an agreement.\<close>

lemma sample_agreed_reduces:
  obtains p where "reduce_trade_records no_json_digest sample_agreed = Some p"
    and "pj_agreement_state p = Agreed" and "pj_agreement_claims p = [sample_claim]"
    and "pj_active_agreement_claim_ids p = [sample_id 2]"
proof -
  have "map_option (\<lambda>p. (pj_agreement_state p, pj_agreement_claims p, pj_active_agreement_claim_ids p))
      (reduce_trade_records no_json_digest sample_agreed) = Some (Agreed, [sample_claim], [sample_id 2])"
    by code_simp
  then show ?thesis using that by auto
qed

section \<open>Not returning\<close>

lemma second_claim_diverges:
  assumes "k' \<noteq> k" and "k' \<notin> grounded mutations"
  shows "non_dominated_claim_ids ((k, c) # (k', c') # claims) mutations = None"
  using assms ancestors_of_diverges by (simp add: non_dominated_claim_ids_def)

text \<open>C23: where two different claims are backed and no backed claim has a chain of parents that ends,
  as when two valid acceptances name each other as parents, the reduction does not return: the
  search for ancestors marks a mutation only after its parents.\<close>

theorem reduce_cycle_diverges:
  assumes "backed (first_admitted input) c" and "backed (first_admitted input) d" and "c \<noteq> d"
    and "\<And>c. backed (first_admitted input) c \<Longrightarrow>
      gc_claim_mutation_id c \<notin> Wellfounded.acc (parents_in (first_admitted input))"
  shows "reduce_trade_records json_digest input = None"
proof -
  obtain mutations candidates cancellations claims p where
    first: "map_of mutations = first_admitted input"
    and l: "bt_inv claims" "map_of claims = claims_in (first_admitted input)"
    and red: "reduce_trade_records json_digest input =
      Option.bind (apply_agreement_state claims mutations candidates cancellations p) (\<lambda>p.
      let p = apply_negotiation_state candidates claims (ri_observed_at_unix_s input) p in
      Option.bind (private_terms_stage candidates claims (ri_private_terms input) p) (\<lambda>p.
      let p = p\<lparr>pj_attestations := ri_attestations input\<rparr>;
          p = p\<lparr>pj_attestation_state := reduce_attestation_state (pj_attestations p)\<rparr>;
          p = p\<lparr>pj_evidence_state := reduce_evidence_state p (ri_evidence_state input)\<rparr>
      in Some (finish json_digest p)))"
    by (rule reduction_run [of input json_digest]) blast
  note keys = claims_keys [OF l]
  have "c \<in> set (map snd claims)" "d \<in> set (map snd claims)" using assms(1,2) by (simp_all only: keys(2) mem_Collect_eq)
  then have "\<not> length claims \<le> 1" using assms(3) by (cases claims rule: list.exhaust) (auto simp: le_Suc_eq)
  then obtain e1 e2 rest where shape: "claims = e1 # e2 # rest"
    by (metis One_nat_def length_Cons list.exhaust list.size(3) nat_le_linear not_less_eq_eq zero_le)
  have "sorted_wrt (<) (map fst claims)" by (rule bt_inv_strict [OF l(1)])
  then have "fst e2 \<noteq> fst e1" by (auto simp: shape)
  moreover have "backed (first_admitted input) (snd e2)" "gc_claim_mutation_id (snd e2) = fst e2"
    using keys by (auto simp: shape)
  then have "fst e2 \<notin> grounded mutations" using assms(4) [of "snd e2"] by (simp add: first)
  ultimately have "non_dominated_claim_ids claims mutations = None"
    using second_claim_diverges [of "fst e2" "fst e1" mutations "snd e1" "snd e2" rest] by (simp add: shape)
  then show ?thesis unfolding red by (simp add: apply_agreement_state_def shape)
qed

lemma cycle_not_grounded:
  assumes "\<And>x. x \<in> U \<Longrightarrow> \<exists>y\<in>U. (y, x) \<in> r" and "x \<in> U"
  shows "x \<notin> Wellfounded.acc r"
proof
  assume "x \<in> Wellfounded.acc r"
  then show False using assms(2)
  proof (induction rule: acc.induct)
    case (accI x)
    with assms(1) show ?case by blast
  qed
qed

lemma sample_cycle_parents:
  assumes "m \<in> {sample_id 2, sample_id 3}"
  shows "\<exists>a\<in>{sample_id 2, sample_id 3}. (a, m) \<in> parents_in (first_admitted sample_cycle)"
proof -
  have "(sample_id 3, sample_id 2) \<in> parents_in (first_admitted sample_cycle)"
    "(sample_id 2, sample_id 3) \<in> parents_in (first_admitted sample_cycle)"
    by (simp_all add: parents_in_def sample_cycle_first sample_acceptance_def)
  with assms show ?thesis by blast
qed

lemma sample_cycle_claims:
  assumes "backed (first_admitted sample_cycle) c"
  shows "gc_claim_mutation_id c \<notin> Wellfounded.acc (parents_in (first_admitted sample_cycle))"
proof (rule cycle_not_grounded [OF sample_cycle_parents])
  obtain m dec where "first_admitted sample_cycle (gc_claim_mutation_id c) = Some m"
    and "body_decision (te_body m) = Some dec"
    using assms unfolding backed_def by blast
  then show "gc_claim_mutation_id c \<in> {sample_id 2, sample_id 3}"
    by (auto simp: sample_cycle_first sample_proposal_def split: if_splits)
qed

lemma sample_cycle_backed:
  "n \<in> {2, 3} \<Longrightarrow> backed (first_admitted sample_cycle) (sample_claim\<lparr>gc_claim_mutation_id := sample_id n\<rparr>)"
  unfolding backed_def
  by (rule exI [of _ "if n = 2 then sample_acceptance 2 [1, 3] (CHR ''a'') else sample_acceptance 3 [1, 2] (CHR ''a'')"],
      rule exI [of _ sample_proposal], rule exI [of _ sample_candidate],
      rule exI [of _ "sample_reservation (sample_hash (CHR ''a''))"])
    (auto simp: sample_cycle_first sample_claim_def sample_acceptance_def sample_proposal_def
      sample_candidate_def sample_reservation_def sample_line_def line_differs_def)

theorem reduce_cycle_diverges_witness: "reduce_trade_records no_json_digest sample_cycle = None"
proof (rule reduce_cycle_diverges)
  show "backed (first_admitted sample_cycle) (sample_claim\<lparr>gc_claim_mutation_id := sample_id 2\<rparr>)"
    and "backed (first_admitted sample_cycle) (sample_claim\<lparr>gc_claim_mutation_id := sample_id 3\<rparr>)"
    by (rule sample_cycle_backed; simp)+
  show "sample_claim\<lparr>gc_claim_mutation_id := sample_id 2\<rparr> \<noteq> sample_claim\<lparr>gc_claim_mutation_id := sample_id 3\<rparr>"
    by (simp add: sample_claim_def)
qed (rule sample_cycle_claims)

section \<open>Claims and agreement\<close>

lemma reduction_claims:
  assumes "reduce_trade_records json_digest input = Some p"
  shows "set (pj_agreement_claims p) = {c. backed (first_admitted input) c}"
proof -
  obtain mutations claims where "bt_inv claims" "map_of claims = claims_in (first_admitted input)"
    and claims: "pj_agreement_claims p = map snd claims"
    by (rule reduction_result [OF assms])
  from claims_keys(2) [OF this(1,2)] show ?thesis by (simp only: claims)
qed

text \<open>C3: the claims of a projection are exactly the backed ones, listed by increasing mutation
  identifier: an admitted decision that accepts, with a reservation, the candidate of an admitted
  proposal, written by the party opposite to the proposal's author, whose reservation names that
  candidate and its seller and repeats its lines one by one. The active claims are exactly those
  that no other claim has among its ancestors.\<close>

theorem reduce_claims_exact:
  assumes "reduce_trade_records json_digest input = Some p"
  shows "set (pj_agreement_claims p) = {c. backed (first_admitted input) c}
    \<and> sorted_wrt (<) (map gc_claim_mutation_id (pj_agreement_claims p))
    \<and> set (pj_active_agreement_claim_ids p) =
        {gc_claim_mutation_id c |c. backed (first_admitted input) c
          \<and> (\<forall>d. backed (first_admitted input) d \<and> d \<noteq> c \<longrightarrow>
               (gc_claim_mutation_id c, gc_claim_mutation_id d) \<notin> (parents_in (first_admitted input))\<^sup>+)}"
proof -
  obtain mutations claims where first: "map_of mutations = first_admitted input"
    and l: "bt_inv claims" "map_of claims = claims_in (first_admitted input)"
    and claims: "pj_agreement_claims p = map snd claims"
    and active: "pj_active_agreement_claim_ids p =
      filter (\<lambda>c. \<not> superseded mutations (fst ` set claims) c) (map fst claims)"
    by (rule reduction_result [OF assms])
  note keys = claims_keys [OF l]
  have ids: "fst ` set claims = gc_claim_mutation_id ` {c. backed (first_admitted input) c}"
    using arg_cong [OF keys(1), of set] keys(2) by (simp only: set_map)
  have same: "d = c" if "backed (first_admitted input) c" "backed (first_admitted input) d"
    "gc_claim_mutation_id d = gc_claim_mutation_id c" for c d
    using backed_claims_in [OF that(1)] backed_claims_in [OF that(2)] that(3) by simp
  have "superseded mutations (fst ` set claims) (gc_claim_mutation_id c) \<longleftrightarrow>
      (\<exists>d. backed (first_admitted input) d \<and> d \<noteq> c \<and>
        (gc_claim_mutation_id c, gc_claim_mutation_id d) \<in> (parents_in (first_admitted input))\<^sup>+)"
    if "backed (first_admitted input) c" for c
    unfolding superseded_def ids ancestors_def first using same [OF that] by blast
  then have "set (pj_active_agreement_claim_ids p) =
      {gc_claim_mutation_id c |c. backed (first_admitted input) c
        \<and> (\<forall>d. backed (first_admitted input) d \<and> d \<noteq> c \<longrightarrow>
             (gc_claim_mutation_id c, gc_claim_mutation_id d) \<notin> (parents_in (first_admitted input))\<^sup>+)}"
    unfolding active set_filter set_map ids by blast
  moreover have "sorted_wrt (<) (map gc_claim_mutation_id (map snd claims))"
    unfolding keys(1) by (rule bt_inv_strict [OF l(1)])
  ultimately show ?thesis using keys(2) by (simp only: claims simp_thms)
qed

theorem reduce_claims_exact_witness:
  "\<exists>p. reduce_trade_records no_json_digest sample_agreed = Some p
    \<and> pj_active_agreement_claim_ids p = [sample_id 2]
    \<and> {c. backed (first_admitted sample_agreed) c} = {sample_claim}"
proof -
  obtain p where p: "reduce_trade_records no_json_digest sample_agreed = Some p"
    and claims: "pj_agreement_claims p = [sample_claim]"
    and active: "pj_active_agreement_claim_ids p = [sample_id 2]"
    by (rule sample_agreed_reduces)
  have "set (pj_agreement_claims p) = {c. backed (first_admitted sample_agreed) c}"
    using reduce_claims_exact [OF p] by blast
  with p active show ?thesis by (auto simp: claims)
qed

lemma compatible_claims_True:
  assumes "compatible_claims cs = Some True"
  shows "cs \<noteq> []" and "c \<in> set cs \<Longrightarrow> d \<in> set cs \<Longrightarrow>
    gc_candidate_id c = gc_candidate_id d \<and> gc_reservation_commitment c = gc_reservation_commitment d"
  using assms by (auto simp: compatible_claims_def list_all_iff split: list.splits)

text \<open>C4: a projection is agreed only on one deal: it then has an active claim, and all its active
  claims are backed, accept the same candidate and carry the same reservation commitment. A
  projection without an agreement state has no backed claim, and without a backed claim it is
  without an agreement state or cancelled.\<close>

theorem reduce_agreed_one_deal:
  assumes "reduce_trade_records json_digest input = Some p"
  shows "(pj_agreement_state p = Agreed \<longrightarrow>
      (\<exists>candidate commitment. pj_active_agreement_claim_ids p \<noteq> []
        \<and> (\<forall>k\<in>set (pj_active_agreement_claim_ids p).
             \<exists>c. backed (first_admitted input) c \<and> gc_claim_mutation_id c = k
               \<and> gc_candidate_id c = candidate \<and> gc_reservation_commitment c = commitment)))
    \<and> (pj_agreement_state p = AgreementNone \<longrightarrow> (\<nexists>c. backed (first_admitted input) c))
    \<and> ((\<nexists>c. backed (first_admitted input) c) \<longrightarrow> pj_agreement_state p \<in> {AgreementNone, Cancelled})"
proof -
  obtain mutations claims where l: "bt_inv claims" "map_of claims = claims_in (first_admitted input)"
    and active: "pj_active_agreement_claim_ids p =
      filter (\<lambda>c. \<not> superseded mutations (fst ` set claims) c) (map fst claims)"
    and none: "claims = [] \<longrightarrow> pj_agreement_state p \<in> {AgreementNone, Cancelled}"
    and some: "claims \<noteq> [] \<longrightarrow> pj_agreement_state p \<noteq> AgreementNone"
    and agreed: "claims \<noteq> [] \<longrightarrow> pj_agreement_state p = Agreed \<longrightarrow>
      compatible_claims (List.map_filter (bt_get claims) (pj_active_agreement_claim_ids p)) = Some True"
    by (rule reduction_result [OF assms])
  have empty: "claims = [] \<longleftrightarrow> (\<nexists>c. backed (first_admitted input) c)"
    using claims_keys(2) [OF l] by (cases claims) auto
  have "\<exists>candidate commitment. pj_active_agreement_claim_ids p \<noteq> []
      \<and> (\<forall>k\<in>set (pj_active_agreement_claim_ids p).
           \<exists>c. backed (first_admitted input) c \<and> gc_claim_mutation_id c = k
             \<and> gc_candidate_id c = candidate \<and> gc_reservation_commitment c = commitment)"
    if "pj_agreement_state p = Agreed"
  proof -
    have "claims \<noteq> []" using none that by auto
    then have compat: "compatible_claims
        (List.map_filter (bt_get claims) (pj_active_agreement_claim_ids p)) = Some True" (is "compatible_claims ?cs = _")
      using agreed that by blast
    note one = compatible_claims_True [OF compat]
    then obtain d where d: "d \<in> set ?cs" by (meson list.set_sel(1))
    have "\<exists>c. backed (first_admitted input) c \<and> gc_claim_mutation_id c = k
        \<and> gc_candidate_id c = gc_candidate_id d \<and> gc_reservation_commitment c = gc_reservation_commitment d"
      if k: "k \<in> set (pj_active_agreement_claim_ids p)" for k
    proof -
      have "k \<in> fst ` set claims" using k by (simp add: active)
      then obtain c where c: "map_of claims k = Some c" by (metis map_of_eq_None_iff not_Some_eq)
      then have "c \<in> set ?cs" using k by (force simp: List.map_filter_def)
      with one(2) [OF this d] c claims_in_backed show ?thesis by (auto simp: l(2))
    qed
    moreover have "pj_active_agreement_claim_ids p \<noteq> []" using one(1) by (auto simp: List.map_filter_def)
    ultimately show ?thesis by blast
  qed
  with none some empty show ?thesis by blast
qed

theorem reduce_agreed_one_deal_witness:
  "\<exists>p. reduce_trade_records no_json_digest sample_agreed = Some p \<and> pj_agreement_state p = Agreed
    \<and> (\<exists>c. backed (first_admitted sample_agreed) c \<and> gc_claim_mutation_id c = sample_id 2)"
proof -
  obtain p where p: "reduce_trade_records no_json_digest sample_agreed = Some p"
    and state: "pj_agreement_state p = Agreed" and active: "pj_active_agreement_claim_ids p = [sample_id 2]"
    by (rule sample_agreed_reduces)
  have "\<exists>c. backed (first_admitted sample_agreed) c \<and> gc_claim_mutation_id c = sample_id 2"
    using reduce_agreed_one_deal [OF p] state active by auto
  with p state show ?thesis by blast
qed

end
