(* ===== verification/Trade_Confluence.thy ===== *)
theory Trade_Confluence
  imports Trade_Projection
begin

text \<open>
  The order in which evidence is supplied does not matter: two runs of the trade reducer over the
  same coherent records stay related, their projections differing only in the order and
  multiplicity of the issues and unsupported identifiers collected so far, until the final
  sorting makes them equal. Records that share an identifier without sharing their content fall outside
  this: the first of them counts.
\<close>

section \<open>Related projections\<close>

definition related :: "RadrootsTradeProjectionV1 \<Rightarrow> RadrootsTradeProjectionV1 \<Rightarrow> bool" where
  "related p q \<longleftrightarrow>
     (\<exists>issues ids. q = p\<lparr>pj_issues := issues, pj_unsupported_mutation_ids := ids\<rparr>
       \<and> set issues = set (pj_issues p) \<and> set ids = set (pj_unsupported_mutation_ids p))"

lemma relatedE:
  assumes "related p q"
  obtains issues ids where "q = p\<lparr>pj_issues := issues, pj_unsupported_mutation_ids := ids\<rparr>"
    and "set issues = set (pj_issues p)" and "set ids = set (pj_unsupported_mutation_ids p)"
  using assms unfolding related_def by blast

lemma related_refl: "related p p"
  unfolding related_def by (rule exI [of _ "pj_issues p"], rule exI [of _ "pj_unsupported_mutation_ids p"]) simp

lemma related_push_issue: "related p q \<Longrightarrow> related (push_issue i p) (push_issue i q)"
proof (erule relatedE)
  fix issues ids
  assume "q = p\<lparr>pj_issues := issues, pj_unsupported_mutation_ids := ids\<rparr>"
    and "set issues = set (pj_issues p)" and "set ids = set (pj_unsupported_mutation_ids p)"
  then show ?thesis
    unfolding related_def
    by (intro exI [of _ "issues @ [i]"] exI [of _ ids]) (simp add: push_issue_def)
qed

text \<open>An update that neither reads nor writes the two fields keeps projections related.\<close>

lemma related_update:
  assumes "related p q"
    and "\<And>issues ids. f (p\<lparr>pj_issues := issues, pj_unsupported_mutation_ids := ids\<rparr>) =
      (f p)\<lparr>pj_issues := issues, pj_unsupported_mutation_ids := ids\<rparr>"
    and "pj_issues (f p) = pj_issues p" and "pj_unsupported_mutation_ids (f p) = pj_unsupported_mutation_ids p"
  shows "related (f p) (f q)"
  using assms(1)
proof (rule relatedE)
  fix issues ids
  assume "q = p\<lparr>pj_issues := issues, pj_unsupported_mutation_ids := ids\<rparr>"
    and "set issues = set (pj_issues p)" and "set ids = set (pj_unsupported_mutation_ids p)"
  then show ?thesis
    unfolding related_def assms(3,4)
    by (intro exI [of _ issues] exI [of _ ids]) (simp add: assms(2))
qed

lemma related_set_conflict: "related p q \<Longrightarrow> related (set_conflict c p) (set_conflict c q)"
  by (rule related_update) (simp_all add: set_conflict_def)

lemma related_missing_parent:
  "related p q \<Longrightarrow> related (p\<lparr>pj_missing_parent_ids := pj_missing_parent_ids p @ [m]\<rparr>)
    (q\<lparr>pj_missing_parent_ids := pj_missing_parent_ids q @ [m]\<rparr>)"
  by (rule related_update) simp_all

lemma related_missing_proposal:
  "related p q \<Longrightarrow> related (p\<lparr>pj_missing_proposal_ids := pj_missing_proposal_ids p @ [m]\<rparr>)
    (q\<lparr>pj_missing_proposal_ids := pj_missing_proposal_ids q @ [m]\<rparr>)"
  by (rule related_update) simp_all

lemmas related_intros =
  related_push_issue related_set_conflict related_missing_parent related_missing_proposal

section \<open>The stages keep projections related\<close>

lemma related_parent_fold:
  assumes "related (ix_projection ix) q"
  shows "\<exists>q'. fold (parent_step ms k) ps (ix\<lparr>ix_projection := q\<rparr>) =
      (fold (parent_step ms k) ps ix)\<lparr>ix_projection := q'\<rparr>
    \<and> related (ix_projection (fold (parent_step ms k) ps ix)) q'"
  using assms
proof (induction ps arbitrary: ix q)
  case Nil
  then show ?case by (intro exI [of _ q]) simp
next
  case (Cons m ps)
  define q' where "q' = (if bt_get ms m = None then push_issue (MissingParent k m)
    (q\<lparr>pj_missing_parent_ids := pj_missing_parent_ids q @ [m]\<rparr>) else q)"
  have step: "parent_step ms k m (ix\<lparr>ix_projection := q\<rparr>) = (parent_step ms k m ix)\<lparr>ix_projection := q'\<rparr>"
    by (simp add: parent_step_def q'_def Let_def)
  have "related (ix_projection (parent_step ms k m ix)) q'"
    using Cons.prems by (auto simp: parent_step_def q'_def Let_def intro!: related_intros)
  from Cons.IH [OF this] show ?case by (simp only: fold_simps step)
qed

lemma related_index_step:
  assumes "related (ix_projection ix) q"
  shows "\<exists>q'. index_step ms e (ix\<lparr>ix_projection := q\<rparr>) = (index_step ms e ix)\<lparr>ix_projection := q'\<rparr>
    \<and> related (ix_projection (index_step ms e ix)) q'"
proof -
  obtain k m where e: "e = (k, m)" by (cases e)
  define rooted where "rooted = (\<lambda>ix :: index_state. case te_body m of
      Proposal _ \<Rightarrow> ix\<lparr>ix_root_proposals := ix_root_proposals ix @ [k]\<rparr> | _ \<Rightarrow> ix)"
  have rooted: "rooted (ix\<lparr>ix_projection := q\<rparr>) = (rooted ix)\<lparr>ix_projection := q\<rparr>" "ix_projection (rooted ix) = ix_projection ix"
    by (simp_all add: rooted_def split: TradeMutationBodyV1.split)
  obtain q' where q': "fold (parent_step ms k) (te_parent_mutation_ids m) ((rooted ix)\<lparr>ix_projection := q\<rparr>) =
      (fold (parent_step ms k) (te_parent_mutation_ids m) (rooted ix))\<lparr>ix_projection := q'\<rparr>"
    and rel: "related (ix_projection (fold (parent_step ms k) (te_parent_mutation_ids m) (rooted ix))) q'"
    using related_parent_fold [of "rooted ix" q ms k "te_parent_mutation_ids m"] assms rooted(2) by auto
  have body: "index_body k m (x\<lparr>ix_projection := y\<rparr>) = (index_body k m x)\<lparr>ix_projection := y\<rparr>"
    "ix_projection (index_body k m x) = ix_projection x" for x y
    by (simp_all add: index_body_def Let_def split: TradeMutationBodyV1.split)
  have split: "index_step ms e x = index_body k m (fold (parent_step ms k) (te_parent_mutation_ids m) (rooted x))" for x
    by (simp only: index_step_def e Let_def case_prod_conv rooted_def)
  show ?thesis
    by (rule exI [of _ q']) (simp only: split rooted(1) q' body rel simp_thms)
qed

lemma related_index_fold:
  assumes "related (ix_projection ix) q"
  shows "\<exists>q'. fold (index_step ms) kvs (ix\<lparr>ix_projection := q\<rparr>) =
      (fold (index_step ms) kvs ix)\<lparr>ix_projection := q'\<rparr>
    \<and> related (ix_projection (fold (index_step ms) kvs ix)) q'"
  using assms
proof (induction kvs arbitrary: ix q)
  case Nil
  then show ?case by (intro exI [of _ q]) simp
next
  case (Cons e kvs)
  obtain q1 where "index_step ms e (ix\<lparr>ix_projection := q\<rparr>) = (index_step ms e ix)\<lparr>ix_projection := q1\<rparr>"
    and "related (ix_projection (index_step ms e ix)) q1"
    using related_index_step [OF Cons.prems] by blast
  with Cons.IH show ?case by simp
qed

lemma related_validate_reservation:
  "related p q \<Longrightarrow>
    related (snd (validate_reservation d cid c r p)) (snd (validate_reservation d cid c r q))"
  by (auto simp: validate_reservation_def Let_def intro!: related_intros)

lemma related_apply_decision:
  "related p q \<Longrightarrow>
    related (snd (apply_decision k m w cid d candidates (claims, p)))
      (snd (apply_decision k m w cid d candidates (claims, q)))"
  by (auto simp: apply_decision_def Let_def case_prod_beta split: option.split TradeDecisionV1.split
      intro!: related_intros related_validate_reservation)

lemma decision_step_decided:
  assumes "body_decision (te_body m) = Some (w, cid, d)"
  shows "decision_step candidates (k, m) ds =
    \<lparr>ds_decisions = bt_insert w ((case bt_get (ds_decisions ds) w of Some ids \<Rightarrow> ids | None \<Rightarrow> []) @ [k]) (ds_decisions ds),
     ds_claims = fst (apply_decision k m w cid d candidates (ds_claims ds, ds_projection ds)),
     ds_projection = snd (apply_decision k m w cid d candidates (ds_claims ds, ds_projection ds))\<rparr>"
  by (simp add: decision_step_def assms Let_def case_prod_beta)

lemma related_decision_step:
  assumes "related (ds_projection ds) q"
  shows "\<exists>q'. decision_step candidates e (ds\<lparr>ds_projection := q\<rparr>) =
      (decision_step candidates e ds)\<lparr>ds_projection := q'\<rparr>
    \<and> related (ds_projection (decision_step candidates e ds)) q'"
proof -
  obtain k m where e: "e = (k, m)" by (cases e)
  show ?thesis
  proof (cases "body_decision (te_body m)")
    case None
    then show ?thesis using assms by (intro exI [of _ q]) (simp add: decision_step_def e)
  next
    case (Some dec)
    obtain w cid d where dec: "body_decision (te_body m) = Some (w, cid, d)" using Some by (cases dec) auto
    have "fst (apply_decision k m w cid d candidates (ds_claims ds, q)) =
        fst (apply_decision k m w cid d candidates (ds_claims ds, ds_projection ds))"
      by (simp add: apply_decision_claims [OF dec])
    then show ?thesis
      using related_apply_decision [OF assms, of k m w cid d candidates "ds_claims ds"]
      by (intro exI [of _ "snd (apply_decision k m w cid d candidates (ds_claims ds, q))"])
        (simp add: e decision_step_decided [OF dec])
  qed
qed

lemma related_decision_fold:
  assumes "related (ds_projection ds) q"
  shows "\<exists>q'. fold (decision_step candidates) kvs (ds\<lparr>ds_projection := q\<rparr>) =
      (fold (decision_step candidates) kvs ds)\<lparr>ds_projection := q'\<rparr>
    \<and> related (ds_projection (fold (decision_step candidates) kvs ds)) q'"
  using assms
proof (induction kvs arbitrary: ds q)
  case Nil
  then show ?case by (intro exI [of _ q]) simp
next
  case (Cons e kvs)
  obtain q1 where "decision_step candidates e (ds\<lparr>ds_projection := q\<rparr>) =
      (decision_step candidates e ds)\<lparr>ds_projection := q1\<rparr>"
    and "related (ds_projection (decision_step candidates e ds)) q1"
    using related_decision_step [OF Cons.prems] by blast
  with Cons.IH show ?case by simp
qed

lemma related_select_root:
  assumes "related p q"
  shows "rel_option related (select_root ms roots p) (select_root ms roots q)"
proof -
  have "related (p\<lparr>pj_root_mutation_id := a, pj_buyer_pubkey := b, pj_seller_pubkey := c, pj_farm_id := d\<rparr>)
      (q\<lparr>pj_root_mutation_id := a, pj_buyer_pubkey := b, pj_seller_pubkey := c, pj_farm_id := d\<rparr>)" for a b c d
    using assms by (rule related_update) simp_all
  with assms show ?thesis
    by (auto simp: select_root_def split: list.split option.split intro!: related_intros)
qed

lemma related_proposal_fold:
  "related p q \<Longrightarrow> related (fold (proposal_step ms) kvs p) (fold (proposal_step ms) kvs q)"
proof (induction kvs arbitrary: p q)
  case (Cons e kvs)
  have "related (proposal_step ms e p) (proposal_step ms e q)"
    using Cons.prems by (cases e) (auto simp: proposal_step_def Let_def intro!: related_intros)
  from Cons.IH [OF this] show ?case by simp
qed simp

lemma related_decide_stage:
  assumes "related p q"
  shows "rel_option (rel_prod (=) (rel_prod (=) (rel_prod (=) related)))
    (decide_stage ms p) (decide_stage ms q)"
proof -
  let ?ix0 = "\<lparr>ix_root_proposals = [], ix_candidates = [], ix_cancellations = [], ix_referenced_parents = [], ix_projection = p\<rparr>"
  define ix where "ix = fold (index_step ms) ms ?ix0"
  obtain q1 where ix': "fold (index_step ms) ms (?ix0\<lparr>ix_projection := q\<rparr>) = ix\<lparr>ix_projection := q1\<rparr>"
    and r1: "related (ix_projection ix) q1"
    using related_index_fold [of ?ix0 q ms ms] assms unfolding ix_def index_state.select_convs by blast
  let ?ds0 = "\<lparr>ds_decisions = [], ds_claims = [], ds_projection = ix_projection ix\<rparr>"
  define ds where "ds = fold (decision_step (ix_candidates ix)) ms ?ds0"
  obtain q2 where ds': "fold (decision_step (ix_candidates ix)) ms (?ds0\<lparr>ds_projection := q1\<rparr>) = ds\<lparr>ds_projection := q2\<rparr>"
    and r2: "related (ds_projection ds) q2"
    using related_decision_fold [of ?ds0 q1 "ix_candidates ix" ms] r1
    unfolding ds_def decision_state.select_convs by blast
  define heads where "heads = (\<lambda>x. (fold (proposal_step ms) (ds_decisions ds) x)
    \<lparr>pj_candidate_heads := filter (\<lambda>m. m \<notin> set (ix_referenced_parents ix)) (map fst ms),
     pj_declined_candidate_ids := declined_candidate_ids ms, pj_agreement_claims := map snd (ds_claims ds)\<rparr>)"
  have heads: "related (heads x) (heads y)" if "related x y" for x y
    unfolding heads_def using related_proposal_fold [OF that] by (rule related_update) simp_all
  have run: "decide_stage ms p = Option.bind (select_root ms (ix_root_proposals ix) (ds_projection ds))
      (\<lambda>x. Some (ix_candidates ix, ix_cancellations ix, ds_claims ds, heads x))"
    by (simp only: decide_stage_def Let_def ix_def [symmetric] ds_def [symmetric] heads_def)
  have ix0: "\<lparr>ix_root_proposals = [], ix_candidates = [], ix_cancellations = [], ix_referenced_parents = [],
      ix_projection = q\<rparr> = ?ix0\<lparr>ix_projection := q\<rparr>" by simp
  have ds0: "\<lparr>ds_decisions = [], ds_claims = [], ds_projection = q1\<rparr> = ?ds0\<lparr>ds_projection := q1\<rparr>" by simp
  have ix_fields: "ix_candidates (ix\<lparr>ix_projection := q1\<rparr>) = ix_candidates ix"
    "ix_cancellations (ix\<lparr>ix_projection := q1\<rparr>) = ix_cancellations ix"
    "ix_root_proposals (ix\<lparr>ix_projection := q1\<rparr>) = ix_root_proposals ix"
    "ix_referenced_parents (ix\<lparr>ix_projection := q1\<rparr>) = ix_referenced_parents ix"
    "ix_projection (ix\<lparr>ix_projection := q1\<rparr>) = q1"
    by simp_all
  have ds_fields: "ds_claims (ds\<lparr>ds_projection := q2\<rparr>) = ds_claims ds"
    "ds_decisions (ds\<lparr>ds_projection := q2\<rparr>) = ds_decisions ds" "ds_projection (ds\<lparr>ds_projection := q2\<rparr>) = q2"
    by simp_all
  have run': "decide_stage ms q = Option.bind (select_root ms (ix_root_proposals ix) q2)
      (\<lambda>x. Some (ix_candidates ix, ix_cancellations ix, ds_claims ds, heads x))"
    unfolding decide_stage_def Let_def ix0 ix' heads_def by (simp only: ix_fields ds0 ds' ds_fields)
  have "rel_option related (select_root ms (ix_root_proposals ix) (ds_projection ds))
      (select_root ms (ix_root_proposals ix) q2)"
    by (rule related_select_root [OF r2])
  then show ?thesis
    unfolding run run'
    by (cases "select_root ms (ix_root_proposals ix) (ds_projection ds)";
        cases "select_root ms (ix_root_proposals ix) q2") (simp_all add: heads)
qed

lemma related_cancellation_fold:
  "related p q \<Longrightarrow> related (fold (cancellation_step claims) ks p) (fold (cancellation_step claims) ks q)"
proof (induction ks arbitrary: p q)
  case (Cons c ks)
  have contest: "related ((push_issue i p)\<lparr>pj_agreement_state := Contested\<rparr>)
      ((push_issue i q)\<lparr>pj_agreement_state := Contested\<rparr>)" for i
    using related_push_issue [OF Cons.prems] by (rule related_update) simp_all
  define cancel where "cancel = (\<lambda>target x.
    let x = x\<lparr>pj_cancelled_claim_ids := pj_cancelled_claim_ids x @ [target]\<rparr>
    in if pj_active_agreement_claim_ids x = [target] then x\<lparr>pj_agreement_state := Cancelled\<rparr>
       else (x :: RadrootsTradeProjectionV1))"
  have cancel: "related (cancel t p) (cancel t q)" for t
    unfolding cancel_def using Cons.prems by (rule related_update) (simp_all add: Let_def)
  have "related (cancellation_step claims c p) (cancellation_step claims c q)"
    using Cons.prems contest cancel [unfolded cancel_def] related_set_conflict
    by (simp add: cancellation_step_def Let_def split: option.split)
  from Cons.IH [OF this] show ?case by simp
qed simp

lemma related_judge_claims:
  assumes "related p q"
  shows "rel_option related (judge_claims claims active p) (judge_claims claims active q)"
proof (cases "compatible_claims (List.map_filter (bt_get claims) active)")
  case None
  then show ?thesis by (simp add: judge_claims_def)
next
  case (Some b)
  define judge where "judge = (\<lambda>x :: RadrootsTradeProjectionV1.
    let x = x\<lparr>pj_active_agreement_claim_ids := active\<rparr> in
    if b then x\<lparr>pj_agreement_state := Agreed\<rparr>
    else let x = x\<lparr>pj_agreement_state := Contested, pj_contested_claim_ids := pj_active_agreement_claim_ids x\<rparr>
         in if pj_conflict_state x = NoConflict then set_conflict DecisionConflictState x else x)"
  have "related (judge p) (judge q)"
    unfolding judge_def using assms by (rule related_update) (simp_all add: Let_def set_conflict_def)
  moreover have "judge_claims claims active x = Some (judge x)" for x
    by (simp add: judge_claims_def judge_def Some Let_def)
  ultimately show ?thesis by simp
qed

lemma related_apply_agreement_state:
  assumes "related p q"
  shows "rel_option related (apply_agreement_state claims ms candidates ks p)
    (apply_agreement_state claims ms candidates ks q)"
proof (cases "claims = []")
  case True
  have "related (p\<lparr>pj_agreement_state := Cancelled\<rparr>) (q\<lparr>pj_agreement_state := Cancelled\<rparr>)"
    using assms by (rule related_update) simp_all
  then show ?thesis using assms by (simp add: apply_agreement_state_def True)
next
  case False
  show ?thesis
  proof (cases "non_dominated_claim_ids claims ms")
    case None
    then show ?thesis using False by (simp add: apply_agreement_state_def)
  next
    case (Some active)
    have "rel_option related (judge_claims claims active p) (judge_claims claims active q)"
      by (rule related_judge_claims [OF assms])
    then show ?thesis
      using False Some related_cancellation_fold
      by (cases "judge_claims claims active p"; cases "judge_claims claims active q")
        (simp_all add: apply_agreement_state_def)
  qed
qed

lemma related_negotiation:
  "related p q \<Longrightarrow> related (apply_negotiation_state c l t p) (apply_negotiation_state c l t q)"
  by (rule related_update) (simp_all add: apply_negotiation_state_def)

lemma related_fields:
  assumes "related p q"
  shows "pj_agreement_claims q = pj_agreement_claims p"
    and "pj_active_agreement_claim_ids q = pj_active_agreement_claim_ids p"
    and "reduce_evidence_state q e = reduce_evidence_state p e"
proof -
  obtain issues ids where q: "q = p\<lparr>pj_issues := issues, pj_unsupported_mutation_ids := ids\<rparr>"
    and ids: "set ids = set (pj_unsupported_mutation_ids p)"
    using assms by (rule relatedE)
  have "ids = [] \<longleftrightarrow> pj_unsupported_mutation_ids p = []" using ids by (metis set_empty)
  then show "reduce_evidence_state q e = reduce_evidence_state p e" by (simp add: q reduce_evidence_state_def)
  show "pj_agreement_claims q = pj_agreement_claims p"
    and "pj_active_agreement_claim_ids q = pj_active_agreement_claim_ids p"
    by (simp_all add: q)
qed

lemma related_push_unavailable:
  "related p q \<Longrightarrow> rel_option related (push_unavailable claims ids p) (push_unavailable claims ids q)"
  by (induction ids arbitrary: p q) (simp_all add: related_push_issue split: option.split)

lemma related_private_terms_stage:
  assumes "related p q"
  shows "rel_option related (private_terms_stage candidates claims terms p)
    (private_terms_stage candidates claims terms q)"
proof -
  have same: "reduce_private_terms_state q candidates terms = reduce_private_terms_state p candidates terms"
    by (simp add: reduce_private_terms_state_def related_fields [OF assms])
  have state: "related (p\<lparr>pj_private_terms_state := s\<rparr>) (q\<lparr>pj_private_terms_state := s\<rparr>)" for s
    using assms by (rule related_update) simp_all
  show ?thesis
    by (cases "reduce_private_terms_state p candidates terms")
      (simp_all add: private_terms_stage_def same Let_def state related_push_unavailable
        related_fields(2) [OF assms])
qed

section \<open>Sorting and collecting forget the order\<close>

lemma strict_remdups_adj: "sorted xs \<Longrightarrow> sorted_wrt (<) (remdups_adj (xs :: 'a::linorder list))"
  by (induction xs rule: remdups_adj.induct) (auto simp: remdups_adj_set)

lemma sort_dedup_cong: "set xs = set ys \<Longrightarrow> sort_dedup xs = sort_dedup ys"
proof -
  assume "set xs = set ys"
  moreover have "sorted_wrt (<) (sort_dedup zs)" and "set (sort_dedup zs) = set zs" for zs :: "'a list"
    by (simp_all add: sort_dedup_def strict_remdups_adj)
  ultimately show ?thesis by (metis strict_sorted_equal)
qed

lemma attestation_key_inj: "inj attestation_key"
  by (rule injI) (auto simp: attestation_key_def attestation_rank_inject)

lemma attestations_cong:
  assumes "set as = set bs"
  shows "remdups_adj (sort_key attestation_key as) = remdups_adj (sort_key attestation_key bs)"
proof -
  let ?l = "\<lambda>cs. remdups_adj (sort_key attestation_key cs)"
  have "sorted_wrt (<) (map attestation_key (?l cs))" for cs
    using strict_remdups_adj [of "map attestation_key (sort_key attestation_key cs)"]
    by (simp add: remdups_adj_map_injective [OF attestation_key_inj])
  then have strict: "sorted (map attestation_key (?l cs)) \<and> distinct (map attestation_key (?l cs))" for cs
    by (simp only: strict_sorted_iff)
  have "set (?l as) = set (?l bs)" by (simp add: assms)
  with strict show ?thesis
    by (intro map_sorted_distinct_set_unique [where f = attestation_key])
      (auto intro: inj_on_subset [OF attestation_key_inj])
qed

lemma attestation_state_cong: "set as = set bs \<Longrightarrow> reduce_attestation_state as = reduce_attestation_state bs"
  by (simp add: reduce_attestation_state_def list_ex_iff)

lemma finish_cong:
  assumes "related p q" and "set as = set bs"
  shows "finish digest (p\<lparr>pj_attestations := as, pj_attestation_state := s, pj_evidence_state := e\<rparr>) =
    finish digest (q\<lparr>pj_attestations := bs, pj_attestation_state := s, pj_evidence_state := e\<rparr>)"
proof -
  obtain issues ids where q: "q = p\<lparr>pj_issues := issues, pj_unsupported_mutation_ids := ids\<rparr>"
    and sets: "set issues = set (pj_issues p)" "set ids = set (pj_unsupported_mutation_ids p)"
    using assms(1) by (rule relatedE)
  have "sort_fields (p\<lparr>pj_attestations := as, pj_attestation_state := s, pj_evidence_state := e\<rparr>) =
      sort_fields (q\<lparr>pj_attestations := bs, pj_attestation_state := s, pj_evidence_state := e\<rparr>)"
    using sort_dedup_cong [OF sets(1)] sort_dedup_cong [OF sets(2)] attestations_cong [OF assms(2)]
    by (simp add: sort_fields_def q)
  then show ?thesis by (simp only: finish_def Let_def)
qed

lemma Max_insert_case:
  fixes x :: "'a::linorder"
  assumes "finite T"
  shows "(if Set.insert x T = {} then None else Some (Max (Set.insert x T))) =
    Some (case (if T = {} then None else Some (Max T)) of Some s \<Rightarrow> max s x | None \<Rightarrow> x)"
  using assms by (cases "T = {}") (simp_all add: max.commute)

lemma private_states:
  "bt_inv (fold private_terms_step rs [])
    \<and> map_of (fold private_terms_step rs []) k =
      (let S = pe_state ` {r \<in> set rs. pe_candidate_id r = k} in if S = {} then None else Some (Max S))"
proof (induction rs rule: rev_induct)
  case Nil
  then show ?case by simp
next
  case (snoc r rs)
  let ?m = "fold private_terms_step rs []" and ?S = "\<lambda>rs. pe_state ` {r \<in> set rs. pe_candidate_id r = k}"
  have S: "?S (rs @ [r]) = (if pe_candidate_id r = k then Set.insert (pe_state r) (?S rs) else ?S rs)" by auto
  have get: "map_of ?m k = (if ?S rs = {} then None else Some (Max (?S rs)))"
    using snoc.IH unfolding Let_def by (rule conjunct2)
  have inv: "bt_inv ?m" using snoc.IH by (rule conjunct1)
  have fin: "finite (?S rs)" by simp
  have "map_of (private_terms_step r ?m) k =
      (if ?S (rs @ [r]) = {} then None else Some (Max (?S (rs @ [r]))))"
  proof (cases "pe_candidate_id r = k")
    case True
    then have "map_of (private_terms_step r ?m) k =
        Some (case map_of ?m k of Some s \<Rightarrow> max s (pe_state r) | None \<Rightarrow> pe_state r)"
      using inv by (simp add: private_terms_step_def)
    also have "\<dots> = (if Set.insert (pe_state r) (?S rs) = {} then None
        else Some (Max (Set.insert (pe_state r) (?S rs))))"
      unfolding get by (rule Max_insert_case [OF fin, symmetric])
    finally show ?thesis unfolding S using True by (simp only: if_True simp_thms)
  next
    case False
    then have "map_of (private_terms_step r ?m) k = map_of ?m k"
      using inv by (simp add: private_terms_step_def)
    then show ?thesis unfolding S get using False by simp
  qed
  moreover have "bt_inv (private_terms_step r ?m)" using inv by (simp add: private_terms_step_def)
  ultimately show ?case by (simp only: fold_append fold_simps comp_apply Let_def simp_thms)
qed

lemma private_states_cong:
  assumes "set rs = set rs'"
  shows "fold private_terms_step rs [] = fold private_terms_step rs' []"
proof (rule bt.entries_extensional)
  show "bt_inv (fold private_terms_step rs [])" "bt_inv (fold private_terms_step rs' [])"
    using private_states by blast+
  show "map_of (fold private_terms_step rs []) = map_of (fold private_terms_step rs' [])"
    by (rule ext) (simp only: private_states [THEN conjunct2] assms)
qed

lemma private_terms_stage_cong:
  "set terms = set terms' \<Longrightarrow>
    private_terms_stage candidates claims terms p = private_terms_stage candidates claims terms' p"
  by (simp add: private_terms_stage_def reduce_private_terms_state_def private_states_cong [of terms terms'])

lemma stages_cong:
  assumes "related p q" and "set terms = set terms'" and "set as = set bs"
    and "e = e'" and "t = t'"
  shows "Option.bind (apply_agreement_state claims ms candidates ks p) (\<lambda>p.
      let p = apply_negotiation_state candidates claims t p in
      Option.bind (private_terms_stage candidates claims terms p) (\<lambda>p.
      let p = p\<lparr>pj_attestations := as\<rparr>;
          p = p\<lparr>pj_attestation_state := reduce_attestation_state (pj_attestations p)\<rparr>;
          p = p\<lparr>pj_evidence_state := reduce_evidence_state p e\<rparr>
      in Some (finish digest p))) =
    Option.bind (apply_agreement_state claims ms candidates ks q) (\<lambda>p.
      let p = apply_negotiation_state candidates claims t' p in
      Option.bind (private_terms_stage candidates claims terms' p) (\<lambda>p.
      let p = p\<lparr>pj_attestations := bs\<rparr>;
          p = p\<lparr>pj_attestation_state := reduce_attestation_state (pj_attestations p)\<rparr>;
          p = p\<lparr>pj_evidence_state := reduce_evidence_state p e'\<rparr>
      in Some (finish digest p)))"
proof -
  define close where "close = (\<lambda>as p. finish digest (p\<lparr>pj_attestations := as,
    pj_attestation_state := reduce_attestation_state as, pj_evidence_state := reduce_evidence_state p e\<rparr>))"
  have close: "close as x = close bs y" if "related x y" for x y
    using finish_cong [OF that assms(3)] related_fields(3) [OF that] attestation_state_cong [OF assms(3)]
    by (simp add: close_def)
  have tail: "(let p = x\<lparr>pj_attestations := cs\<rparr>;
          p = p\<lparr>pj_attestation_state := reduce_attestation_state (pj_attestations p)\<rparr>;
          p = p\<lparr>pj_evidence_state := reduce_evidence_state p e\<rparr>
      in Some (finish digest p)) = Some (close cs x)" for x cs
    by (simp add: Let_def close_def reduce_evidence_state_def)
  have priv: "Option.bind (private_terms_stage candidates claims terms' x) (\<lambda>p. Some (close as p)) =
      Option.bind (private_terms_stage candidates claims terms' y) (\<lambda>p. Some (close bs p))" if "related x y" for x y
    using related_private_terms_stage [OF that, of candidates claims terms'] close
    by (cases "private_terms_stage candidates claims terms' x";
        cases "private_terms_stage candidates claims terms' y") simp_all
  have "rel_option related (apply_agreement_state claims ms candidates ks p)
      (apply_agreement_state claims ms candidates ks q)"
    by (rule related_apply_agreement_state [OF assms(1)])
  then show ?thesis
    unfolding assms(4,5) [symmetric] tail private_terms_stage_cong [OF assms(2)]
    by (cases "apply_agreement_state claims ms candidates ks p";
        cases "apply_agreement_state claims ms candidates ks q")
      (simp_all add: priv related_negotiation)
qed

text \<open>Records are coherent when one mutation identifier never stands for two mutations.\<close>

definition coherent :: "TradeId \<Rightarrow> RadrootsTradeMutationRecordV1 list \<Rightarrow> bool" where
  "coherent t rs \<longleftrightarrow>
     (\<forall>r\<in>set rs. \<forall>s\<in>set rs. admitted t r \<longrightarrow> admitted t s
       \<longrightarrow> te_mutation_id (mr_mutation r) = te_mutation_id (mr_mutation s) \<longrightarrow> mr_mutation r = mr_mutation s)"

lemma map_of_functional:
  assumes "\<And>v w. (k, v) \<in> set xs \<Longrightarrow> (k, w) \<in> set xs \<Longrightarrow> v = w" and "set xs = set ys"
  shows "map_of xs k = map_of ys k"
proof (cases "map_of xs k")
  case None
  then show ?thesis using assms(2) by (metis map_of_eq_None_iff)
next
  case (Some v)
  then have "k \<in> fst ` set ys" using assms(2) by (metis domI dom_map_of_conv_image_fst)
  then obtain w where "map_of ys k = Some w" by (metis domD dom_map_of_conv_image_fst)
  then show ?thesis using Some assms by (metis map_of_SomeD)
qed

lemma first_admitted_cong:
  assumes "coherent t rs" and "set rs = set rs'"
  shows "map_of (admitted_entries t rs) = map_of (admitted_entries t rs')"
proof (rule ext, rule map_of_functional)
  fix k v w
  assume "(k, v) \<in> set (admitted_entries t rs)" and "(k, w) \<in> set (admitted_entries t rs)"
  then obtain r s where "r \<in> set rs" "admitted t r" "v = mr_mutation r" "k = the (te_mutation_id v)"
    and "s \<in> set rs" "admitted t s" "w = mr_mutation s" "k = the (te_mutation_id w)"
    by (auto simp: admitted_entries_def)
  moreover from this have "te_mutation_id v = te_mutation_id w"
    by (auto simp: admitted_def)
  ultimately show "v = w" using assms(1) by (simp add: coherent_def)
next
  show "set (admitted_entries t rs) = set (admitted_entries t rs')"
    by (simp add: admitted_entries_def assms(2))
qed

section \<open>Properties\<close>

text \<open>C5: the order and the repetition of evidence do not matter. If one mutation identifier never
  stands for two different admitted mutations, two inputs for the same trade with the same
  mutation records, private-term records and attestations, in any order and number, give the
  same outcome, down to the digest, whatever the digest function is.\<close>

theorem reduce_order_independent:
  assumes "coherent (ri_trade_id a) (ri_mutations a)"
    and "ri_trade_id b = ri_trade_id a"
    and "set (ri_mutations b) = set (ri_mutations a)"
    and "set (ri_private_terms b) = set (ri_private_terms a)"
    and "set (ri_attestations b) = set (ri_attestations a)"
    and "ri_evidence_state b = ri_evidence_state a"
    and "ri_observed_at_unix_s b = ri_observed_at_unix_s a"
  shows "reduce_trade_records json_digest b = reduce_trade_records json_digest a"
proof -
  let ?t = "ri_trade_id a"
  define start where "start = (\<lambda>i :: RadrootsTradeReductionInputV1. with_refusals (concat (map (refusal ?t) (ri_mutations i)))
    (concat (map unsupported (ri_mutations i))) (Projection_empty ?t))"
  obtain ma where a: "fold (collect_step ?t) (ri_mutations a) (Projection_empty ?t, []) = (start a, ma)"
    and ma: "bt_inv ma" "map_of ma = first_admitted a"
    unfolding start_def by (rule collected [of a])
  obtain mb where b: "fold (collect_step ?t) (ri_mutations b) (Projection_empty ?t, []) = (start b, mb)"
    and mb: "bt_inv mb" "map_of mb = first_admitted b"
    unfolding start_def using collected [of b] unfolding assms(2) by blast
  have "first_admitted a = first_admitted b"
    unfolding first_admitted_def assms(2) by (rule first_admitted_cong [OF assms(1) assms(3) [symmetric]])
  then have same: "mb = ma" using ma mb by (intro bt.entries_extensional) simp_all
  have "related (start a) (start b)"
    unfolding related_def start_def
    by (intro exI [of _ "concat (map (refusal ?t) (ri_mutations b))"] exI [of _ "concat (map unsupported (ri_mutations b))"])
      (simp add: with_refusals_def Projection_empty_def assms(3))
  then have decided: "rel_option (rel_prod (=) (rel_prod (=) (rel_prod (=) related)))
      (decide_stage ma (start a)) (decide_stage ma (start b))"
    by (rule related_decide_stage)
  define rest where "rest = (\<lambda>i :: RadrootsTradeReductionInputV1. \<lambda>(candidates, cancellations, claims, p).
    Option.bind (apply_agreement_state claims ma candidates cancellations p) (\<lambda>p.
      let p = apply_negotiation_state candidates claims (ri_observed_at_unix_s i) p in
      Option.bind (private_terms_stage candidates claims (ri_private_terms i) p) (\<lambda>p.
      let p = p\<lparr>pj_attestations := ri_attestations i\<rparr>;
          p = p\<lparr>pj_attestation_state := reduce_attestation_state (pj_attestations p)\<rparr>;
          p = p\<lparr>pj_evidence_state := reduce_evidence_state p (ri_evidence_state i)\<rparr>
      in Some (finish json_digest p))))"
  have ends: "rest a (c, k, l, p) = rest b (c, k, l, q)" if "related p q" for c k l p q
    using stages_cong [OF that assms(4-7) [symmetric]] by (simp add: rest_def)
  have "reduce_trade_records json_digest a = Option.bind (decide_stage ma (start a)) (rest a)"
    unfolding reduce_trade_records_def by (simp only: a Let_def case_prod_conv rest_def)
  moreover have "reduce_trade_records json_digest b = Option.bind (decide_stage ma (start b)) (rest b)"
    unfolding reduce_trade_records_def by (simp only: assms(2) b same Let_def case_prod_conv rest_def)
  moreover have "Option.bind (decide_stage ma (start a)) (rest a) = Option.bind (decide_stage ma (start b)) (rest b)"
    using decided ends
    by (cases "decide_stage ma (start a)"; cases "decide_stage ma (start b)") (auto simp: rel_prod_sel)
  ultimately show ?thesis by simp
qed

theorem reduce_order_independent_witness:
  "reduce_trade_records no_json_digest
     (sample_input [sample_acceptance 2 [1] (CHR ''a''), sample_proposal, sample_acceptance 2 [1] (CHR ''a'')]) =
   reduce_trade_records no_json_digest sample_agreed"
proof (rule reduce_order_independent)
  show "coherent (ri_trade_id sample_agreed) (ri_mutations sample_agreed)"
    by (simp add: coherent_def sample_agreed_def sample_input_def sample_record_def sample_proposal_def
        sample_acceptance_def)
qed (auto simp: sample_agreed_def sample_input_def)

section \<open>Incoherent evidence\<close>

lemma sample_incoherent_admitted:
  "list_all (admitted sample_trade)
    (map sample_record [sample_proposal, sample_acceptance 2 [1] (CHR ''a''), sample_acceptance 2 [1] (CHR ''b'')])"
proof -
  have "\<not> isl (decode_hex_nibble (CHR ''b''))" by code_simp
  then have "envelope_validate (sample_acceptance 2 [1] c) = Inr ()" if "c \<in> {CHR ''a'', CHR ''b''}" for c
    using that by (intro sample_acceptance_valid) (auto simp: sample_digit)
  then show ?thesis
    using sample_proposal_valid
    by (simp add: admitted_def sample_record_def RADROOTS_TRADE_SCHEMA_VERSION_def)
      (simp add: sample_proposal_def sample_acceptance_def)
qed

lemma admitted_silent:
  "admitted t r \<Longrightarrow> refusal t r = [] \<and> unsupported r = []"
  by (auto simp: admitted_def refusal_def unsupported_def)

text \<open>A record whose identifier an earlier admitted record has already leaves the collected state as it is.\<close>

lemma collect_repeated:
  assumes "first \<in> set before" and "admitted t first" and "admitted t later"
    and "te_mutation_id (mr_mutation later) = te_mutation_id (mr_mutation first)"
  shows "fold (collect_step t) (before @ later # after) (p, []) = fold (collect_step t) (before @ after) (p, [])"
proof -
  let ?k = "the (te_mutation_id (mr_mutation first))"
  obtain q m where st: "fold (collect_step t) before (p, []) = (q, m)" by (rule prod.exhaust)
  have "?k \<in> fst ` set (admitted_entries t before)"
    using assms(1,2) by (force simp: admitted_entries_def)
  then have "map_of m ?k \<noteq> None"
    using collect_fold [OF bt_inv_Nil, of t before p] by (simp add: st map_of_eq_None_iff)
  moreover have "with_refusals [] [] q = q" by (simp add: with_refusals_def)
  ultimately have "collect_step t later (q, m) = (q, m)"
    using admitted_silent [OF assms(3)] by (auto simp: collect_step_eq assms(4))
  then show ?thesis by (simp add: st)
qed

text \<open>Two acceptances of one proposal with one identifier and different reservations.\<close>

lemma incoherent_projections_differ:
  "\<exists>input proposal x y. list_all (admitted (ri_trade_id input)) [proposal, x, y]
    \<and> te_mutation_id (mr_mutation x) = te_mutation_id (mr_mutation y)
    \<and> reduce_trade_records json_digest (input\<lparr>ri_mutations := [proposal, x, y]\<rparr>) \<noteq>
      reduce_trade_records json_digest (input\<lparr>ri_mutations := [proposal, y, x]\<rparr>)"
proof -
  let ?x = "sample_acceptance 2 [1] (CHR ''a'')" and ?y = "sample_acceptance 2 [1] (CHR ''b'')"
  define a where "a = sample_input [sample_proposal, ?x, ?y]"
  define b where "b = sample_input [sample_proposal, ?y, ?x]"
  have digit: "\<not> isl (decode_hex_nibble (CHR ''b''))" by code_simp
  have valid: "envelope_validate ?x = Inr ()" "envelope_validate ?y = Inr ()"
    by (rule sample_acceptance_valid; simp add: sample_digit digit)+
  have first_a: "first_admitted a = first_admitted sample_agreed"
    unfolding a_def sample_agreed_first
    by (subst sample_first_admitted)
      (simp_all add: sample_proposal_valid valid, auto simp: sample_proposal_def sample_acceptance_def fun_eq_iff)
  have first_b: "first_admitted b (sample_id 2) = Some ?y"
    unfolding b_def
    by (subst sample_first_admitted)
      (simp_all add: sample_proposal_valid valid, auto simp: sample_proposal_def sample_acceptance_def)
  obtain p where p: "reduce_trade_records json_digest a = Some p"
    using reduction_returns [of a json_digest] sample_agreed_acyclic by (auto simp: first_a)
  have "backed (first_admitted a) sample_claim" unfolding first_a by (rule sample_claim_backed)
  then have "sample_claim \<in> set (pj_agreement_claims p)" using reduction_claims [OF p] by simp
  moreover have "\<not> backed (first_admitted b) sample_claim"
    unfolding backed_def
    by (auto simp: sample_claim_def first_b sample_acceptance_def sample_reservation_def sample_hash_def
        dest: arg_cong [where f = hd])
  then have "reduce_trade_records json_digest b \<noteq> Some p" if "sample_claim \<in> set (pj_agreement_claims p)"
    using reduction_claims [of json_digest b p] that by auto
  ultimately have "reduce_trade_records json_digest a \<noteq> reduce_trade_records json_digest b" by (simp add: p)
  moreover have "te_mutation_id ?x = te_mutation_id ?y" by (simp add: sample_acceptance_def)
  ultimately show ?thesis
    using sample_incoherent_admitted
    by (intro exI [of _ a] exI [of _ "sample_record sample_proposal"] exI [of _ "sample_record ?x"]
        exI [of _ "sample_record ?y"]) (simp add: a_def b_def sample_input_def sample_record_def)
qed

text \<open>C24: of two admitted records with one mutation identifier only the first counts. Whatever the later
  one contains, leaving it out gives the same projection with the same issues, since the identifier is not
  compared with the content. The order of the input therefore decides the projection: for every digest
  function there are two admitted records with one identifier that give different projections
  in the two orders.\<close>

theorem reduce_first_wins:
  assumes "first \<in> set before" and "admitted (ri_trade_id input) first" and "admitted (ri_trade_id input) later"
    and "te_mutation_id (mr_mutation later) = te_mutation_id (mr_mutation first)"
  shows "reduce_trade_records json_digest (input\<lparr>ri_mutations := before @ later # after\<rparr>) =
      reduce_trade_records json_digest (input\<lparr>ri_mutations := before @ after\<rparr>)
    \<and> (\<exists>input proposal x y. list_all (admitted (ri_trade_id input)) [proposal, x, y]
        \<and> te_mutation_id (mr_mutation x) = te_mutation_id (mr_mutation y)
        \<and> reduce_trade_records json_digest (input\<lparr>ri_mutations := [proposal, x, y]\<rparr>) \<noteq>
          reduce_trade_records json_digest (input\<lparr>ri_mutations := [proposal, y, x]\<rparr>))"
proof -
  have "reduce_trade_records json_digest (input\<lparr>ri_mutations := before @ later # after\<rparr>) =
      reduce_trade_records json_digest (input\<lparr>ri_mutations := before @ after\<rparr>)"
    using collect_repeated [OF assms, of after "Projection_empty (ri_trade_id input)"]
    by (simp add: reduce_trade_records_def del: fold_append fold_simps)
  then show ?thesis using incoherent_projections_differ by blast
qed

theorem reduce_first_wins_witness:
  "reduce_trade_records no_json_digest (sample_input [sample_proposal, sample_acceptance 2 [1] (CHR ''a''),
      sample_acceptance 2 [1] (CHR ''b'')]) = reduce_trade_records no_json_digest sample_agreed
   \<and> sample_acceptance 2 [1] (CHR ''b'') \<noteq> sample_acceptance 2 [1] (CHR ''a'')"
proof -
  let ?x = "sample_acceptance 2 [1] (CHR ''a'')" and ?y = "sample_acceptance 2 [1] (CHR ''b'')"
  have adm: "admitted (ri_trade_id sample_agreed) (sample_record ?x)" "admitted (ri_trade_id sample_agreed) (sample_record ?y)"
    using sample_incoherent_admitted by (simp_all add: sample_agreed_def sample_input_def)
  have "te_mutation_id (mr_mutation (sample_record ?y)) = te_mutation_id (mr_mutation (sample_record ?x))"
    by (simp add: sample_record_def sample_acceptance_def)
  note reduce_first_wins [OF _ adm this, of "map sample_record [sample_proposal, ?x]" no_json_digest "[]", THEN conjunct1]
  moreover have "?y \<noteq> ?x"
    by (auto simp: sample_acceptance_def sample_reservation_def sample_hash_def dest: arg_cong [where f = hd])
  ultimately show ?thesis by (simp add: sample_agreed_def sample_input_def)
qed

end
