(* ===== verification/Spec2Isabelle.thy ===== *)
theory Spec2Isabelle
  imports Money Stock_Wire Replacement Causal_Claims Trade_Workflow Trade_Confluence
begin

text \<open>
  Verification of the Radroots domain libraries.

  \<^bold>\<open>The program.\<close> Radroots is a Rust workspace for local food networks. Its crate
  \<open>crates/domain\<close> holds the pure values and decisions that every other crate carries, stores
  or signs: exact amounts and prices, listings, agreements, physical stock with its allocation, and
  the private commerce records with their causal analysis. \<open>crates/identity\<close> holds the public
  keys that name the parties. \<open>crates/event\<close> holds the public protocol values, among them the trade
  mutations two parties exchange, and \<open>crates/trade\<close> reduces a set of such mutations to the state of
  their trade. This development models all of \<open>crates/domain/src\<close>, the key module of
  \<open>crates/identity\<close>, the identifiers and trade mutations of \<open>crates/event\<close>, and the reducer,
  workflow plans and evidence coverage of \<open>crates/trade\<close>.

  \<^bold>\<open>Conventions.\<close> A fallible function returns \<open>error + value\<close> (\<open>Inl\<close> is \<open>Err\<close>), the
  question mark is \<open>bindE\<close>, and a loop with the question mark is \<open>try_fold\<close> or
  \<open>try_all\<close> (theory \<open>Prelude\<close>). Machine integers are naturals or integers with the width
  written out: \<open>checked_*\<close> operations return \<open>None\<close> outside the width. A string is the list
  of its UTF-8 bytes. A \<open>BTreeMap\<close> is a sorted association list and a \<open>BTreeSet\<close> a sorted list
  (theory \<open>Ordered_Map\<close>). A panic is an outer \<open>None\<close>. A \<open>wf_\<close> predicate states what
  the constructors of a type establish. Sample values serve the witnesses only.

  \<^bold>\<open>Theories and sources\<close> (paths below \<open>crates/domain/src\<close> unless given in full):
  \<^item> \<open>Prelude\<close>, \<open>Interfaces\<close>, \<open>Ordered_Map\<close>: results, checked arithmetic, text scans;
    the contracts \<open>canonical_codec\<close> (decoding accepts exactly the rendered form of valid
    values), \<open>checked_sum\<close>, \<open>ordered_map\<close>, \<open>fresh_inserts\<close> and \<open>checked_totals\<close>, each
    interpreted on the operations of the components that provide it.
  \<^item> \<open>Identifier\<close> (\<open>identifier.rs\<close>) and \<open>Identity_Key\<close>
    (\<open>crates/identity/src/key.rs\<close>, \<open>error.rs\<close>): 32-byte identifiers and keys with their
    hexadecimal codecs. The curve check of the k256 package is a parameter.
  \<^item> \<open>Amount\<close>, \<open>Currency\<close>, \<open>Money\<close>, \<open>Quantity\<close>, \<open>Pricing\<close> (\<open>amount.rs\<close>,
    \<open>currency.rs\<close> with its registry file, \<open>money.rs\<close>, \<open>quantity.rs\<close>, \<open>pricing.rs\<close>,
    \<open>variable_price.rs\<close>): canonical decimals, the compile-time checked currency table,
    exact arithmetic, unit conversion, and price lines rounded half to even.
  \<^item> \<open>Descriptors\<close> (\<open>context.rs\<close>, \<open>time.rs\<close>, \<open>issuance.rs\<close>, \<open>message.rs\<close>): bounded
    integers, command contexts, windows and messages. The time zone database is a parameter.
  \<^item> \<open>Listing\<close> (\<open>listing.rs\<close>, \<open>listing/\<close>) and \<open>Agreement\<close> (\<open>agreement.rs\<close>,
    \<open>fulfillment.rs\<close>): options with their purchase rules, listing terms, agreement lines and
    complete terms.
  \<^item> \<open>Stock\<close>, \<open>Stock_Wire\<close>, \<open>Option_Mapping\<close>, \<open>Allocation\<close>, \<open>Replacement\<close>
    (\<open>stock.rs\<close> and \<open>stock/\<close>): pool balances with all their movements, obligations, wire
    forms, the mapping of options to pools, allocation and its replacement.
  \<^item> \<open>Commerce\<close> (\<open>commerce.rs\<close>, \<open>commerce/value.rs\<close>, \<open>commerce/payload.rs\<close>): the
    nineteen record families and their admission.
  \<^item> \<open>Causal\<close>, \<open>Causal_Analysis\<close>, \<open>Causal_Claims\<close> (\<open>commerce/causal.rs\<close>,
    \<open>commerce/causal/request.rs\<close>, \<open>commerce/causal/replacement.rs\<close>): the analysis of a
    record history, what it computes, and the claims prepared from a complete history.
  \<^item> \<open>Event_Id\<close> (\<open>crates/event/src/id.rs\<close>, \<open>kinds.rs\<close>) and \<open>Trade_Event\<close>
    (\<open>crates/event/src/trade.rs\<close>): protocol identifiers, listing addresses and NIP-01 coordinates;
    mutation envelopes with their bodies, candidates and reservations, and their validation.
  \<^item> \<open>Trade_Reducer\<close> (\<open>crates/trade/src/reducer_impl.rs\<close>): the reduction of mutation,
    private-term and attestation records to a projection. The digest of the projection's JSON is a
    parameter. \<open>Trade_Reduction\<close> has the lemmas on its stages, \<open>Trade_Samples\<close> one concrete
    trade, \<open>Trade_Projection\<close> and \<open>Trade_Confluence\<close> what a whole reduction gives.
  \<^item> \<open>Trade_Workflow\<close> (\<open>crates/trade/src/workflow.rs\<close>, \<open>evidence.rs\<close>, \<open>model.rs\<close>): workflow
    plans, the coverage of trade evidence and order identifiers.

  \<^bold>\<open>How the parts interact.\<close> Amounts, money and quantities feed prices; a price line and a listing
  option give an agreement line; complete terms bind lines and fulfilment groups. Stock-backed
  terms are resolved against pool snapshots through option mappings (\<open>resolve_allocations\<close>),
  planned as one hold per pool (\<open>plan_allocations\<close>) and amended by their net change
  (\<open>plan_replacement_allocations\<close>). Terms travel in commerce records; the causal analysis
  decides whether a history of records is complete, and only then a request or a replacement
  of terms is prepared. On the public side a workflow plan prepares a validated mutation; the reducer
  collects the admitted mutations by identifier, indexes their candidates, decides which acceptances
  count as claims, orders the claims by their ancestors and reports the agreement.

  \<^bold>\<open>What is shown.\<close>
  \<^item> Values: arithmetic is exact or refused, and every codec is a bijection between valid values
    and their one accepted text; the registry scan implies what the table promises.
  \<^item> Prices: a line is the exact rational price rounded half to even; tiers select the last one
    reached; capped measured prices are monotone and stay below the cap.
  \<^item> Stock: every movement from one cell to another implements a transfer between two cells of a pool,
    and any sequence of movements and corrections conserves what was introduced
    (\<open>pool_ledger_conserved\<close>); movements that undo each other
    return to the same balances.
  \<^item> Allocation: a resolution draws exactly what each line needs, a plan holds exactly what was
    resolved and exists exactly when the pools can hold it. A replacement retains the pools of every
    line that had a draw, leaves a line drawn from several pools as it is, and plans the exact net change.
  \<^item> Commerce: a record is admitted exactly when it is self-consistent, and the first failing
    condition is the error that is reported.
  \<^item> Causality: the analysis returns on every input without a panic, depends only on the sets it
    is given, reports exactly the conflicts, gaps and cycles of the history, and a complete
    history has whole author chains whose ends are the reported heads. Prepared claims come
    from a complete history (\<open>complete_history\<close> states this without the analysis) and are live, agreed
    and unambiguous.
  \<^item> Trades: validation accepts exactly the well-formed envelopes; the claims of a projection are exactly
    the acceptances that the admitted mutations back, and an agreed projection has one deal. On mutations
    without a cycle of parents the reducer returns, and evidence in which an identifier has one content
    gives one projection in any order. Of two mutations with one identifier the first one counts, so that
    other evidence gives a result that depends on the order; and two acceptances that name each other as
    parents make the reducer recurse without end.
  \<^item> Planning and identifiers: workflow plans and coverage are exact; an accepted coordinate
    keeps the number, key and identifier of its text, and its canonical text parses to the same coordinate.

  \<^bold>\<open>Bounds and termination.\<close> No fuel is used. Recursions over lists are structural. The search for
  ancestors in the trade reducer does not end on cyclic parents, so it is a \<open>partial_function\<close> whose
  \<open>None\<close> stands for no result; that it returns on acyclic mutations is proved. The traversal
  of the causal analysis decreases the number of unvisited records, and the head loop counts
  towards the width of its 64-bit sequence, which at most 1000 records keep out of reach. The
  limits of the source (1000 records, 8000 sources, 8 parents, 32 lines, 64 draws and so on) are
  part of the definitions.

  \<^bold>\<open>Not modelled.\<close> Inside the modelled files: redacting \<open>Debug\<close> and \<open>Display\<close> output, zeroing of
  memory, getters, and the object framing of serde, which belongs to that package; wire forms are
  modelled from the field records on. \<open>identity/account.rs\<close>, \<open>profile.rs\<close> and
  \<open>username.rs\<close> are not part of the model, nor are the canonical JSON and SHA-256 identifiers of
  \<open>crates/event/src/trade.rs\<close>, the other event families, and the evidence manifests and reports of
  \<open>crates/trade\<close> (byte layouts under a third-party digest). The remaining crates move these values: SQL and
  browser storage, relay and radio transports, signing and secret custody, FFI and WASM
  bindings, the release tools under \<open>tools\<close> and generated protocol registries. They are
  input and output over third-party packages (SQLite, Nostr, TLS, operating system key stores)
  whose code is not in the repository.
\<close>

end
